(* ===== verification/HbmPrelude.thy ===== *)
theory HbmPrelude
  imports Main "HOL-Library.Word" "HOL-Library.Sublist"
begin

unbundle bit_operations_syntax

text \<open>
  Types, collections and lemmas shared by every component.

  A C++ exception is a value of \<open>cxx_exception\<close>; a function that may throw returns
  \<open>cxx_exception + 'a\<close>, with \<open>Inl\<close> for the throw. System calls return
  \<open>errno + 'a\<close>. The collections gather the facts a group of proofs shares:
  \<open>std_simps\<close> holds the rewrite rules of the standard library models,
  \<open>find_bounds\<close> the bounds of positions a search returns, and
  \<open>word_bits\<close> the rules that read words bit by bit.
\<close>

named_theorems std_simps "rewrite rules for the models of the C++ standard library"
named_theorems find_bounds "bounds on the positions that the search functions return"
named_theorems word_bits "rules that decide equations between words bit by bit"

section \<open>Exceptions and error values\<close>

text \<open>
  The exceptions the modelled code throws or lets escape: \<open>std::out_of_range\<close> and
  \<open>std::invalid_argument\<close> of the string functions, \<open>std::bad_function_call\<close> of an
  empty \<open>std::function\<close>, \<open>std::runtime_error\<close> and \<open>hbm::exception::exception\<close>
  with their texts. \<open>UndefinedBehaviour\<close> is the value of a read or write outside an
  object, which C++ does not define.
\<close>

datatype cxx_exception =
    OutOfRange
  | InvalidArgument
  | BadFunctionCall
  | RuntimeError string
  | HbmException string
  | UndefinedBehaviour

type_synonym errno = int

definition EINTR :: errno where "EINTR = 4"

definition EAGAIN :: errno where "EAGAIN = 11"

definition EWOULDBLOCK :: errno where "EWOULDBLOCK = 11"

definition EINPROGRESS :: errno where "EINPROGRESS = 115"

definition EADDRINUSE :: errno where "EADDRINUSE = 98"

definition EADDRNOTAVAIL :: errno where "EADDRNOTAVAIL = 99"

lemma not_isl_iff: "\<not> isl x \<longleftrightarrow> (\<exists>t. x = Inr t)"
  by (cases x) auto

section \<open>Lists\<close>

text \<open>The position of the first element that satisfies a predicate.\<close>

fun find_first :: "('a \<Rightarrow> bool) \<Rightarrow> 'a list \<Rightarrow> nat option" where
  "find_first p [] = None"
| "find_first p (x # xs) = (if p x then Some 0 else map_option Suc (find_first p xs))"

lemma find_first_None_iff: "find_first p xs = None \<longleftrightarrow> (\<forall>x \<in> set xs. \<not> p x)"
  by (induction xs) auto

lemma find_first_SomeD:
  assumes "find_first p xs = Some i"
  shows "i < length xs" and "p (xs ! i)" and "\<forall>j < i. \<not> p (xs ! j)"
  using assms by (induction xs arbitrary: i) (auto split: if_splits simp: less_Suc_eq_0_disj)

lemma find_first_takeWhile:
  "find_first p xs =
     (if \<exists>x \<in> set xs. p x then Some (length (takeWhile (\<lambda>x. \<not> p x) xs)) else None)"
  by (induction xs) auto

text \<open>Joining with a separator, the inverse of splitting.\<close>

fun join :: "'a list \<Rightarrow> 'a list list \<Rightarrow> 'a list" where
  "join sep [] = []"
| "join sep [t] = t"
| "join sep (t # u # ts) = t @ sep @ join sep (u # ts)"

lemma join_Cons: "ts \<noteq> [] \<Longrightarrow> join sep (t # ts) = t @ sep @ join sep ts"
  by (cases ts) auto

lemma take_append_drop_mid: "i \<le> length xs \<Longrightarrow> take i xs @ drop i xs = xs"
  by simp

lemma takeWhile_dropWhile_replicate:
  "takeWhile (\<lambda>x. x = c) xs = replicate (length (takeWhile (\<lambda>x. x = c) xs)) c"
  by (induction xs) auto

lemma dropWhile_idem [simp]: "dropWhile p (dropWhile p xs) = dropWhile p xs"
  by (induction xs) auto

lemma dropWhile_Nil_iff: "dropWhile p xs = [] \<longleftrightarrow> (\<forall>x \<in> set xs. p x)"
  by (induction xs) auto

lemma hd_dropWhile_not: "dropWhile p xs \<noteq> [] \<Longrightarrow> \<not> p (hd (dropWhile p xs))"
  by (induction xs) auto

section \<open>Words\<close>

lemma bit_eqI_word [word_bits]:
  fixes a b :: "'a::len word"
  shows "(\<And>n. n < LENGTH('a) \<Longrightarrow> bit a n = bit b n) \<Longrightarrow> a = b"
  by (rule bit_word_eqI) simp

lemma unat_of_nat_small: "n < 2 ^ LENGTH('a) \<Longrightarrow> unat (of_nat n :: 'a::len word) = n"
  by (simp add: unat_of_nat take_bit_nat_eq_self)

lemma unat_ucast_wider:
  fixes w :: "'a::len word"
  assumes "LENGTH('a) \<le> LENGTH('b)"
  shows "unat (ucast w :: 'b::len word) = unat w"
proof -
  have "unat w < 2 ^ LENGTH('a)" by (rule unsigned_less)
  also have "\<dots> \<le> 2 ^ LENGTH('b)" using assms by simp
  finally show ?thesis by (simp add: unsigned_ucast_eq take_bit_nat_eq_self)
qed

end
