(* ===== verification/EventLoop.thy ===== *)
theory EventLoop
  imports HbmPrelude "HOL-Library.AList"
begin

text \<open>
  \<open>lib/sys/linux/eventloop.cpp\<close>: the event loop on top of epoll. The state holds the table
  \<open>m_eventInfos\<close> from file descriptors to the nodes with the handlers, the array \<open>m_events\<close> that
  \<open>epoll_wait\<close> fills, the number of valid entries and the world of the system calls. A node is
  known to epoll, and found in \<open>m_events\<close>, by its address. A handler is an abstract
  value \<open>'h\<close>; the parameter \<open>run\<close> executes it: it returns an \<open>int\<close> or throws, and may change the
  whole state, because handlers may call the operations of the loop themselves.
\<close>

section \<open>The data\<close>

type_synonym addr = nat

text \<open>The result of a handler.\<close>

datatype outcome = Ret int | Throw cxx_exception

record 'h EventsHandlers_t =
  inEvent :: "'h option"
  outEvent :: "'h option"

text \<open>\<open>struct epoll_event\<close> with the flags and \<open>data.ptr\<close> (\<open>None\<close> is the null pointer).\<close>

record epoll_event =
  ev_events :: "32 word"
  ev_ptr :: "addr option"

definition EPOLLIN :: "32 word" where "EPOLLIN = 1"

definition EPOLLOUT :: "32 word" where "EPOLLOUT = 4"

definition EPOLLET :: "32 word" where "EPOLLET = 0x80000000"

definition MAXEVENTS :: nat where "MAXEVENTS = 16"

datatype ctl_op = CTL_ADD | CTL_MOD | CTL_DEL

type_synonym 'h eventInfos_t = "(int \<times> addr \<times> 'h EventsHandlers_t) list"

record ('h, 'w) EventLoop =
  m_events :: "epoll_event list"
  m_eventCount :: int
  m_eventInfos :: "'h eventInfos_t"
  m_epollfd :: int
  m_stopFd :: int
  world :: 'w

text \<open>
  The system calls: \<open>os_alloc\<close> is the address of a new node, given the addresses in use;
  \<open>os_epoll_ctl\<close> and \<open>os_write\<close> return \<open>-1\<close> on failure; \<open>os_epoll_wait\<close> fails with an \<open>errno\<close>.
\<close>

record 'w epoll_os =
  os_alloc :: "addr list \<Rightarrow> addr"
  os_epoll_create :: "'w \<Rightarrow> (errno + int) \<times> 'w"
  os_eventfd :: "'w \<Rightarrow> int \<times> 'w"
  os_epoll_ctl :: "ctl_op \<Rightarrow> int \<Rightarrow> epoll_event option \<Rightarrow> 'w \<Rightarrow> int \<times> 'w"
  os_epoll_wait :: "'w \<Rightarrow> (errno + epoll_event list) \<times> 'w"
  os_write8 :: "int \<Rightarrow> 64 word \<Rightarrow> 'w \<Rightarrow> int \<times> 'w"
  os_close :: "int \<Rightarrow> 'w \<Rightarrow> int \<times> 'w"
  os_strerror :: "'w \<Rightarrow> string"

section \<open>Construction and stopping\<close>

definition notifyValue :: "64 word" where "notifyValue = 1"

definition EventLoop_ctor :: "'w epoll_os \<Rightarrow> 'w \<Rightarrow> (cxx_exception + ('h, 'w) EventLoop) \<times> 'w" where
  "EventLoop_ctor os w =
     (let (epollfd, w) = os_epoll_create os w;
          (stopFd, w) = os_eventfd os w in
      case epollfd of
        Inl _ \<Rightarrow> (Inl (HbmException (''epoll_create failed '' @ os_strerror os w)), w)
      | Inr epollfd \<Rightarrow>
          (let ev = \<lparr>ev_events = EPOLLIN OR EPOLLET, ev_ptr = None\<rparr>;
               (rc, w) = os_epoll_ctl os CTL_ADD stopFd (Some ev) w in
           if rc = - 1
           then (Inl (HbmException (''add stop notifier to eventloop failed '' @ os_strerror os w)), w)
           else (Inr \<lparr>m_events = replicate MAXEVENTS \<lparr>ev_events = 0, ev_ptr = None\<rparr>,
                   m_eventCount = 0, m_eventInfos = [], m_epollfd = epollfd, m_stopFd = stopFd,
                   world = w\<rparr>, w)))"

definition stop :: "'w epoll_os \<Rightarrow> ('h, 'w) EventLoop \<Rightarrow> ('h, 'w) EventLoop" where
  "stop os s = s\<lparr>world := snd (os_write8 os (m_stopFd s) notifyValue (world s))\<rparr>"

definition EventLoop_dtor :: "'w epoll_os \<Rightarrow> ('h, 'w) EventLoop \<Rightarrow> 'w" where
  "EventLoop_dtor os s =
     (let w = world (stop os s);
          w = snd (os_close os (m_epollfd s) w);
          w = snd (os_close os (m_stopFd s) w) in w)"

section \<open>Registration\<close>

text \<open>The part of \<open>addEvent\<close> under the lock, and the loop that drains the new handler after it.\<close>

definition addEvent_locked ::
  "'w epoll_os \<Rightarrow> int \<Rightarrow> 'h \<Rightarrow> ('h, 'w) EventLoop \<Rightarrow> int \<times> ('h, 'w) EventLoop" where
  "addEvent_locked os fd eventHandler s =
     (let (mode, events, p, eventHandlers) =
        (case map_of (m_eventInfos s) fd of
           None \<Rightarrow> (CTL_ADD, EPOLLIN OR EPOLLET, os_alloc os (map (fst \<circ> snd) (m_eventInfos s)),
                     \<lparr>inEvent = Some eventHandler, outEvent = None\<rparr>)
         | Some (p, eventHandlers) \<Rightarrow>
             (CTL_MOD,
              if outEvent eventHandlers \<noteq> None then EPOLLIN OR EPOLLET OR EPOLLOUT else EPOLLIN OR EPOLLET,
              p, eventHandlers\<lparr>inEvent := Some eventHandler\<rparr>));
        (rc, w) = os_epoll_ctl os mode fd (Some \<lparr>ev_events = events, ev_ptr = Some p\<rparr>) (world s);
        s = s\<lparr>m_eventInfos := AList.update fd (p, eventHandlers) (m_eventInfos s), world := w\<rparr>
      in if rc = - 1 then (- 1, s) else (0, s))"

definition addOutEvent_locked ::
  "'w epoll_os \<Rightarrow> int \<Rightarrow> 'h \<Rightarrow> ('h, 'w) EventLoop \<Rightarrow> int \<times> ('h, 'w) EventLoop" where
  "addOutEvent_locked os fd eventHandler s =
     (let (mode, events, p, eventHandlers) =
        (case map_of (m_eventInfos s) fd of
           None \<Rightarrow> (CTL_ADD, EPOLLOUT OR EPOLLET, os_alloc os (map (fst \<circ> snd) (m_eventInfos s)),
                     \<lparr>inEvent = None, outEvent = Some eventHandler\<rparr>)
         | Some (p, eventHandlers) \<Rightarrow>
             (CTL_MOD,
              if inEvent eventHandlers \<noteq> None then EPOLLOUT OR EPOLLET OR EPOLLIN else EPOLLOUT OR EPOLLET,
              p, eventHandlers\<lparr>outEvent := Some eventHandler\<rparr>));
        (rc, w) = os_epoll_ctl os mode fd (Some \<lparr>ev_events = events, ev_ptr = Some p\<rparr>) (world s);
        s = s\<lparr>m_eventInfos := AList.update fd (p, eventHandlers) (m_eventInfos s), world := w\<rparr>
      in if rc = - 1 then (- 1, s) else (0, s))"

type_synonym ('h, 's) runner = "'h \<Rightarrow> 's \<Rightarrow> outcome \<times> 's"

partial_function (option) drain :: "('h, 's) runner \<Rightarrow> 'h \<Rightarrow> 's \<Rightarrow> (outcome \<times> 's) option" where
  "drain run eventHandler s =
     (case run eventHandler s of
        (Throw ex, s) \<Rightarrow> Some (Throw ex, s)
      | (Ret result, s) \<Rightarrow> if 0 < result then drain run eventHandler s else Some (Ret 0, s))"

definition addEvent :: "'w epoll_os \<Rightarrow> ('h, ('h, 'w) EventLoop) runner \<Rightarrow> int \<Rightarrow> 'h option \<Rightarrow>
    ('h, 'w) EventLoop \<Rightarrow> (outcome \<times> ('h, 'w) EventLoop) option" where
  "addEvent os run fd eventHandler s =
     (case eventHandler of
        None \<Rightarrow> Some (Ret (- 1), s)
      | Some h \<Rightarrow>
          if fd = - 1 then Some (Ret (- 1), s)
          else (case addEvent_locked os fd h s of
                  (rc, s) \<Rightarrow> if rc = - 1 then Some (Ret (- 1), s) else drain run h s))"

definition addOutEvent :: "'w epoll_os \<Rightarrow> ('h, ('h, 'w) EventLoop) runner \<Rightarrow> int \<Rightarrow> 'h option \<Rightarrow>
    ('h, 'w) EventLoop \<Rightarrow> (outcome \<times> ('h, 'w) EventLoop) option" where
  "addOutEvent os run fd eventHandler s =
     (case eventHandler of
        None \<Rightarrow> Some (Ret (- 1), s)
      | Some h \<Rightarrow>
          if fd = - 1 then Some (Ret (- 1), s)
          else (case addOutEvent_locked os fd h s of
                  (rc, s) \<Rightarrow> if rc = - 1 then Some (Ret (- 1), s) else drain run h s))"

text \<open>
  The loop over the pending events: the flags of the first entry with the address of the node are
  cleared. The code computes the address from the iterator after \<open>erase\<close>, which C++ leaves undefined; with the usual
  implementation it is the address the node had, and the model uses that.
\<close>

fun mask_pending :: "nat \<Rightarrow> addr \<Rightarrow> 32 word \<Rightarrow> epoll_event list \<Rightarrow> epoll_event list" where
  "mask_pending 0 p removedEvents evs = evs"
| "mask_pending (Suc n) p removedEvents [] = []"
| "mask_pending (Suc n) p removedEvents (e # evs) =
     (if ev_ptr e = Some p then e\<lparr>ev_events := ev_events e AND NOT removedEvents\<rparr> # evs
      else e # mask_pending n p removedEvents evs)"

definition eraseEvent :: "'w epoll_os \<Rightarrow> int \<Rightarrow> ('h, 'w) EventLoop \<Rightarrow> int \<times> ('h, 'w) EventLoop" where
  "eraseEvent os fd s =
     (case map_of (m_eventInfos s) fd of
        None \<Rightarrow> (- 1, s)
      | Some (p, eventHandlers) \<Rightarrow>
          if inEvent eventHandlers = None then (- 1, s)
          else let (removedEvents, (ret, w), infos) =
              (if outEvent eventHandlers \<noteq> None then
                 (EPOLLIN,
                  os_epoll_ctl os CTL_MOD fd (Some \<lparr>ev_events = EPOLLOUT OR EPOLLET, ev_ptr = Some p\<rparr>) (world s),
                  AList.update fd (p, eventHandlers\<lparr>inEvent := None\<rparr>) (m_eventInfos s))
               else
                 (EPOLLIN OR EPOLLOUT, os_epoll_ctl os CTL_DEL fd None (world s),
                  AList.delete fd (m_eventInfos s)))
            in (ret, s\<lparr>m_eventInfos := infos, world := w,
                       m_events := mask_pending (nat (m_eventCount s)) p removedEvents (m_events s)\<rparr>))"

definition eraseOutEvent :: "'w epoll_os \<Rightarrow> int \<Rightarrow> ('h, 'w) EventLoop \<Rightarrow> int \<times> ('h, 'w) EventLoop" where
  "eraseOutEvent os fd s =
     (case map_of (m_eventInfos s) fd of
        None \<Rightarrow> (- 1, s)
      | Some (p, eventHandlers) \<Rightarrow>
          if outEvent eventHandlers = None then (- 1, s)
          else let (removedEvents, (ret, w), infos) =
              (if inEvent eventHandlers \<noteq> None then
                 (EPOLLOUT,
                  os_epoll_ctl os CTL_MOD fd (Some \<lparr>ev_events = EPOLLIN OR EPOLLET, ev_ptr = Some p\<rparr>) (world s),
                  AList.update fd (p, eventHandlers\<lparr>outEvent := None\<rparr>) (m_eventInfos s))
               else
                 (EPOLLIN OR EPOLLOUT, os_epoll_ctl os CTL_DEL fd None (world s),
                  AList.delete fd (m_eventInfos s)))
            in (ret, s\<lparr>m_eventInfos := infos, world := w,
                       m_events := mask_pending (nat (m_eventCount s)) p removedEvents (m_events s)\<rparr>))"

section \<open>Dispatching\<close>

text \<open>The node at an address, when it is still in the table: \<open>None\<close> is a dangling pointer.\<close>

definition handlers_at :: "addr \<Rightarrow> 'h eventInfos_t \<Rightarrow> 'h EventsHandlers_t option" where
  "handlers_at p infos = map_option (snd \<circ> snd) (List.find (\<lambda>e. fst (snd e) = p) infos)"

definition clear_flag :: "nat \<Rightarrow> 32 word \<Rightarrow> ('h, 'w) EventLoop \<Rightarrow> ('h, 'w) EventLoop" where
  "clear_flag n fl s =
     s\<lparr>m_events := (m_events s)[n := (m_events s ! n)\<lparr>ev_events := ev_events (m_events s ! n) AND NOT fl\<rparr>]\<rparr>"

datatype 's pass = Done nat 's | Stopped 's | Undefined

text \<open>
  One \<open>if\<close> block of the loop over the events: \<open>sel\<close> selects the handler and \<open>fl\<close> its flag. Calling an
  empty \<open>std::function\<close> throws; an exception leaves the flag as it is and is not counted.
\<close>

definition call_handler :: "('h, ('h, 'w) EventLoop) runner \<Rightarrow> ('h EventsHandlers_t \<Rightarrow> 'h option) \<Rightarrow>
    32 word \<Rightarrow> nat \<Rightarrow> addr \<Rightarrow> nat \<Rightarrow> ('h, 'w) EventLoop \<Rightarrow> ('h, 'w) EventLoop pass" where
  "call_handler run sel fl n p eventsLeft s =
     (if ev_events (m_events s ! n) AND fl = 0 then Done eventsLeft s
      else case handlers_at p (m_eventInfos s) of
        None \<Rightarrow> Undefined
      | Some pEventHandlers \<Rightarrow>
          (case sel pEventHandlers of
             None \<Rightarrow> Done eventsLeft s
           | Some h \<Rightarrow>
               (case run h s of
                  (Throw ex, s) \<Rightarrow> Done eventsLeft s
                | (Ret result, s) \<Rightarrow>
                    if 0 < result then Done (eventsLeft + 1) s
                    else Done eventsLeft (clear_flag n fl s))))"

text \<open>The \<open>for\<close> loop over the events; an index behind the array is outside the object.\<close>

function event_pass :: "('h, ('h, 'w) EventLoop) runner \<Rightarrow> nat \<Rightarrow> nat \<Rightarrow> ('h, 'w) EventLoop \<Rightarrow>
    ('h, 'w) EventLoop pass" where
  "event_pass run n eventsLeft s =
     (if \<not> int n < m_eventCount s then Done eventsLeft s
      else if MAXEVENTS \<le> n then Undefined
      else case ev_ptr (m_events s ! n) of
        None \<Rightarrow> Stopped s
      | Some p \<Rightarrow>
          (case call_handler run inEvent EPOLLIN n p eventsLeft s of
             Done eventsLeft s \<Rightarrow>
               (case call_handler run outEvent EPOLLOUT n p eventsLeft s of
                  Done eventsLeft s \<Rightarrow> event_pass run (n + 1) eventsLeft s
                | Stopped s \<Rightarrow> Stopped s
                | Undefined \<Rightarrow> Undefined)
           | Stopped s \<Rightarrow> Stopped s
           | Undefined \<Rightarrow> Undefined))"
  by pat_completeness auto
termination
  by (relation "measure (\<lambda>(run, n, left, s). MAXEVENTS - n)") auto

declare event_pass.simps [simp del]

text \<open>The \<open>do\<close> loop: passes until no handler reports more to do.\<close>

partial_function (option) rounds ::
  "('h, ('h, 'w) EventLoop) runner \<Rightarrow> ('h, 'w) EventLoop \<Rightarrow> ('h, 'w) EventLoop pass option" where
  "rounds run s =
     (case event_pass run 0 0 s of
        Done eventsLeft s \<Rightarrow> if eventsLeft \<noteq> 0 then rounds run s else Some (Done 0 s)
      | Stopped s \<Rightarrow> Some (Stopped s)
      | Undefined \<Rightarrow> Some Undefined)"

text \<open>The result of \<open>epoll_wait\<close> in the members: the kernel writes the first entries of the array.\<close>

definition store_events :: "epoll_event list \<Rightarrow> 'w \<Rightarrow> ('h, 'w) EventLoop \<Rightarrow> ('h, 'w) EventLoop" where
  "store_events evs w s =
     s\<lparr>m_events := evs @ drop (length evs) (m_events s), m_eventCount := int (length evs), world := w\<rparr>"

partial_function (option) execute ::
  "'w epoll_os \<Rightarrow> ('h, ('h, 'w) EventLoop) runner \<Rightarrow> ('h, 'w) EventLoop \<Rightarrow>
     (int option \<times> ('h, 'w) EventLoop) option" where
  "execute os run s =
     (case os_epoll_wait os (world s) of
        (Inl errno, w) \<Rightarrow>
          (let s = s\<lparr>m_eventCount := - 1, world := w\<rparr> in
           if errno \<noteq> EINTR then Some (Some (- 1), s)
           else (case rounds run s of
                   None \<Rightarrow> None
                 | Some (Done _ s) \<Rightarrow> execute os run s
                 | Some (Stopped s) \<Rightarrow> Some (Some 0, s)
                 | Some Undefined \<Rightarrow> Some (None, s)))
      | (Inr evs, w) \<Rightarrow>
          (let s = store_events evs w s in
           case rounds run s of
             None \<Rightarrow> None
           | Some (Done _ s) \<Rightarrow> execute os run s
           | Some (Stopped s) \<Rightarrow> Some (Some 0, s)
           | Some Undefined \<Rightarrow> Some (None, s)))"

end
