(* ===== verification/EventLoopSafety.thy ===== *)
theory EventLoopSafety
  imports EventLoop
begin

text \<open>
  The invariant of the event loop and its preservation: the table of handlers is a map with distinct
  node addresses, no pending event with a set flag and no registration of the kernel refers to a node
  that is gone, and dispatching therefore never follows a dangling pointer. The kernel side of the
  interface is the parameter \<open>interest\<close>, the registrations of the epoll instance.
\<close>

section \<open>What epoll promises\<close>

text \<open>
  \<open>epoll_ctl\<close> enters, replaces or removes the registration of a descriptor and leaves all registrations
  alone when it fails; removing fails only when there is no registration. \<open>epoll_wait\<close> reports
  at most \<open>MAXEVENTS\<close> events, each for a different registered descriptor and with its data. A new
  node gets an address that no live node has.
\<close>

definition epoll_laws :: "'w epoll_os \<Rightarrow> ('w \<Rightarrow> int \<Rightarrow> epoll_event option) \<Rightarrow> bool" where
  "epoll_laws os interest \<longleftrightarrow>
     (\<forall>as. os_alloc os as \<notin> set as) \<and>
     (\<forall>op fd ev w rc w'. op \<noteq> CTL_DEL \<longrightarrow> os_epoll_ctl os op fd (Some ev) w = (rc, w') \<longrightarrow>
        interest w' = (if rc = - 1 then interest w else (interest w)(fd := Some ev))) \<and>
     (\<forall>fd w rc w'. os_epoll_ctl os CTL_DEL fd None w = (rc, w') \<longrightarrow>
        interest w' = (interest w)(fd := None)) \<and>
     (\<forall>w e w'. os_epoll_wait os w = (Inl e, w') \<longrightarrow> interest w' = interest w) \<and>
     (\<forall>w evs w'. os_epoll_wait os w = (Inr evs, w') \<longrightarrow>
        interest w' = interest w \<and> length evs \<le> MAXEVENTS \<and>
        (\<exists>fds. distinct fds \<and>
           list_all2 (\<lambda>fd e. \<exists>r. interest w fd = Some r \<and> ev_ptr e = ev_ptr r) fds evs))"

section \<open>The invariant\<close>

definition node_addrs :: "'h eventInfos_t \<Rightarrow> addr set" where
  "node_addrs infos = fst ` snd ` set infos"

definition table_ok :: "'h eventInfos_t \<Rightarrow> bool" where
  "table_ok infos \<longleftrightarrow> distinct (map fst infos) \<and> distinct (map (fst \<circ> snd) infos) \<and>
     (\<forall>(fd, p, hs) \<in> set infos. inEvent hs \<noteq> None \<or> outEvent hs \<noteq> None)"

definition flagged :: "epoll_event \<Rightarrow> bool" where
  "flagged e \<longleftrightarrow> ev_events e AND (EPOLLIN OR EPOLLOUT) \<noteq> 0"

definition pending_ok :: "epoll_event list \<Rightarrow> int \<Rightarrow> addr set \<Rightarrow> bool" where
  "pending_ok evs count addrs \<longleftrightarrow> length evs = MAXEVENTS \<and> count \<le> int MAXEVENTS \<and>
     (\<forall>i j. int i < count \<longrightarrow> int j < count \<longrightarrow> i \<noteq> j \<longrightarrow> ev_ptr (evs ! i) = ev_ptr (evs ! j) \<longrightarrow>
        ev_ptr (evs ! i) = None) \<and>
     (\<forall>i p. int i < count \<longrightarrow> flagged (evs ! i) \<longrightarrow> ev_ptr (evs ! i) = Some p \<longrightarrow> p \<in> addrs)"

definition kernel_ok :: "(int \<Rightarrow> epoll_event option) \<Rightarrow> 'h eventInfos_t \<Rightarrow> bool" where
  "kernel_ok reg infos \<longleftrightarrow>
     (\<forall>fd r p. reg fd = Some r \<longrightarrow> ev_ptr r = Some p \<longrightarrow> (\<exists>hs. map_of infos fd = Some (p, hs)))"

definition loop_ok :: "('w \<Rightarrow> int \<Rightarrow> epoll_event option) \<Rightarrow> ('h, 'w) EventLoop \<Rightarrow> bool" where
  "loop_ok interest s \<longleftrightarrow> table_ok (m_eventInfos s) \<and>
     pending_ok (m_events s) (m_eventCount s) (node_addrs (m_eventInfos s)) \<and>
     kernel_ok (interest (world s)) (m_eventInfos s)"

text \<open>The operations of the loop leave the pointers and the number of the pending events alone.\<close>

definition same_pending :: "('h, 'w) EventLoop \<Rightarrow> ('h, 'w) EventLoop \<Rightarrow> bool" where
  "same_pending s s' \<longleftrightarrow> m_eventCount s' = m_eventCount s \<and>
     map ev_ptr (m_events s') = map ev_ptr (m_events s)"

lemma same_pending_refl [simp, intro]: "same_pending s s"
  by (simp add: same_pending_def)

lemma same_pending_trans [trans]: "same_pending s t \<Longrightarrow> same_pending t u \<Longrightarrow> same_pending s u"
  by (simp add: same_pending_def)

section \<open>The table\<close>

lemma handlers_at_iff: "handlers_at p infos \<noteq> None \<longleftrightarrow> p \<in> node_addrs infos"
  by (induction infos) (auto simp: handlers_at_def node_addrs_def)

lemma map_of_node_addrs: "map_of infos fd = Some (p, hs) \<Longrightarrow> p \<in> node_addrs infos"
  by (force simp: node_addrs_def dest: map_of_SomeD)

lemma node_addrs_update:
  "map_of infos fd = Some (p, hs) \<Longrightarrow> node_addrs (AList.update fd (p, hs') infos) = node_addrs infos"
  "map_of infos fd = None \<Longrightarrow> node_addrs (AList.update fd (p, hs') infos) = insert p (node_addrs infos)"
  by (induction infos) (auto simp: node_addrs_def split: if_splits)

lemma addrs_update:
  "map_of infos fd = Some (p, hs) \<Longrightarrow>
     map (fst \<circ> snd) (AList.update fd (p, hs') infos) = map (fst \<circ> snd) infos"
  "map_of infos fd = None \<Longrightarrow>
     map (fst \<circ> snd) (AList.update fd (p, hs') infos) = map (fst \<circ> snd) infos @ [p]"
  by (induction infos) (auto split: if_splits)

lemma set_update_sub: "set (AList.update fd v infos) \<subseteq> insert (fd, v) (set infos)"
  by (induction infos) auto

lemma table_ok_update:
  assumes "table_ok infos" and "inEvent hs' \<noteq> None \<or> outEvent hs' \<noteq> None"
    and "map_of infos fd = Some (p, hs) \<or> map_of infos fd = None \<and> p \<notin> node_addrs infos"
  shows "table_ok (AList.update fd (p, hs') infos)"
proof -
  have "distinct (map (fst \<circ> snd) (AList.update fd (p, hs') infos))"
    using assms by (auto simp: table_ok_def addrs_update node_addrs_def image_image)
  moreover have "distinct (map fst (AList.update fd (p, hs') infos))"
    using assms(1) by (simp add: table_ok_def distinct_update)
  ultimately show ?thesis
    using assms(1,2) set_update_sub [of fd "(p, hs')" infos] by (auto simp: table_ok_def)
qed

lemma set_delete: "set (AList.delete fd infos) = {e \<in> set infos. fst e \<noteq> fd}"
  by (auto simp: AList.delete_eq)

lemma table_ok_delete: "table_ok infos \<Longrightarrow> table_ok (AList.delete fd infos)"
  by (auto simp: table_ok_def AList.delete_eq distinct_map_filter)

lemma node_addrs_delete:
  assumes "table_ok infos" and "map_of infos fd = Some (p, hs)"
  shows "node_addrs (AList.delete fd infos) = node_addrs infos - {p}"
proof -
  have "distinct (map fst infos)" and "distinct (map (fst \<circ> snd) infos)"
    using assms(1) by (simp_all add: table_ok_def)
  then show ?thesis
    using assms(2)
  proof (induction infos)
    case (Cons e infos)
    obtain fd' p' hs' where e: "e = (fd', p', hs')" by (cases e)
    show ?case
    proof (cases "fd' = fd")
      case True
      then have "AList.delete fd infos = infos" using Cons.prems by (simp add: e)
      moreover have "p \<notin> node_addrs infos"
        using Cons.prems True by (simp add: e node_addrs_def image_comp)
      ultimately show ?thesis using Cons.prems True by (simp add: e node_addrs_def)
    next
      case False
      then have "p \<in> node_addrs infos" using Cons.prems(3) by (simp add: e map_of_node_addrs)
      then have "p' \<noteq> p" using Cons.prems(2) by (auto simp: e node_addrs_def image_comp)
      moreover have "node_addrs (AList.delete fd infos) = node_addrs infos - {p}"
        using Cons False by (simp add: e)
      ultimately show ?thesis using False by (simp add: e node_addrs_def insert_Diff_if)
    qed
  qed simp
qed

section \<open>Masking pending events\<close>

lemma ev_ptr_mask: "map ev_ptr (mask_pending n p r evs) = map ev_ptr evs"
  by (induction n p r evs rule: mask_pending.induct) auto

lemma length_mask [simp]: "length (mask_pending n p r evs) = length evs"
  using arg_cong [OF ev_ptr_mask, of length] by simp

lemma nth_mask:
  "i < length evs \<Longrightarrow> mask_pending n p r evs ! i =
     (if i < n \<and> ev_ptr (evs ! i) = Some p \<and> (\<forall>j < i. ev_ptr (evs ! j) \<noteq> Some p)
      then (evs ! i)\<lparr>ev_events := ev_events (evs ! i) AND NOT r\<rparr> else evs ! i)"
proof (induction n p r evs arbitrary: i rule: mask_pending.induct)
  case (3 n p r e evs)
  show ?case
  proof (cases i)
    case (Suc k)
    then show ?thesis
      using 3 by (auto simp: less_Suc_eq_0_disj)
  qed simp
qed simp_all

lemma flagged_mask: "flagged (e\<lparr>ev_events := ev_events e AND NOT r\<rparr>) \<Longrightarrow> flagged e"
  by (auto simp: flagged_def bit_eq_iff bit_simps)

lemma not_flagged_mask: "\<not> flagged (e\<lparr>ev_events := ev_events e AND NOT (EPOLLIN OR EPOLLOUT)\<rparr>)"
  by (auto simp: flagged_def bit_eq_iff bit_simps)

lemma pending_ok_mask:
  assumes "pending_ok evs count addrs"
  shows "pending_ok (mask_pending (nat count) p r evs) count addrs"
    and "r = EPOLLIN OR EPOLLOUT \<Longrightarrow>
      pending_ok (mask_pending (nat count) p r evs) count (addrs - {p})"
proof -
  let ?evs = "mask_pending (nat count) p r evs"
  have ptr: "ev_ptr (?evs ! i) = ev_ptr (evs ! i)" if "int i < count" for i
    using that assms ev_ptr_mask [of "nat count" p r evs]
    by (metis pending_ok_def length_mask nth_map of_nat_less_iff order_less_le_trans)
  have len: "int i < count \<Longrightarrow> i < length evs" for i
    using assms by (simp add: pending_ok_def)
  have fl: "flagged (?evs ! i) \<Longrightarrow> flagged (evs ! i)" if "int i < count" for i
    using nth_mask [OF len [OF that], of "nat count" p r] flagged_mask by (auto split: if_splits)
  show "pending_ok ?evs count addrs"
    using assms ptr fl by (simp add: pending_ok_def)
  moreover have "ev_ptr (?evs ! i) \<noteq> Some p"
    if "r = EPOLLIN OR EPOLLOUT" "int i < count" "flagged (?evs ! i)" for i
  proof
    assume "ev_ptr (?evs ! i) = Some p"
    then have p: "ev_ptr (evs ! i) = Some p" using ptr that by simp
    then have "\<forall>j < i. ev_ptr (evs ! j) \<noteq> Some p"
      using assms that(2) unfolding pending_ok_def
      by (metis less_irrefl less_trans of_nat_less_iff option.distinct(1))
    then have "?evs ! i = (evs ! i)\<lparr>ev_events := ev_events (evs ! i) AND NOT r\<rparr>"
      using nth_mask [OF len [OF that(2)], of "nat count" p r] p that(2) by simp
    with that(1,3) show False using not_flagged_mask by metis
  qed
  ultimately show "r = EPOLLIN OR EPOLLOUT \<Longrightarrow> pending_ok ?evs count (addrs - {p})"
    unfolding pending_ok_def by (metis Diff_iff singletonD)
qed

section \<open>The operations keep the invariant\<close>

lemma loop_ok_update:
  assumes "loop_ok interest s" and "inEvent hs' \<noteq> None \<or> outEvent hs' \<noteq> None"
    and "map_of (m_eventInfos s) fd = Some (p, hs) \<or>
         map_of (m_eventInfos s) fd = None \<and> p \<notin> node_addrs (m_eventInfos s)"
    and "interest w = interest (world s) \<or>
         interest w = (interest (world s))(fd := Some ev) \<and> ev_ptr ev = Some p"
    and "evs = m_events s \<or> evs = mask_pending (nat (m_eventCount s)) p r (m_events s)"
  shows "loop_ok interest (s\<lparr>m_eventInfos := AList.update fd (p, hs') (m_eventInfos s), world := w,
           m_events := evs\<rparr>)"
proof -
  have "pending_ok evs (m_eventCount s) (node_addrs (m_eventInfos s))"
    using assms(1,5) by (auto simp: loop_ok_def intro: pending_ok_mask)
  moreover have "node_addrs (m_eventInfos s) \<subseteq> node_addrs (AList.update fd (p, hs') (m_eventInfos s))"
    using assms(3) by (auto simp: node_addrs_update)
  ultimately have "pending_ok evs (m_eventCount s) (node_addrs (AList.update fd (p, hs') (m_eventInfos s)))"
    by (auto simp: pending_ok_def)
  moreover have "kernel_ok (interest w) (AList.update fd (p, hs') (m_eventInfos s))"
    using assms(1,3,4) by (fastforce simp: kernel_ok_def loop_ok_def update_conv' split: if_splits)
  moreover have "table_ok (AList.update fd (p, hs') (m_eventInfos s))"
    using table_ok_update [OF _ assms(2,3)] assms(1) by (simp add: loop_ok_def)
  ultimately show ?thesis by (simp add: loop_ok_def)
qed

lemma loop_ok_delete:
  assumes "loop_ok interest s" and "map_of (m_eventInfos s) fd = Some (p, hs)"
    and "interest w = (interest (world s))(fd := None)"
  shows "loop_ok interest (s\<lparr>m_eventInfos := AList.delete fd (m_eventInfos s), world := w,
     m_events := mask_pending (nat (m_eventCount s)) p (EPOLLIN OR EPOLLOUT) (m_events s)\<rparr>)"
proof -
  have "kernel_ok (interest w) (AList.delete fd (m_eventInfos s))"
    using assms(1,3) by (auto simp: loop_ok_def kernel_ok_def delete_conv')
  then show ?thesis
    using assms(1,2) node_addrs_delete [OF _ assms(2)]
    by (simp add: loop_ok_def table_ok_delete pending_ok_mask)
qed

lemma epoll_lawsD:
  assumes "epoll_laws os interest"
  shows "os_alloc os as \<notin> set as"
    and "op \<noteq> CTL_DEL \<Longrightarrow> os_epoll_ctl os op fd (Some ev) w = (rc, w') \<Longrightarrow>
      interest w' = interest w \<or> interest w' = (interest w)(fd := Some ev)"
    and "os_epoll_ctl os CTL_DEL fd None w = (rc, w') \<Longrightarrow> interest w' = (interest w)(fd := None)"
    and "os_epoll_wait os w = (Inl e, w') \<Longrightarrow> interest w' = interest w"
    and "os_epoll_wait os w = (Inr evs, w') \<Longrightarrow> interest w' = interest w \<and> length evs \<le> MAXEVENTS \<and>
        (\<exists>fds. distinct fds \<and>
           list_all2 (\<lambda>fd e. \<exists>r. interest w fd = Some r \<and> ev_ptr e = ev_ptr r) fds evs)"
  using assms unfolding epoll_laws_def by (blast, metis, blast, blast, blast)

lemma alloc_fresh: "epoll_laws os interest \<Longrightarrow> os_alloc os (map (fst \<circ> snd) infos) \<notin> node_addrs infos"
  using epoll_lawsD(1) [of os interest "map (fst \<circ> snd) infos"] by (simp add: node_addrs_def image_comp)

lemma addEvent_locked_ok:
  assumes "epoll_laws os interest" and "loop_ok interest s"
  shows "loop_ok interest (snd (addEvent_locked os fd h s))"
proof (cases "map_of (m_eventInfos s) fd")
  case None
  let ?p = "os_alloc os (map (fst \<circ> snd) (m_eventInfos s))"
  let ?ev = "\<lparr>ev_events = EPOLLIN OR EPOLLET, ev_ptr = Some ?p\<rparr>"
  obtain rc w where ctl: "os_epoll_ctl os CTL_ADD fd (Some ?ev) (world s) = (rc, w)" by fastforce
  then show ?thesis
    using loop_ok_update [OF assms(2), of "\<lparr>inEvent = Some h, outEvent = None\<rparr>" fd ?p _ w ?ev "m_events s"]
      alloc_fresh [OF assms(1), of "m_eventInfos s"] epoll_lawsD(2) [OF assms(1) _ ctl] None
    by (simp add: addEvent_locked_def Let_def)
next
  case (Some v)
  obtain p hs where v: "v = (p, hs)" by (cases v)
  let ?ev = "\<lparr>ev_events = if outEvent hs \<noteq> None then EPOLLIN OR EPOLLET OR EPOLLOUT else EPOLLIN OR EPOLLET,
    ev_ptr = Some p\<rparr>"
  obtain rc w where ctl: "os_epoll_ctl os CTL_MOD fd (Some ?ev) (world s) = (rc, w)" by fastforce
  then show ?thesis
    using loop_ok_update [OF assms(2), of "hs\<lparr>inEvent := Some h\<rparr>" fd p hs w ?ev "m_events s"]
      epoll_lawsD(2) [OF assms(1) _ ctl] Some v
    by (simp add: addEvent_locked_def Let_def)
qed

lemma addOutEvent_locked_ok:
  assumes "epoll_laws os interest" and "loop_ok interest s"
  shows "loop_ok interest (snd (addOutEvent_locked os fd h s))"
proof (cases "map_of (m_eventInfos s) fd")
  case None
  let ?p = "os_alloc os (map (fst \<circ> snd) (m_eventInfos s))"
  let ?ev = "\<lparr>ev_events = EPOLLOUT OR EPOLLET, ev_ptr = Some ?p\<rparr>"
  obtain rc w where ctl: "os_epoll_ctl os CTL_ADD fd (Some ?ev) (world s) = (rc, w)" by fastforce
  then show ?thesis
    using loop_ok_update [OF assms(2), of "\<lparr>inEvent = None, outEvent = Some h\<rparr>" fd ?p _ w ?ev "m_events s"]
      alloc_fresh [OF assms(1), of "m_eventInfos s"] epoll_lawsD(2) [OF assms(1) _ ctl] None
    by (simp add: addOutEvent_locked_def Let_def)
next
  case (Some v)
  obtain p hs where v: "v = (p, hs)" by (cases v)
  let ?ev = "\<lparr>ev_events = if inEvent hs \<noteq> None then EPOLLOUT OR EPOLLET OR EPOLLIN else EPOLLOUT OR EPOLLET,
    ev_ptr = Some p\<rparr>"
  obtain rc w where ctl: "os_epoll_ctl os CTL_MOD fd (Some ?ev) (world s) = (rc, w)" by fastforce
  then show ?thesis
    using loop_ok_update [OF assms(2), of "hs\<lparr>outEvent := Some h\<rparr>" fd p hs w ?ev "m_events s"]
      epoll_lawsD(2) [OF assms(1) _ ctl] Some v
    by (simp add: addOutEvent_locked_def Let_def)
qed

lemma eraseEvent_ok:
  assumes "epoll_laws os interest" and "loop_ok interest s"
  shows "loop_ok interest (snd (eraseEvent os fd s))"
proof (cases "map_of (m_eventInfos s) fd")
  case (Some v)
  obtain p hs where v: "v = (p, hs)" by (cases v)
  let ?ev = "\<lparr>ev_events = EPOLLOUT OR EPOLLET, ev_ptr = Some p\<rparr>"
  obtain rc w rc' w' where ctl: "os_epoll_ctl os CTL_MOD fd (Some ?ev) (world s) = (rc, w)"
      "os_epoll_ctl os CTL_DEL fd None (world s) = (rc', w')" by fastforce
  then show ?thesis
    using loop_ok_update [OF assms(2), of "hs\<lparr>inEvent := None\<rparr>" fd p hs w ?ev
        "mask_pending (nat (m_eventCount s)) p EPOLLIN (m_events s)"]
      loop_ok_delete [OF assms(2), of fd p hs w'] epoll_lawsD(2) [OF assms(1) _ ctl(1)]
      epoll_lawsD(3) [OF assms(1) ctl(2)] Some v assms(2)
    by (auto simp add: eraseEvent_def Let_def)
qed (simp add: eraseEvent_def assms(2))

lemma eraseOutEvent_ok:
  assumes "epoll_laws os interest" and "loop_ok interest s"
  shows "loop_ok interest (snd (eraseOutEvent os fd s))"
proof (cases "map_of (m_eventInfos s) fd")
  case (Some v)
  obtain p hs where v: "v = (p, hs)" by (cases v)
  let ?ev = "\<lparr>ev_events = EPOLLIN OR EPOLLET, ev_ptr = Some p\<rparr>"
  obtain rc w rc' w' where ctl: "os_epoll_ctl os CTL_MOD fd (Some ?ev) (world s) = (rc, w)"
      "os_epoll_ctl os CTL_DEL fd None (world s) = (rc', w')" by fastforce
  then show ?thesis
    using loop_ok_update [OF assms(2), of "hs\<lparr>outEvent := None\<rparr>" fd p hs w ?ev
        "mask_pending (nat (m_eventCount s)) p EPOLLOUT (m_events s)"]
      loop_ok_delete [OF assms(2), of fd p hs w'] epoll_lawsD(2) [OF assms(1) _ ctl(1)]
      epoll_lawsD(3) [OF assms(1) ctl(2)] Some v assms(2)
    by (auto simp add: eraseOutEvent_def Let_def)
qed (simp add: eraseOutEvent_def assms(2))

lemma same_pending_ops:
  "same_pending s (snd (addEvent_locked os fd h s))"
  "same_pending s (snd (addOutEvent_locked os fd h s))"
  "same_pending s (snd (eraseEvent os fd s))"
  "same_pending s (snd (eraseOutEvent os fd s))"
  by (auto simp: same_pending_def addEvent_locked_def addOutEvent_locked_def eraseEvent_def
      eraseOutEvent_def ev_ptr_mask Let_def split: option.splits prod.splits)

text \<open>What \<open>epoll_wait\<close> delivers satisfies the invariant.\<close>

lemma store_events_ok:
  assumes "epoll_laws os interest" and "loop_ok interest s"
    and "os_epoll_wait os (world s) = (Inr evs, w)"
  shows "loop_ok interest (store_events evs w s)"
proof -
  note law = epoll_lawsD(5) [OF assms(1,3)]
  then obtain fds where fds: "distinct fds"
      "list_all2 (\<lambda>fd e. \<exists>r. interest (world s) fd = Some r \<and> ev_ptr e = ev_ptr r) fds evs" by blast
  let ?infos = "m_eventInfos s" and ?evs = "evs @ drop (length evs) (m_events s)"
  have entry: "\<exists>hs. map_of ?infos (fds ! i) = Some (p, hs)"
    if "i < length evs" "ev_ptr (evs ! i) = Some p" for i p
    using that fds(2) assms(2) by (fastforce simp: loop_ok_def kernel_ok_def list_all2_conv_all_nth)
  have addr_inj: "fd = fd'" if "map_of ?infos fd = Some (p, hs)" "map_of ?infos fd' = Some (p, hs')"
    for fd fd' p hs hs'
    using that assms(2) by (auto simp: loop_ok_def table_ok_def distinct_map inj_on_def
        dest!: map_of_SomeD) (metis fst_conv snd_conv)
  have "pending_ok ?evs (int (length evs)) (node_addrs ?infos)"
    unfolding pending_ok_def
  proof (intro conjI allI impI)
    show "length ?evs = MAXEVENTS" using law assms(2) by (simp add: loop_ok_def pending_ok_def)
    show "int (length evs) \<le> int MAXEVENTS" using law by simp
  next
    fix i j
    assume ij: "int i < int (length evs)" "int j < int (length evs)" "i \<noteq> j"
      "ev_ptr (?evs ! i) = ev_ptr (?evs ! j)"
    have len: "length fds = length evs" using fds(2) by (rule list_all2_lengthD)
    show "ev_ptr (?evs ! i) = None"
    proof (rule ccontr)
      assume "ev_ptr (?evs ! i) \<noteq> None"
      then obtain p where "ev_ptr (evs ! i) = Some p" "ev_ptr (evs ! j) = Some p"
        using ij by (auto simp: nth_append)
      then have "fds ! i = fds ! j" using entry ij addr_inj by (metis of_nat_less_iff)
      then show False using ij len fds(1) by (simp add: nth_eq_iff_index_eq)
    qed
  next
    fix i p assume "int i < int (length evs)" "ev_ptr (?evs ! i) = Some p"
    then show "p \<in> node_addrs ?infos"
      using entry [of i p] by (auto simp: nth_append intro: map_of_node_addrs)
  qed
  then show ?thesis
    using assms(2) law by (simp add: loop_ok_def store_events_def)
qed

lemma pending_ok_le:
  assumes "pending_ok evs count addrs" and "map ev_ptr evs' = map ev_ptr evs"
    and "\<And>i. i < length evs \<Longrightarrow> flagged (evs' ! i) \<Longrightarrow> flagged (evs ! i)"
  shows "pending_ok evs' count addrs"
proof -
  have len: "length evs' = length evs" using arg_cong [OF assms(2), of length] by simp
  have lt: "i < length evs" if "int i < count" for i
    using that assms(1) by (simp add: pending_ok_def)
  have ptr: "ev_ptr (evs' ! i) = ev_ptr (evs ! i)" if "int i < count" for i
    using lt [OF that] assms(2) len by (metis nth_map)
  show ?thesis
    using assms(1,3) len lt ptr by (simp add: pending_ok_def)
qed

lemma ev_ptr_clear_flag: "map ev_ptr (m_events (clear_flag n fl s)) = map ev_ptr (m_events s)"
proof (cases "n < length (m_events s)")
  case True
  then show ?thesis
    by (simp add: clear_flag_def map_update list_update_same_conv)
qed (simp add: clear_flag_def list_update_beyond)

lemma clear_flag_ok: "loop_ok interest s \<Longrightarrow> loop_ok interest (clear_flag n fl s)"
proof -
  assume ok: "loop_ok interest s"
  have "flagged (m_events (clear_flag n fl s) ! i) \<Longrightarrow> flagged (m_events s ! i)"
    if "i < length (m_events s)" for i
    using that flagged_mask by (cases "n = i") (auto simp: clear_flag_def)
  with ok have "pending_ok (m_events (clear_flag n fl s)) (m_eventCount s) (node_addrs (m_eventInfos s))"
    by (intro pending_ok_le [OF _ ev_ptr_clear_flag]) (auto simp: loop_ok_def)
  with ok show ?thesis by (simp add: loop_ok_def) (simp add: clear_flag_def)
qed

lemma same_pending_clear_flag [simp]: "same_pending s (clear_flag n fl s)"
  using ev_ptr_clear_flag [of n fl s] by (simp add: same_pending_def) (simp add: clear_flag_def)

section \<open>Dispatching under an invariant\<close>

text \<open>
  The interface between dispatching and whatever invariant the handlers keep: \<open>ok\<close> survives every handler
  and the clearing of a flag, and makes every flagged pending event point to a live node.
\<close>

locale dispatcher =
  fixes run :: "'h \<Rightarrow> ('h, 'w) EventLoop \<Rightarrow> outcome \<times> ('h, 'w) EventLoop"
    and ok :: "('h, 'w) EventLoop \<Rightarrow> bool"
  assumes run_ok: "ok s \<Longrightarrow> ok (snd (run h s))"
    and run_pending: "ok s \<Longrightarrow> same_pending s (snd (run h s))"
    and clear_ok: "ok s \<Longrightarrow> ok (clear_flag n fl s)"
    and ok_size: "ok s \<Longrightarrow> length (m_events s) = MAXEVENTS \<and> m_eventCount s \<le> int MAXEVENTS"
    and ok_node: "ok s \<Longrightarrow> int i < m_eventCount s \<Longrightarrow> flagged (m_events s ! i) \<Longrightarrow>
      ev_ptr (m_events s ! i) = Some p \<Longrightarrow> handlers_at p (m_eventInfos s) \<noteq> None"
begin

lemma pending_ptr:
  assumes "ok s" and "ok s'" and "same_pending s s'" and "int n < m_eventCount s"
  shows "int n < m_eventCount s'" and "ev_ptr (m_events s' ! n) = ev_ptr (m_events s ! n)"
proof -
  have "n < length (m_events s)" "n < length (m_events s')"
    using ok_size [OF assms(1)] ok_size [OF assms(2)] assms(3,4) by (auto simp: same_pending_def)
  moreover have "map ev_ptr (m_events s') ! n = map ev_ptr (m_events s) ! n"
    using assms(3) by (simp only: same_pending_def)
  ultimately show "ev_ptr (m_events s' ! n) = ev_ptr (m_events s ! n)" by simp
  show "int n < m_eventCount s'" using assms(3,4) by (simp add: same_pending_def)
qed

lemma call_handler_ok:
  assumes "ok s" and "int n < m_eventCount s" and "ev_ptr (m_events s ! n) = Some p"
    and "fl = EPOLLIN \<or> fl = EPOLLOUT"
  shows "\<exists>left' s'. call_handler run sel fl n p left s = Done left' s' \<and> ok s' \<and> same_pending s s'"
proof (cases "ev_events (m_events s ! n) AND fl = 0")
  case False
  then have "flagged (m_events s ! n)"
    using assms(4) by (auto simp: flagged_def bit_eq_iff bit_simps)
  then obtain hs where hs: "handlers_at p (m_eventInfos s) = Some hs"
    using ok_node assms(1-3) by blast
  show ?thesis
  proof (cases "sel hs")
    case (Some h)
    obtain r s' where r: "run h s = (r, s')" by fastforce
    have "ok s'" and "same_pending s s'" using run_ok [OF assms(1), of h] run_pending [OF assms(1), of h] r by auto
    moreover from this have "same_pending s (clear_flag n fl s')" "ok (clear_flag n fl s')"
      using same_pending_trans clear_ok by (blast intro: same_pending_clear_flag)+
    ultimately show ?thesis using False hs Some r by (cases r) (auto simp: call_handler_def)
  qed (use False hs assms(1) in \<open>simp add: call_handler_def\<close>)
qed (use assms(1) in \<open>simp add: call_handler_def\<close>)

lemma event_pass_ok:
  assumes "ok s"
  shows "case event_pass run n left s of
    Undefined \<Rightarrow> False | Done left' s' \<Rightarrow> ok s' \<and> same_pending s s' | Stopped s' \<Rightarrow> ok s' \<and> same_pending s s'"
  using assms
proof (induction "MAXEVENTS - n" arbitrary: n left s rule: less_induct)
  case less
  show ?case
  proof (cases "int n < m_eventCount s \<and> ev_ptr (m_events s ! n) \<noteq> None")
    case False
    then show ?thesis
      using ok_size [OF less.prems] less.prems by (auto simp: event_pass.simps [of run n])
  next
    case True
    then obtain p where p: "ev_ptr (m_events s ! n) = Some p" by blast
    obtain l1 s1 where c1: "call_handler run inEvent EPOLLIN n p left s = Done l1 s1" "ok s1" "same_pending s s1"
      using call_handler_ok less.prems True p by blast
    have n1: "int n < m_eventCount s1" "ev_ptr (m_events s1 ! n) = Some p"
      using pending_ptr [OF less.prems c1(2,3)] True p by auto
    obtain l2 s2 where c2: "call_handler run outEvent EPOLLOUT n p l1 s1 = Done l2 s2" "ok s2" "same_pending s1 s2"
      using call_handler_ok [OF c1(2) n1] by blast
    have lt: "n < MAXEVENTS" using True ok_size [OF less.prems] by simp
    then have "event_pass run n left s = event_pass run (n + 1) l2 s2"
      using True p c1(1) c2(1) by (simp add: event_pass.simps [of run n])
    moreover have "same_pending s s2" using c1(3) c2(3) by (rule same_pending_trans)
    ultimately show ?thesis
      using less.hyps [of "n + 1" s2 l2] diff_less_mono2 [OF lessI lt] c2(2)
      by (auto split: pass.splits dest: same_pending_trans)
  qed
qed

text \<open>A pass over events among which is the stop notification ends the loop.\<close>

lemma event_pass_stops:
  assumes "ok s" and "n \<le> i" and "int i < m_eventCount s" and "ev_ptr (m_events s ! i) = None"
  shows "\<exists>s'. event_pass run n left s = Stopped s'"
  using assms
proof (induction "MAXEVENTS - n" arbitrary: n left s rule: less_induct)
  case less
  have lt: "n < MAXEVENTS" using less.prems(2,3) ok_size [OF less.prems(1)] by simp
  have n: "int n < m_eventCount s" using less.prems(2,3) by simp
  show ?case
  proof (cases "ev_ptr (m_events s ! n)")
    case None
    then show ?thesis using n lt by (simp add: event_pass.simps [of run n])
  next
    case (Some p)
    obtain l1 s1 where c1: "call_handler run inEvent EPOLLIN n p left s = Done l1 s1" "ok s1" "same_pending s s1"
      using call_handler_ok less.prems(1) n Some by blast
    have n1: "int n < m_eventCount s1" "ev_ptr (m_events s1 ! n) = Some p"
      using pending_ptr [OF less.prems(1) c1(2,3)] n Some by auto
    obtain l2 s2 where c2: "call_handler run outEvent EPOLLOUT n p l1 s1 = Done l2 s2" "ok s2" "same_pending s1 s2"
      using call_handler_ok [OF c1(2) n1] by blast
    have s2: "same_pending s s2" using c1(3) c2(3) by (rule same_pending_trans)
    have "event_pass run n left s = event_pass run (n + 1) l2 s2"
      using n lt Some c1(1) c2(1) by (simp add: event_pass.simps [of run n])
    moreover have "n + 1 \<le> i" using less.prems(2,4) Some by (cases "n = i") auto
    ultimately show ?thesis
      using less.hyps [of "n + 1" s2 l2] diff_less_mono2 [OF lessI lt] c2(2) pending_ptr [OF less.prems(1) c2(2) s2 less.prems(3)]
        less.prems(4) by simp
  qed
qed

end

lemma loop_ok_size:
  "loop_ok interest s \<Longrightarrow> length (m_events s) = MAXEVENTS \<and> m_eventCount s \<le> int MAXEVENTS"
  by (simp add: loop_ok_def pending_ok_def)

text \<open>
  Handlers that respect the loop: they keep its invariant and do not touch the array of pending events other
  than by masking flags. Every handler that is composed of the operations above is one.
\<close>

definition good_run :: "('w \<Rightarrow> int \<Rightarrow> epoll_event option) \<Rightarrow> ('h, ('h, 'w) EventLoop) runner \<Rightarrow> bool" where
  "good_run interest run \<longleftrightarrow>
     (\<forall>h s. loop_ok interest s \<longrightarrow> loop_ok interest (snd (run h s)) \<and> same_pending s (snd (run h s)))"

interpretation loop_dispatch: dispatcher run "\<lambda>s. good_run interest run \<and> loop_ok interest s"
  for run :: "'h \<Rightarrow> ('h, 'w) EventLoop \<Rightarrow> outcome \<times> ('h, 'w) EventLoop" and interest
proof unfold_locales
  fix s :: "('h, 'w) EventLoop" and i p
  assume "good_run interest run \<and> loop_ok interest s" "int i < m_eventCount s" "flagged (m_events s ! i)"
    "ev_ptr (m_events s ! i) = Some p"
  then show "handlers_at p (m_eventInfos s) \<noteq> None"
    unfolding handlers_at_iff by (auto simp: loop_ok_def pending_ok_def)
qed (auto simp: good_run_def clear_flag_ok dest: loop_ok_size)

end
