(* ===== verification/EventLoopBehaviour.thy ===== *)
theory EventLoopBehaviour
  imports EventLoopSafety
begin

text \<open>
  The event loop as a transition system, with the operations of other threads wherever the loop does not hold its
  lock; a run of \<open>execute\<close> is a path of it. The properties: no dangling pointer is followed unless an event is erased
  between the return of \<open>epoll_wait\<close> and the store of its result, and in that window it is; the dispatch returns and leaves no
  work behind, a throwing handler loses its event, the stop notification ends \<open>execute\<close>.
\<close>

section \<open>A concrete epoll\<close>

text \<open>
  A kernel to compute with: the registrations, and the descriptors that become ready at each call of
  \<open>epoll_wait\<close>; when the script is used up the call fails with \<open>EBADF\<close>.
\<close>

type_synonym sim_world = "(int \<Rightarrow> epoll_event option) \<times> int list list"

definition sim_wait :: "sim_world \<Rightarrow> (errno + epoll_event list) \<times> sim_world" where
  "sim_wait w =
     (case w of
        (reg, []) \<Rightarrow> (Inl 9, (reg, []))
      | (reg, ready # script) \<Rightarrow>
          (Inr (map (the \<circ> reg) (take MAXEVENTS (filter (\<lambda>fd. reg fd \<noteq> None) (remdups ready)))), (reg, script)))"

definition sim_ctl :: "ctl_op \<Rightarrow> int \<Rightarrow> epoll_event option \<Rightarrow> sim_world \<Rightarrow> int \<times> sim_world" where
  "sim_ctl op fd ev w =
     (case op of
        CTL_DEL \<Rightarrow> (if fst w fd = None then - 1 else 0, ((fst w)(fd := None), snd w))
      | CTL_ADD \<Rightarrow> if fst w fd = None then (0, ((fst w)(fd := ev), snd w)) else (- 1, w)
      | CTL_MOD \<Rightarrow> if fst w fd = None then (- 1, w) else (0, ((fst w)(fd := ev), snd w)))"

definition sim_os :: "sim_world epoll_os" where
  "sim_os = \<lparr>os_alloc = (\<lambda>as. Suc (sum_list as)), os_epoll_create = (\<lambda>w. (Inr 3, w)),
     os_eventfd = (\<lambda>w. (4, w)), os_epoll_ctl = sim_ctl, os_epoll_wait = sim_wait,
     os_write8 = (\<lambda>fd v w. (8, w)), os_close = (\<lambda>fd w. (0, w)), os_strerror = (\<lambda>w. [])\<rparr>"

lemma sim_laws: "epoll_laws sim_os fst"
  unfolding epoll_laws_def
proof (intro conjI allI impI)
  fix as show "os_alloc sim_os as \<notin> set as"
    using member_le_sum_list [of "Suc (sum_list as)" as] by (auto simp: sim_os_def)
next
  fix w evs w' assume w: "os_epoll_wait sim_os w = (Inr evs, w')"
  obtain reg ready script where r: "w = (reg, ready # script)"
    using w by (cases w; cases "snd w") (auto simp: sim_os_def sim_wait_def)
  let ?fds = "take MAXEVENTS (filter (\<lambda>fd. reg fd \<noteq> None) (remdups ready))"
  have evs: "evs = map (the \<circ> reg) ?fds" using w r by (simp add: sim_os_def sim_wait_def)
  have "\<forall>fd \<in> set ?fds. \<exists>ev. reg fd = Some ev" by (auto dest!: in_set_takeD)
  then have "list_all2 (\<lambda>fd e. \<exists>r. fst w fd = Some r \<and> ev_ptr e = ev_ptr r) ?fds evs"
    unfolding evs list_all2_map2 list_all2_same r by fastforce
  moreover have "distinct ?fds" by (intro distinct_take distinct_filter distinct_remdups)
  ultimately show "\<exists>fds. distinct fds \<and>
      list_all2 (\<lambda>fd e. \<exists>r. fst w fd = Some r \<and> ev_ptr e = ev_ptr r) fds evs" by blast
  show "fst w' = fst w" "length evs \<le> MAXEVENTS" using w r by (auto simp: sim_os_def sim_wait_def)
qed (auto simp: sim_os_def sim_ctl_def sim_wait_def split: if_splits list.splits ctl_op.splits)

section \<open>The loop as a transition system\<close>

datatype pc = Waiting | Filled int | Failed errno | Stored | Dispatching | Returned int | Crashed

text \<open>
  \<open>m_eventCount = epoll_wait(..)\<close> is outside the lock, in two steps: the kernel fills the array (or fails), then the
  result is stored. Until the lock is taken, other threads may register and erase events; while the loop dispatches,
  it holds the lock, and the handlers are the only ones to change the state. The flag records whether an event was erased in
  the window between the two steps.
\<close>

fun unlocked :: "pc \<Rightarrow> bool" where
  "unlocked Dispatching = False"
| "unlocked Crashed = False"
| "unlocked pc = True"

fun in_window :: "pc \<Rightarrow> bool" where
  "in_window (Filled n) = True"
| "in_window pc = False"

inductive loop_step :: "'w epoll_os \<Rightarrow> ('h, ('h, 'w) EventLoop) runner \<Rightarrow>
    pc \<times> bool \<times> ('h, 'w) EventLoop \<Rightarrow> pc \<times> bool \<times> ('h, 'w) EventLoop \<Rightarrow> bool" for os run where
  wait_filled: "os_epoll_wait os (world s) = (Inr evs, w) \<Longrightarrow> loop_step os run (Waiting, raced, s)
    (Filled (int (length evs)), raced, s\<lparr>m_events := evs @ drop (length evs) (m_events s), world := w\<rparr>)"
| wait_failed: "os_epoll_wait os (world s) = (Inl e, w) \<Longrightarrow>
    loop_step os run (Waiting, raced, s) (Failed e, raced, s\<lparr>world := w\<rparr>)"
| store_count: "loop_step os run (Filled n, raced, s) (Stored, raced, s\<lparr>m_eventCount := n\<rparr>)"
| store_interrupted: "loop_step os run (Failed EINTR, raced, s) (Stored, raced, s\<lparr>m_eventCount := - 1\<rparr>)"
| store_error: "e \<noteq> EINTR \<Longrightarrow>
    loop_step os run (Failed e, raced, s) (Returned (- 1), raced, s\<lparr>m_eventCount := - 1\<rparr>)"
| lock: "loop_step os run (Stored, raced, s) (Dispatching, raced, s)"
| pass_again: "event_pass run 0 0 s = Done left s' \<Longrightarrow> left \<noteq> 0 \<Longrightarrow>
    loop_step os run (Dispatching, raced, s) (Dispatching, raced, s')"
| pass_last: "event_pass run 0 0 s = Done 0 s' \<Longrightarrow> loop_step os run (Dispatching, raced, s) (Waiting, raced, s')"
| pass_stop: "event_pass run 0 0 s = Stopped s' \<Longrightarrow>
    loop_step os run (Dispatching, raced, s) (Returned 0, raced, s')"
| pass_undefined: "event_pass run 0 0 s = Undefined \<Longrightarrow>
    loop_step os run (Dispatching, raced, s) (Crashed, raced, s)"
| other_add: "unlocked pc \<Longrightarrow> loop_step os run (pc, raced, s) (pc, raced, snd (addEvent_locked os fd h s))"
| other_add_out: "unlocked pc \<Longrightarrow> loop_step os run (pc, raced, s) (pc, raced, snd (addOutEvent_locked os fd h s))"
| other_erase: "unlocked pc \<Longrightarrow>
    loop_step os run (pc, raced, s) (pc, raced \<or> in_window pc, snd (eraseEvent os fd s))"
| other_erase_out: "unlocked pc \<Longrightarrow>
    loop_step os run (pc, raced, s) (pc, raced \<or> in_window pc, snd (eraseOutEvent os fd s))"

text \<open>In the window the invariant holds of the result that is about to be stored.\<close>

definition about_to_store :: "pc \<Rightarrow> ('h, 'w) EventLoop \<Rightarrow> ('h, 'w) EventLoop" where
  "about_to_store pc s = (case pc of Filled n \<Rightarrow> s\<lparr>m_eventCount := n\<rparr> | _ \<Rightarrow> s)"

fun step_ok :: "('w \<Rightarrow> int \<Rightarrow> epoll_event option) \<Rightarrow> pc \<times> bool \<times> ('h, 'w) EventLoop \<Rightarrow> bool" where
  "step_ok interest (pc, raced, s) \<longleftrightarrow> raced \<or> pc \<noteq> Crashed \<and> loop_ok interest (about_to_store pc s)"

lemma add_about_to_store:
  "about_to_store pc (snd (addEvent_locked os fd h s)) = snd (addEvent_locked os fd h (about_to_store pc s))"
  "about_to_store pc (snd (addOutEvent_locked os fd h s)) = snd (addOutEvent_locked os fd h (about_to_store pc s))"
  by (auto simp: about_to_store_def addEvent_locked_def addOutEvent_locked_def Let_def split_beta
      split: pc.split option.split)

lemma about_to_store_id: "\<not> in_window pc \<Longrightarrow> about_to_store pc s = s"
  by (cases pc) (simp_all add: about_to_store_def)

lemma loop_ok_interrupted:
  "loop_ok interest s \<Longrightarrow> loop_ok interest (s\<lparr>m_eventCount := - 1\<rparr>)"
  "loop_ok interest s \<Longrightarrow> interest w = interest (world s) \<Longrightarrow> loop_ok interest (s\<lparr>world := w\<rparr>)"
  by (auto simp: loop_ok_def pending_ok_def)

lemma world_before_count: "s\<lparr>world := w, m_eventCount := n\<rparr> = s\<lparr>m_eventCount := n, world := w\<rparr>"
  by (cases s) simp

lemma loop_step_ok:
  assumes laws: "epoll_laws os interest" and good: "good_run interest run"
    and "loop_step os run c c'" and "step_ok interest c"
  shows "step_ok interest c'"
  using assms(3,4)
proof (induction rule: loop_step.induct)
  case (wait_filled s evs w raced)
  then show ?case using store_events_ok [OF laws] by (auto simp: about_to_store_def store_events_def world_before_count)
next
  case (wait_failed s e w raced)
  then show ?case using loop_ok_interrupted(2) epoll_lawsD(4) [OF laws] by (fastforce simp: about_to_store_def)
next
  case (pass_again s left s' raced)
  then show ?case using loop_dispatch.event_pass_ok [of interest run s 0 0] good by (auto simp: about_to_store_def)
next
  case (pass_last s s' raced)
  then show ?case using loop_dispatch.event_pass_ok [of interest run s 0 0] good by (auto simp: about_to_store_def)
next
  case (pass_stop s s' raced)
  then show ?case using loop_dispatch.event_pass_ok [of interest run s 0 0] good by (auto simp: about_to_store_def)
next
  case (pass_undefined s raced)
  then show ?case using loop_dispatch.event_pass_ok [of interest run s 0 0] good by (auto simp: about_to_store_def)
next
  case (other_erase pc raced s fd)
  then show ?case using eraseEvent_ok [OF laws] by (auto simp: about_to_store_id)
next
  case (other_erase_out pc raced s fd)
  then show ?case using eraseOutEvent_ok [OF laws] by (auto simp: about_to_store_id)
next
  case (store_interrupted raced s)
  then show ?case using loop_ok_interrupted(1) by (auto simp: about_to_store_def)
next
  case (store_error e raced s)
  then show ?case using loop_ok_interrupted(1) by (auto simp: about_to_store_def)
next
  case (other_add pc raced s fd h)
  then show ?case using addEvent_locked_ok [OF laws] by (auto simp: add_about_to_store)
next
  case (other_add_out pc raced s fd h)
  then show ?case using addOutEvent_locked_ok [OF laws] by (auto simp: add_about_to_store)
qed (simp_all add: about_to_store_def)

lemma loop_path_ok:
  assumes "epoll_laws os interest" and "good_run interest run" and "(loop_step os run)\<^sup>*\<^sup>* c c'"
    and "step_ok interest c"
  shows "step_ok interest c'"
  using assms(3,4) by induction (auto intro: loop_step_ok [OF assms(1,2)])

section \<open>execute follows the transition system\<close>

text \<open>The configuration that the result of the \<open>do\<close> loop stands for.\<close>

fun after_rounds :: "('h, 'w) EventLoop pass \<Rightarrow> pc \<times> bool \<times> ('h, 'w) EventLoop \<Rightarrow> bool" where
  "after_rounds (Done left s') c \<longleftrightarrow> c = (Waiting, False, s')"
| "after_rounds (Stopped s') c \<longleftrightarrow> c = (Returned 0, False, s')"
| "after_rounds Undefined c \<longleftrightarrow> fst c = Crashed \<and> \<not> fst (snd c)"

lemma rounds_steps:
  "rounds run s = Some r \<Longrightarrow>
     \<exists>c. after_rounds r c \<and> (loop_step os run)\<^sup>*\<^sup>* (Dispatching, False, s) c"
proof (induction arbitrary: os rule: rounds.raw_induct [rotated, consumes 1, case_names step])
  case (step rounds' run s r)
  show ?case
  proof (cases "event_pass run 0 0 s")
    case (Done left s1)
    show ?thesis
    proof (cases "left = 0")
      case False
      then have "rounds' run s1 = Some r" using step(2) Done by simp
      then obtain c where "after_rounds r c" "(loop_step os run)\<^sup>*\<^sup>* (Dispatching, False, s1) c"
        using step(1) by blast
      moreover have "loop_step os run (Dispatching, False, s) (Dispatching, False, s1)"
        using Done False by (rule pass_again)
      ultimately show ?thesis by (blast intro: converse_rtranclp_into_rtranclp)
    next
      case True
      then show ?thesis
        using step(2) Done by (intro exI [of _ "(Waiting, False, s1)"]) (auto intro: pass_last)
    qed
  next
    case (Stopped s1)
    then have "r = Stopped s1" using step(2) by simp
    then show ?thesis
      using pass_stop [OF Stopped] by (intro exI [of _ "(Returned 0, False, s1)"]) auto
  next
    case Undefined
    then have "r = Undefined" using step(2) by simp
    then show ?thesis
      using pass_undefined [OF Undefined] by (intro exI [of _ "(Crashed, False, s)"]) auto
  qed
qed

lemma fill_and_store:
  assumes "os_epoll_wait os (world s) = (Inr evs, w)"
  shows "(loop_step os run)\<^sup>*\<^sup>* (Waiting, False, s) (Stored, False, store_events evs w s)"
proof -
  let ?s = "s\<lparr>m_events := evs @ drop (length evs) (m_events s), world := w\<rparr>"
  have "loop_step os run (Waiting, False, s) (Filled (int (length evs)), False, ?s)"
    using assms by (rule wait_filled)
  moreover have "loop_step os run (Filled (int (length evs)), False, ?s) (Stored, False, store_events evs w s)"
    using store_count [of os run "int (length evs)" False ?s]
    by (simp add: store_events_def world_before_count)
  ultimately show ?thesis by (meson converse_rtranclp_into_rtranclp r_into_rtranclp)
qed

lemma fill_and_lock:
  "os_epoll_wait os (world s) = (Inr evs, w) \<Longrightarrow>
     (loop_step os run)\<^sup>*\<^sup>* (Waiting, False, s) (Dispatching, False, store_events evs w s)"
  by (rule rtranclp.rtrancl_into_rtrancl [OF fill_and_store lock])

lemma interrupted_and_lock:
  assumes "os_epoll_wait os (world s) = (Inl EINTR, w)"
  shows "(loop_step os run)\<^sup>*\<^sup>* (Waiting, False, s) (Dispatching, False, s\<lparr>m_eventCount := - 1, world := w\<rparr>)"
proof -
  have "loop_step os run (Waiting, False, s) (Failed EINTR, False, s\<lparr>world := w\<rparr>)"
    using assms by (rule wait_failed)
  moreover have "loop_step os run (Failed EINTR, False, s\<lparr>world := w\<rparr>)
      (Stored, False, s\<lparr>m_eventCount := - 1, world := w\<rparr>)"
    using store_interrupted [of os run False "s\<lparr>world := w\<rparr>"] by (simp add: world_before_count)
  ultimately show ?thesis
    using lock [of os run False "s\<lparr>m_eventCount := - 1, world := w\<rparr>"]
    by (meson converse_rtranclp_into_rtranclp r_into_rtranclp)
qed

lemma failed_and_returned:
  assumes "os_epoll_wait os (world s) = (Inl e, w)" and "e \<noteq> EINTR"
  shows "(loop_step os run)\<^sup>*\<^sup>* (Waiting, False, s) (Returned (- 1), False, s\<lparr>m_eventCount := - 1, world := w\<rparr>)"
proof -
  have "loop_step os run (Waiting, False, s) (Failed e, False, s\<lparr>world := w\<rparr>)"
    using assms(1) by (rule wait_failed)
  moreover have "loop_step os run (Failed e, False, s\<lparr>world := w\<rparr>)
      (Returned (- 1), False, s\<lparr>m_eventCount := - 1, world := w\<rparr>)"
    using store_error [OF assms(2), of os run False "s\<lparr>world := w\<rparr>"] by (simp add: world_before_count)
  ultimately show ?thesis by (meson converse_rtranclp_into_rtranclp r_into_rtranclp)
qed

text \<open>The value 0 of the stop notification, -1 of a failed \<open>epoll_wait\<close>.\<close>

fun after_execute :: "int option \<Rightarrow> ('h, 'w) EventLoop \<Rightarrow> pc \<times> bool \<times> ('h, 'w) EventLoop \<Rightarrow> bool" where
  "after_execute (Some r) s' c \<longleftrightarrow> c = (Returned r, False, s') \<and> (r = 0 \<or> r = - 1)"
| "after_execute None s' c \<longleftrightarrow> fst c = Crashed \<and> \<not> fst (snd c)"

lemma execute_steps:
  "execute os run s = Some r \<Longrightarrow>
     \<exists>c. after_execute (fst r) (snd r) c \<and> (loop_step os run)\<^sup>*\<^sup>* (Waiting, False, s) c"
proof (induction rule: execute.raw_induct [rotated, consumes 1, case_names step])
  case (step execute' os run s r)
  have dispatch: "\<exists>c. after_execute (fst r) (snd r) c \<and> (loop_step os run)\<^sup>*\<^sup>* (Waiting, False, s) c"
    if first: "(loop_step os run)\<^sup>*\<^sup>* (Waiting, False, s) (Dispatching, False, s1)"
      and rest: "(case rounds run s1 of
         None \<Rightarrow> None
       | Some (Done _ s) \<Rightarrow> execute' os run s
       | Some (Stopped s) \<Rightarrow> Some (Some 0, s)
       | Some Undefined \<Rightarrow> Some (None, s1)) = Some r" for s1
  proof -
    obtain x where x: "rounds run s1 = Some x" using rest by (cases "rounds run s1") auto
    then obtain c where c: "after_rounds x c" "(loop_step os run)\<^sup>*\<^sup>* (Dispatching, False, s1) c"
      using rounds_steps by blast
    with first have reach: "(loop_step os run)\<^sup>*\<^sup>* (Waiting, False, s) c" by simp
    show ?thesis
    proof (cases x)
      case (Done left s2)
      then obtain c' where "after_execute (fst r) (snd r) c'" "(loop_step os run)\<^sup>*\<^sup>* (Waiting, False, s2) c'"
        using step(1) [of os run s2 r] rest x Done by auto
      moreover have "c = (Waiting, False, s2)" using c(1) Done by simp
      ultimately show ?thesis using reach by (blast intro: rtranclp_trans)
    next
      case (Stopped s2)
      then show ?thesis using rest x c(1) reach by (intro exI [of _ c]) auto
    next
      case Undefined
      then show ?thesis using rest x c(1) reach by (intro exI [of _ c]) auto
    qed
  qed
  show ?case
  proof (cases "os_epoll_wait os (world s)")
    case (Pair ret w)
    show ?thesis
    proof (cases ret)
      case (Inr evs)
      with Pair show ?thesis
        using dispatch [OF fill_and_lock] step(2) by (simp add: Let_def)
    next
      case (Inl e)
      show ?thesis
      proof (cases "e = EINTR")
        case True
        with Pair Inl show ?thesis
          using dispatch [OF interrupted_and_lock] step(2) by (simp add: Let_def)
      next
        case False
        then show ?thesis
          using Pair Inl step(2) failed_and_returned [of os s e w run] by (auto simp: Let_def)
      qed
    qed
  qed
qed

section \<open>Dispatching drains the pending events\<close>

text \<open>
  Handlers that never throw, and a state in which every flag of a pending event has a handler. The
  operations of the loop clear flags of pending events but never set one.
\<close>

definition handlers_present :: "('h, 'w) EventLoop \<Rightarrow> bool" where
  "handlers_present s \<longleftrightarrow>
     (\<forall>i p. int i < m_eventCount s \<longrightarrow> ev_ptr (m_events s ! i) = Some p \<longrightarrow>
        (ev_events (m_events s ! i) AND EPOLLIN \<noteq> 0 \<longrightarrow>
           (\<exists>hs. handlers_at p (m_eventInfos s) = Some hs \<and> inEvent hs \<noteq> None)) \<and>
        (ev_events (m_events s ! i) AND EPOLLOUT \<noteq> 0 \<longrightarrow>
           (\<exists>hs. handlers_at p (m_eventInfos s) = Some hs \<and> outEvent hs \<noteq> None)))"

definition only_masks :: "('h, 'w) EventLoop \<Rightarrow> ('h, 'w) EventLoop \<Rightarrow> bool" where
  "only_masks s s' \<longleftrightarrow> same_pending s s' \<and>
     (\<forall>i < length (m_events s). \<forall>n. bit (ev_events (m_events s' ! i)) n \<longrightarrow> bit (ev_events (m_events s ! i)) n)"

definition quiet_run :: "('w \<Rightarrow> int \<Rightarrow> epoll_event option) \<Rightarrow> ('h, ('h, 'w) EventLoop) runner \<Rightarrow> bool" where
  "quiet_run interest run \<longleftrightarrow>
     (\<forall>h s. loop_ok interest s \<longrightarrow> handlers_present s \<longrightarrow>
        (\<exists>r s'. run h s = (Ret r, s') \<and> loop_ok interest s' \<and> handlers_present s' \<and> only_masks s s'))"

lemma only_masks_refl [simp, intro]: "only_masks s s"
  by (simp add: only_masks_def)

lemma only_masks_trans: "only_masks s t \<Longrightarrow> only_masks t u \<Longrightarrow> only_masks s u"
  unfolding only_masks_def
  by (metis length_map same_pending_def same_pending_trans)

lemma only_masks_clear_flag [simp, intro]: "only_masks s (clear_flag n fl s)"
proof -
  have "bit (ev_events (m_events s ! i)) k"
    if "i < length (m_events s)" "bit (ev_events (m_events (clear_flag n fl s) ! i)) k" for i k
    using that by (cases "n = i") (auto simp: clear_flag_def bit_simps)
  then show ?thesis by (simp add: only_masks_def)
qed

lemma flag_zero_iff:
  "e AND EPOLLIN = 0 \<longleftrightarrow> \<not> bit e 0" "e AND EPOLLOUT = 0 \<longleftrightarrow> \<not> bit e 2"
  using and_exp_eq_0_iff_not_bit [of e 0] and_exp_eq_0_iff_not_bit [of e 2]
  by (simp_all add: EPOLLIN_def EPOLLOUT_def)

lemma flagged_bits: "flagged e \<longleftrightarrow> bit (ev_events e) 0 \<or> bit (ev_events e) 2"
proof -
  have "ev_events e AND (EPOLLIN OR EPOLLOUT) = 0 \<longleftrightarrow>
      ev_events e AND EPOLLIN = 0 \<and> ev_events e AND EPOLLOUT = 0"
    by (auto simp: bit_eq_iff bit_simps)
  then show ?thesis by (simp add: flagged_def flag_zero_iff)
qed

lemma handlers_present_mask:
  assumes "handlers_present s" and "only_masks s s'" and "m_eventInfos s' = m_eventInfos s"
    and "m_eventCount s \<le> int (length (m_events s))"
  shows "handlers_present s'"
  unfolding handlers_present_def
proof (intro allI impI)
  fix i p assume i: "int i < m_eventCount s'" and p: "ev_ptr (m_events s' ! i) = Some p"
  have count: "m_eventCount s' = m_eventCount s" and ptrs: "map ev_ptr (m_events s') = map ev_ptr (m_events s)"
    using assms(2) by (auto simp: only_masks_def same_pending_def)
  then have len: "i < length (m_events s)" "i < length (m_events s')"
    using i assms(4) by (auto dest: map_eq_imp_length_eq)
  then have "ev_ptr (m_events s ! i) = Some p" using ptrs p by (metis nth_map)
  moreover have "\<And>n. bit (ev_events (m_events s' ! i)) n \<Longrightarrow> bit (ev_events (m_events s ! i)) n"
    using assms(2) len by (auto simp: only_masks_def)
  ultimately show "(ev_events (m_events s' ! i) AND EPOLLIN \<noteq> 0 \<longrightarrow>
           (\<exists>hs. handlers_at p (m_eventInfos s') = Some hs \<and> inEvent hs \<noteq> None)) \<and>
        (ev_events (m_events s' ! i) AND EPOLLOUT \<noteq> 0 \<longrightarrow>
           (\<exists>hs. handlers_at p (m_eventInfos s') = Some hs \<and> outEvent hs \<noteq> None))"
    using assms(1,3) i count unfolding handlers_present_def flag_zero_iff by metis
qed

lemma call_handler_drains:
  assumes "quiet_run interest run" and ok: "loop_ok interest s" "handlers_present s"
    and n: "int n < m_eventCount s" "ev_ptr (m_events s ! n) = Some p"
    and sel: "sel = inEvent \<and> fl = EPOLLIN \<and> b = 0 \<or> sel = outEvent \<and> fl = EPOLLOUT \<and> b = 2"
  shows "\<exists>left' s'. call_handler run sel fl n p left s = Done left' s' \<and> loop_ok interest s' \<and>
    handlers_present s' \<and> only_masks s s' \<and> left \<le> left' \<and>
    (left' = left \<longrightarrow> \<not> bit (ev_events (m_events s' ! n)) b)"
proof (cases "bit (ev_events (m_events s ! n)) b")
  case False
  then show ?thesis using ok sel by (auto simp: call_handler_def flag_zero_iff)
next
  case True
  then obtain hs h where h: "handlers_at p (m_eventInfos s) = Some hs" "sel hs = Some h"
    using ok(2) n sel unfolding handlers_present_def flag_zero_iff by blast
  obtain r s' where r: "run h s = (Ret r, s')" "loop_ok interest s'" "handlers_present s'" "only_masks s s'"
    using assms(1) ok unfolding quiet_run_def by blast
  have size: "length (m_events s') = MAXEVENTS" "m_eventCount s' \<le> int MAXEVENTS"
    using loop_ok_size [OF r(2)] by auto
  have cleared: "handlers_present (clear_flag n fl s')" "only_masks s (clear_flag n fl s')"
    using handlers_present_mask [OF r(3) only_masks_clear_flag] size only_masks_trans [OF r(4) only_masks_clear_flag]
    by (auto simp: clear_flag_def)
  have "n < length (m_events s')" using n(1) loop_ok_size [OF ok(1)] size by simp
  then have "\<not> bit (ev_events (m_events (clear_flag n fl s') ! n)) b"
    using sel by (auto simp: clear_flag_def bit_simps EPOLLIN_def EPOLLOUT_def bit_1_iff)
      (simp add: numeral_eq_Suc)?
  with True h r cleared sel show ?thesis
    by (auto simp: call_handler_def flag_zero_iff clear_flag_ok)
qed

lemma event_pass_drains:
  assumes "quiet_run interest run"
  shows "loop_ok interest s \<Longrightarrow> handlers_present s \<Longrightarrow> event_pass run n left s = Done left' s' \<Longrightarrow>
    loop_ok interest s' \<and> handlers_present s' \<and> only_masks s s' \<and> left \<le> left' \<and>
    (left' = left \<longrightarrow> (\<forall>i. n \<le> i \<longrightarrow> int i < m_eventCount s' \<longrightarrow> \<not> flagged (m_events s' ! i)))"
proof (induction "MAXEVENTS - n" arbitrary: n left s rule: less_induct)
  case less
  show ?case
  proof (cases "int n < m_eventCount s")
    case False
    then show ?thesis using less.prems by (simp add: event_pass.simps [of run n])
  next
    case True
    then have lt: "n < MAXEVENTS" using loop_ok_size [OF less.prems(1)] by simp
    then obtain p where p: "ev_ptr (m_events s ! n) = Some p"
      using less.prems(3) True by (cases "ev_ptr (m_events s ! n)") (auto simp: event_pass.simps [of run n])
    obtain l1 s1 where c1: "call_handler run inEvent EPOLLIN n p left s = Done l1 s1" "loop_ok interest s1"
        "handlers_present s1" "only_masks s s1" "left \<le> l1"
        "l1 = left \<longrightarrow> \<not> bit (ev_events (m_events s1 ! n)) 0"
      using call_handler_drains [OF assms less.prems(1,2) True p, of inEvent EPOLLIN 0 left] by blast
    have n1: "int n < m_eventCount s1" "ev_ptr (m_events s1 ! n) = Some p"
    proof -
      have "map ev_ptr (m_events s1) ! n = map ev_ptr (m_events s) ! n"
        using c1(4) by (simp only: only_masks_def same_pending_def)
      then show "ev_ptr (m_events s1 ! n) = Some p"
        using p lt loop_ok_size [OF c1(2)] loop_ok_size [OF less.prems(1)] by simp
      show "int n < m_eventCount s1" using True c1(4) by (simp add: only_masks_def same_pending_def)
    qed
    obtain l2 s2 where c2: "call_handler run outEvent EPOLLOUT n p l1 s1 = Done l2 s2" "loop_ok interest s2"
        "handlers_present s2" "only_masks s1 s2" "l1 \<le> l2"
        "l2 = l1 \<longrightarrow> \<not> bit (ev_events (m_events s2 ! n)) 2"
      using call_handler_drains [OF assms c1(2,3) n1, of outEvent EPOLLOUT 2 l1] by blast
    have "event_pass run (n + 1) l2 s2 = Done left' s'"
      using less.prems(3) True lt p c1(1) c2(1) by (simp add: event_pass.simps [of run n])
    from less.hyps [OF _ c2(2,3) this] diff_less_mono2 [OF lessI lt]
    have IH: "loop_ok interest s'" "handlers_present s'" "only_masks s2 s'" "l2 \<le> left'"
        "left' = l2 \<longrightarrow> (\<forall>i. n + 1 \<le> i \<longrightarrow> int i < m_eventCount s' \<longrightarrow> \<not> flagged (m_events s' ! i))"
      by auto
    have masks: "only_masks s1 s'" "only_masks s s'"
      using c1(4) c2(4) IH(3) only_masks_trans by blast+
    have "\<not> flagged (m_events s' ! n)" if "left' = left"
    proof -
      have "l1 = left" "l2 = l1" using that c1(5) c2(5) IH(4) by auto
      then have "\<not> bit (ev_events (m_events s1 ! n)) 0" "\<not> bit (ev_events (m_events s2 ! n)) 2"
        using c1(6) c2(6) by auto
      moreover have "n < length (m_events s1)" "n < length (m_events s2)"
        using lt loop_ok_size [OF c1(2)] loop_ok_size [OF c2(2)] by auto
      ultimately show ?thesis
        using masks(1) IH(3) unfolding flagged_bits only_masks_def by blast
    qed
    moreover have "\<not> flagged (m_events s' ! i)"
      if "left' = left" "n \<le> i" "n \<noteq> i" "int i < m_eventCount s'" for i
    proof -
      have "left' = l2" using that(1) IH(4) c1(5) c2(5) by linarith
      moreover have "n + 1 \<le> i" using that(2,3) by linarith
      ultimately show ?thesis using IH(5) that(4) by blast
    qed
    ultimately have "left' = left \<longrightarrow> (\<forall>i. n \<le> i \<longrightarrow> int i < m_eventCount s' \<longrightarrow> \<not> flagged (m_events s' ! i))"
      by blast
    moreover have "left \<le> left'" using c1(5) c2(5) IH(4) by linarith
    ultimately show ?thesis using IH(1,2) masks(2) by blast
  qed
qed

lemma rounds_drains:
  assumes "quiet_run interest run" and "loop_ok interest s" and "handlers_present s"
    and "rounds run s = Some (Done left s')"
  shows "\<forall>i. int i < m_eventCount s' \<longrightarrow> \<not> flagged (m_events s' ! i)"
proof -
  have "\<forall>left s'. r = Done left s' \<longrightarrow> loop_ok interest s \<longrightarrow> handlers_present s \<longrightarrow>
      quiet_run interest run \<longrightarrow> (\<forall>i. int i < m_eventCount s' \<longrightarrow> \<not> flagged (m_events s' ! i))"
    if "rounds run s = Some r" for r
    using that
  proof (induction rule: rounds.raw_induct [rotated, consumes 1, case_names step])
    case (step rounds' run s r)
    show ?case
    proof (intro allI impI)
      fix left s' i
      assume *: "r = Done left s'" "loop_ok interest s" "handlers_present s" "quiet_run interest run"
        "int i < m_eventCount s'"
      then obtain l1 s1 where e: "event_pass run 0 0 s = Done l1 s1"
        using step(2) by (cases "event_pass run 0 0 s") auto
      note d = event_pass_drains [OF *(4,2,3) e]
      show "\<not> flagged (m_events s' ! i)"
      proof (cases "l1 = 0")
        case True
        then show ?thesis using d step(2) e * by simp
      next
        case False
        then have "rounds' run s1 = Some r" using step(2) e by simp
        then show ?thesis using step(1) d * by blast
      qed
    qed
  qed
  then show ?thesis using assms by blast
qed

section \<open>Termination of the dispatch\<close>

text \<open>Handlers that report more to do only after having done some of a finite amount of work.\<close>

definition makes_progress ::
  "('h, ('h, 'w) EventLoop) runner \<Rightarrow> (('h, 'w) EventLoop \<Rightarrow> nat) \<Rightarrow> bool" where
  "makes_progress run work \<longleftrightarrow>
     (\<forall>h s. work (snd (run h s)) \<le> work s) \<and>
     (\<forall>h s r s'. run h s = (Ret r, s') \<longrightarrow> 0 < r \<longrightarrow> work s' < work s) \<and>
     (\<forall>n fl s. work (clear_flag n fl s) = work s)"

lemma call_handler_progress:
  assumes "makes_progress run work" and "call_handler run sel fl n p left s = Done left' s'"
  shows "work s' \<le> work s \<and> left \<le> left' \<and> (left < left' \<longrightarrow> work s' < work s)"
proof -
  have le: "\<And>h s r s'. run h s = (r, s') \<Longrightarrow> work s' \<le> work s"
    using assms(1) unfolding makes_progress_def by (metis snd_conv)
  have lt: "\<And>h s r s'. run h s = (Ret r, s') \<Longrightarrow> 0 < r \<Longrightarrow> work s' < work s"
    and cl: "\<And>n fl s. work (clear_flag n fl s) = work s"
    using assms(1) unfolding makes_progress_def by blast+
  show ?thesis
    using assms(2) by (auto simp: call_handler_def cl dest: le lt split: if_splits option.splits prod.splits outcome.splits)
qed

lemma event_pass_progress:
  assumes "makes_progress run work"
  shows "event_pass run n left s = Done left' s' \<Longrightarrow>
    work s' \<le> work s \<and> left \<le> left' \<and> (left < left' \<longrightarrow> work s' < work s)"
proof (induction "MAXEVENTS - n" arbitrary: n left s rule: less_induct)
  case less
  show ?case
  proof (cases "int n < m_eventCount s \<and> n < MAXEVENTS")
    case False
    then show ?thesis using less.prems by (auto simp: event_pass.simps [of run n] split: if_splits)
  next
    case True
    then obtain p l1 s1 l2 s2 where c: "call_handler run inEvent EPOLLIN n p left s = Done l1 s1"
        "call_handler run outEvent EPOLLOUT n p l1 s1 = Done l2 s2" "event_pass run (n + 1) l2 s2 = Done left' s'"
      using less.prems by (auto simp: event_pass.simps [of run n] split: option.splits pass.splits)
    then show ?thesis
      using call_handler_progress [OF assms c(1)] call_handler_progress [OF assms c(2)]
        less.hyps [OF _ c(3)] True by fastforce
  qed
qed

lemma rounds_terminate:
  assumes "makes_progress run work"
  shows "\<exists>r. rounds run s = Some r"
proof (induction "work s" arbitrary: s rule: less_induct)
  case less
  show ?case
  proof (cases "event_pass run 0 0 s")
    case (Done left s')
    show ?thesis
    proof (cases "left = 0")
      case False
      then have "work s' < work s" using event_pass_progress [OF assms Done] by simp
      then show ?thesis using less False Done by (simp add: rounds.simps [of run s])
    qed (simp add: rounds.simps [of run s] Done)
  qed (simp_all add: rounds.simps [of run s])
qed

text \<open>With handlers that keep the loop in order as well, the dispatch ends with an outcome that the code defines.\<close>

lemma event_pass_defined:
  assumes "quiet_run interest run"
  shows "loop_ok interest s \<Longrightarrow> handlers_present s \<Longrightarrow> event_pass run n left s \<noteq> Undefined"
proof (induction "MAXEVENTS - n" arbitrary: n left s rule: less_induct)
  case less
  show ?case
  proof (cases "int n < m_eventCount s \<and> ev_ptr (m_events s ! n) \<noteq> None")
    case False
    then show ?thesis using loop_ok_size [OF less.prems(1)] by (auto simp: event_pass.simps [of run n])
  next
    case True
    then obtain p where n: "int n < m_eventCount s" "ev_ptr (m_events s ! n) = Some p" "n < MAXEVENTS"
      using loop_ok_size [OF less.prems(1)] by auto
    obtain l1 s1 where c1: "call_handler run inEvent EPOLLIN n p left s = Done l1 s1" "loop_ok interest s1"
        "handlers_present s1" "only_masks s s1"
      using call_handler_drains [OF assms less.prems n(1,2), of inEvent EPOLLIN 0 left] by blast
    have "map ev_ptr (m_events s1) ! n = map ev_ptr (m_events s) ! n"
      using c1(4) by (simp only: only_masks_def same_pending_def)
    then have n1: "int n < m_eventCount s1" "ev_ptr (m_events s1 ! n) = Some p"
      using n c1(4) loop_ok_size [OF c1(2)] loop_ok_size [OF less.prems(1)]
      by (simp_all add: only_masks_def same_pending_def)
    obtain l2 s2 where c2: "call_handler run outEvent EPOLLOUT n p l1 s1 = Done l2 s2" "loop_ok interest s2"
        "handlers_present s2"
      using call_handler_drains [OF assms c1(2,3) n1, of outEvent EPOLLOUT 2 l1] by blast
    have "event_pass run (n + 1) l2 s2 \<noteq> Undefined"
      using less.hyps [OF _ c2(2,3)] n(3) by simp
    then show ?thesis using n c1(1) c2(1) by (simp add: event_pass.simps [of run n])
  qed
qed

lemma rounds_defined:
  assumes "makes_progress run work" and "quiet_run interest run"
  shows "loop_ok interest s \<Longrightarrow> handlers_present s \<Longrightarrow>
    \<exists>s'. rounds run s = Some (Done 0 s') \<or> rounds run s = Some (Stopped s')"
proof (induction "work s" arbitrary: s rule: less_induct)
  case less
  show ?case
  proof (cases "event_pass run 0 0 s")
    case (Done left s')
    show ?thesis
    proof (cases "left = 0")
      case False
      then have "work s' < work s" using event_pass_progress [OF assms(1) Done] by simp
      moreover have "loop_ok interest s'" "handlers_present s'"
        using event_pass_drains [OF assms(2) less.prems Done] by auto
      ultimately show ?thesis using less.hyps False Done by (simp add: rounds.simps [of run s])
    qed (simp add: rounds.simps [of run s] Done)
  next
    case Undefined
    then show ?thesis using event_pass_defined [OF assms(2) less.prems] by simp
  qed (simp_all add: rounds.simps [of run s])
qed

lemma drain_terminates:
  assumes "makes_progress run work"
  shows "\<exists>r. drain run h s = Some r"
proof (induction "work s" arbitrary: s rule: less_induct)
  case less
  have lt: "run h s = (Ret r, s') \<Longrightarrow> 0 < r \<Longrightarrow> work s' < work s" for r s'
    using assms unfolding makes_progress_def by blast
  show ?case
  proof (cases "run h s")
    case (Pair r s')
    show ?thesis
    proof (cases r)
      case (Ret k)
      then show ?thesis
        using Pair less.hyps lt by (cases "0 < k") (auto simp: drain.simps [of run h s])
    qed (use Pair in \<open>simp add: drain.simps [of run h s]\<close>)
  qed
qed

section \<open>The registry of handlers\<close>

text \<open>
  What the clients of the loop rely on: the handler registered for a descriptor, as seen through
  registering and erasing. The contract holds for the input and for the output side.
\<close>

locale event_registry =
  fixes valid :: "'s \<Rightarrow> bool"
    and handler :: "'s \<Rightarrow> int \<Rightarrow> 'h option"
    and register :: "int \<Rightarrow> 'h \<Rightarrow> 's \<Rightarrow> int \<times> 's"
    and erase :: "int \<Rightarrow> 's \<Rightarrow> int \<times> 's"
  assumes register_valid: "valid s \<Longrightarrow> valid (snd (register fd h s))"
    and erase_valid: "valid s \<Longrightarrow> valid (snd (erase fd s))"
    and handler_register: "handler (snd (register fd h s)) = (handler s)(fd := Some h)"
    and handler_erase: "handler (snd (erase fd s)) = (handler s)(fd := None)"
    and erase_absent: "handler s fd = None \<Longrightarrow> erase fd s = (- 1, s)"
begin

lemma register_erase:
  "handler s fd = None \<Longrightarrow> handler (snd (erase fd (snd (register fd h s)))) = handler s"
  by (simp add: handler_register handler_erase fun_upd_idem)

lemma erase_twice: "erase fd (snd (erase fd s)) = (- 1, snd (erase fd s))"
  by (rule erase_absent) (simp add: handler_erase)

lemma replaced: "handler (snd (register fd h' (snd (register fd h s)))) fd = Some h'"
  by (simp add: handler_register)

end

definition in_handler :: "('h, 'w) EventLoop \<Rightarrow> int \<Rightarrow> 'h option" where
  "in_handler s fd = (case map_of (m_eventInfos s) fd of None \<Rightarrow> None | Some (p, hs) \<Rightarrow> inEvent hs)"

definition out_handler :: "('h, 'w) EventLoop \<Rightarrow> int \<Rightarrow> 'h option" where
  "out_handler s fd = (case map_of (m_eventInfos s) fd of None \<Rightarrow> None | Some (p, hs) \<Rightarrow> outEvent hs)"

lemma in_handler_ops:
  "in_handler (snd (addEvent_locked os fd h s)) = (in_handler s)(fd := Some h)"
  "in_handler (snd (eraseEvent os fd s)) = (in_handler s)(fd := None)"
  "in_handler s fd = None \<Longrightarrow> eraseEvent os fd s = (- 1, s)"
  by (rule ext, auto simp: in_handler_def addEvent_locked_def eraseEvent_def update_conv' delete_conv' Let_def
      split: option.splits prod.splits)+

lemma out_handler_ops:
  "out_handler (snd (addOutEvent_locked os fd h s)) = (out_handler s)(fd := Some h)"
  "out_handler (snd (eraseOutEvent os fd s)) = (out_handler s)(fd := None)"
  "out_handler s fd = None \<Longrightarrow> eraseOutEvent os fd s = (- 1, s)"
  by (rule ext, auto simp: out_handler_def addOutEvent_locked_def eraseOutEvent_def update_conv' delete_conv' Let_def
      split: option.splits prod.splits)+

lemma other_side_ops:
  "out_handler (snd (addEvent_locked os fd h s)) = out_handler s"
  "out_handler (snd (eraseEvent os fd s)) = out_handler s"
  "in_handler (snd (addOutEvent_locked os fd h s)) = in_handler s"
  "in_handler (snd (eraseOutEvent os fd s)) = in_handler s"
  by (rule ext, auto simp: in_handler_def out_handler_def addEvent_locked_def addOutEvent_locked_def
      eraseEvent_def eraseOutEvent_def update_conv' delete_conv' Let_def
      split: option.splits prod.splits)+

interpretation in_registry: event_registry
  "\<lambda>s. epoll_laws os interest \<and> loop_ok interest s" in_handler "addEvent_locked os" "eraseEvent os"
  for os interest
  by unfold_locales (auto simp: in_handler_ops addEvent_locked_ok eraseEvent_ok)

interpretation out_registry: event_registry
  "\<lambda>s. epoll_laws os interest \<and> loop_ok interest s" out_handler "addOutEvent_locked os" "eraseOutEvent os"
  for os interest
  by unfold_locales (auto simp: out_handler_ops addOutEvent_locked_ok eraseOutEvent_ok)

section \<open>A concrete loop\<close>

text \<open>
  One descriptor with an input handler and the stop notification, both registered; the script makes the
  given descriptors ready. The handler of the examples does nothing.
\<close>

definition demo_loop :: "int list list \<Rightarrow> (nat, sim_world) EventLoop" where
  "demo_loop script = \<lparr>m_events = replicate MAXEVENTS \<lparr>ev_events = 0, ev_ptr = None\<rparr>, m_eventCount = 0,
     m_eventInfos = [(5, 1, \<lparr>inEvent = Some 0, outEvent = None\<rparr>)], m_epollfd = 3, m_stopFd = 4,
     world = ((\<lambda>_. None)(4 := Some \<lparr>ev_events = EPOLLIN OR EPOLLET, ev_ptr = None\<rparr>,
                          5 := Some \<lparr>ev_events = EPOLLIN OR EPOLLET, ev_ptr = Some 1\<rparr>), script)\<rparr>"

definition idle_run :: "(nat, (nat, sim_world) EventLoop) runner" where
  "idle_run h s = (Ret 0, s)"

lemma demo_loop_ok: "loop_ok fst (demo_loop script)"
  by (auto simp: demo_loop_def loop_ok_def table_ok_def pending_ok_def kernel_ok_def node_addrs_def
      flagged_def split: if_splits)

lemma idle_run_good: "good_run fst idle_run" "quiet_run fst idle_run" "makes_progress idle_run (\<lambda>s. 0)"
  by (auto simp: good_run_def quiet_run_def makes_progress_def idle_run_def)

text \<open>A handler with something to do as long as the script is not used up.\<close>

definition busy_run :: "(nat, (nat, sim_world) EventLoop) runner" where
  "busy_run h s =
     (case snd (world s) of
        [] \<Rightarrow> (Ret 0, s)
      | ready # script \<Rightarrow> (Ret 1, s\<lparr>world := (fst (world s), script)\<rparr>))"

lemma loop_ok_script: "loop_ok fst s \<Longrightarrow> loop_ok fst (s\<lparr>world := (fst (world s), script)\<rparr>)"
  by (rule loop_ok_interrupted(2)) simp_all

lemma busy_run_quiet: "quiet_run fst busy_run"
  using loop_ok_script
  by (auto simp: quiet_run_def busy_run_def handlers_present_def only_masks_def same_pending_def split: list.split)

lemma busy_run_progress: "makes_progress busy_run (\<lambda>s. length (snd (world s)))"
  by (auto simp: makes_progress_def busy_run_def clear_flag_def split: list.splits)

lemma EPOLL_in_bits: "bit (EPOLLIN OR EPOLLET) 0" "\<not> bit (EPOLLIN OR EPOLLET) 2"
  by code_simp+

lemma demo_handlers_present: "handlers_present (demo_loop script)"
  by (simp add: handlers_present_def demo_loop_def)

lemma demo_wait:
  "sim_wait (world (demo_loop [[4]])) =
     (Inr [\<lparr>ev_events = EPOLLIN OR EPOLLET, ev_ptr = None\<rparr>], (fst (world (demo_loop [[4]])), []))"
  "sim_wait (world (demo_loop [[5]])) =
     (Inr [\<lparr>ev_events = EPOLLIN OR EPOLLET, ev_ptr = Some 1\<rparr>], (fst (world (demo_loop [[5]])), []))"
  by (simp_all add: sim_wait_def demo_loop_def MAXEVENTS_def)

section \<open>Properties\<close>

text \<open>
  Claim C1: whatever the interleaving of the loop with the operations of other threads outside the lock, the
  invariant holds in every reachable state and the dispatch never calls a handler through a pointer to an
  erased node, provided that the handlers keep the invariant and that no other thread erases an event between
  the return of \<open>epoll_wait\<close> and the store of its result. Erasing before the return, and between the store and
  the lock, is covered. In that window the invariant is the one of the state with the result stored.
\<close>

theorem loop_never_dangles:
  assumes "epoll_laws os interest" and "good_run interest run" and "loop_ok interest s"
    and "(loop_step os run)\<^sup>*\<^sup>* (Waiting, False, s) (pc, False, s')"
  shows "pc \<noteq> Crashed \<and> loop_ok interest (about_to_store pc s')"
  using loop_path_ok [OF assms(1,2,4)] assms(3) by (simp add: about_to_store_def)

theorem loop_never_dangles_witness:
  "loop_ok fst (snd (eraseEvent sim_os 5 (store_events [\<lparr>ev_events = EPOLLIN OR EPOLLET, ev_ptr = Some 1\<rparr>]
     (fst (world (demo_loop [[5]])), []) (demo_loop [[5]]))))"
proof -
  let ?s = "store_events [\<lparr>ev_events = EPOLLIN OR EPOLLET, ev_ptr = Some 1\<rparr>]
      (fst (world (demo_loop [[5]])), []) (demo_loop [[5]])"
  have "(loop_step sim_os idle_run)\<^sup>*\<^sup>* (Waiting, False, demo_loop [[5]]) (Stored, False, ?s)"
    by (rule fill_and_store) (simp add: sim_os_def demo_wait)
  moreover have "loop_step sim_os idle_run (Stored, False, ?s) (Stored, False, snd (eraseEvent sim_os 5 ?s))"
    using other_erase [of Stored sim_os idle_run False ?s 5] by simp
  ultimately have "(loop_step sim_os idle_run)\<^sup>*\<^sup>* (Waiting, False, demo_loop [[5]])
      (Stored, False, snd (eraseEvent sim_os 5 ?s))"
    by (rule rtranclp.rtrancl_into_rtrancl)
  from loop_never_dangles [OF sim_laws idle_run_good(1) demo_loop_ok this] show ?thesis
    by (simp add: about_to_store_def)
qed

text \<open>
  Claim C19: when \<open>execute\<close> returns, whatever the number of rounds and of interrupted waits, its result is 0 after the
  stop notification or -1 after an error of \<open>epoll_wait\<close>; it has never followed a dangling pointer or left the
  array of events, and the invariant holds again, so that it may be called once more. The handlers keep the
  invariant, and no other thread erases an event while it runs.
\<close>

theorem execute_never_undefined:
  assumes "epoll_laws os interest" and "good_run interest run" and "loop_ok interest s"
    and "execute os run s = Some (r, s')"
  shows "(r = Some 0 \<or> r = Some (- 1)) \<and> loop_ok interest s'"
proof -
  obtain c where c: "after_execute r s' c" "(loop_step os run)\<^sup>*\<^sup>* (Waiting, False, s) c"
    using execute_steps [OF assms(4)] by auto
  have "step_ok interest c" using loop_path_ok [OF assms(1,2) c(2)] assms(3) by (simp add: about_to_store_def)
  with c(1) show ?thesis by (cases r; cases c) (auto simp: about_to_store_def)
qed

text \<open>A run with a round that calls a handler, and a second one with the stop notification.\<close>

lemma demo_execute: "\<exists>s'. execute sim_os idle_run (demo_loop [[5], [4]]) = Some (Some 0, s')"
  by (simp add: execute.simps sim_os_def sim_wait_def demo_loop_def rounds.simps event_pass.simps call_handler_def
      store_events_def flag_zero_iff EPOLL_in_bits handlers_at_def idle_run_def clear_flag_def MAXEVENTS_def
      bit_simps EPOLLIN_def EPOLLET_def)

theorem execute_never_undefined_witness:
  "\<exists>s'. execute sim_os idle_run (demo_loop [[5], [4]]) = Some (Some 0, s') \<and> loop_ok fst s'"
proof -
  obtain s' where "execute sim_os idle_run (demo_loop [[5], [4]]) = Some (Some 0, s')" using demo_execute by blast
  with execute_never_undefined [OF sim_laws idle_run_good(1) demo_loop_ok this] show ?thesis by blast
qed

text \<open>
  Claim C28: when \<open>epoll_wait\<close> reports the stop notification among its events, \<open>execute\<close> returns 0 after this
  round, wherever the notification stands among them.
\<close>

theorem execute_stops:
  assumes "epoll_laws os interest" and "good_run interest run" and "loop_ok interest s"
    and "os_epoll_wait os (world s) = (Inr evs, w)" and "e \<in> set evs" and "ev_ptr e = None"
  shows "\<exists>s'. execute os run s = Some (Some 0, s')"
proof -
  let ?s = "store_events evs w s"
  obtain i where i: "i < length evs" "ev_ptr (evs ! i) = None" using assms(5,6) by (metis in_set_conv_nth)
  have ok: "loop_ok interest ?s" by (rule store_events_ok [OF assms(1,3,4)])
  have "int i < m_eventCount ?s" "ev_ptr (m_events ?s ! i) = None"
    using i by (simp_all add: store_events_def nth_append)
  then obtain s' where "event_pass run 0 0 ?s = Stopped s'"
    using loop_dispatch.event_pass_stops [of interest run ?s 0 i 0] ok assms(2) by auto
  then have "rounds run ?s = Some (Stopped s')" by (simp add: rounds.simps [of run ?s])
  then show ?thesis using assms(4) by (simp add: execute.simps [of os run s] Let_def)
qed

theorem execute_stops_witness: "\<exists>s'. execute sim_os idle_run (demo_loop [[4]]) = Some (Some 0, s')"
proof -
  let ?e = "\<lparr>ev_events = EPOLLIN OR EPOLLET, ev_ptr = None\<rparr>"
  have "os_epoll_wait sim_os (world (demo_loop [[4]])) = (Inr [?e], (fst (world (demo_loop [[4]])), []))"
    by (simp add: sim_os_def demo_wait)
  then show ?thesis
    using execute_stops [OF sim_laws idle_run_good(1) demo_loop_ok, of "[[4]]" "[?e]" _ ?e] by simp
qed

text \<open>
  After \<open>eraseEvent\<close> no pending event of the descriptor carries the input flag any more, so that
  its input handler is not called from the events that are still pending.
\<close>

theorem eraseEvent_silences:
  assumes "loop_ok interest s" and "map_of (m_eventInfos s) fd = Some (p, hs)" and "inEvent hs \<noteq> None"
    and "int i < m_eventCount s" and "ev_ptr (m_events s ! i) = Some p"
  shows "ev_events (m_events (snd (eraseEvent os fd s)) ! i) AND EPOLLIN = 0"
proof -
  obtain r w infos where e: "m_events (snd (eraseEvent os fd s)) =
      mask_pending (nat (m_eventCount s)) p r (m_events s)" and r: "r = EPOLLIN \<or> r = EPOLLIN OR EPOLLOUT"
    using assms(2,3) by (cases "outEvent hs") (auto simp: eraseEvent_def Let_def split_beta)
  have "i < length (m_events s)" and "\<forall>j < i. ev_ptr (m_events s ! j) \<noteq> Some p"
    using assms(1,4,5) unfolding loop_ok_def pending_ok_def
    by (auto, metis less_irrefl less_trans of_nat_less_iff option.distinct(1))
  then have "mask_pending (nat (m_eventCount s)) p r (m_events s) ! i =
      (m_events s ! i)\<lparr>ev_events := ev_events (m_events s ! i) AND NOT r\<rparr>"
    using nth_mask assms(4,5) by simp
  moreover have "bit r 0" using r by (auto simp: EPOLLIN_def EPOLLOUT_def bit_or_iff)
  ultimately show ?thesis unfolding e flag_zero_iff by (simp add: bit_and_iff bit_not_iff)
qed

theorem eraseEvent_silences_witness:
  "ev_events (m_events (snd (eraseEvent sim_os 5
     (store_events [\<lparr>ev_events = EPOLLIN OR EPOLLET, ev_ptr = Some 1\<rparr>]
        (fst (world (demo_loop [[5]])), []) (demo_loop [[5]])))) ! 0) AND EPOLLIN = 0"
proof (rule eraseEvent_silences [of fst _ 5 1 "\<lparr>inEvent = Some 0, outEvent = None\<rparr>"])
  show "loop_ok fst (store_events [\<lparr>ev_events = EPOLLIN OR EPOLLET, ev_ptr = Some 1\<rparr>]
      (fst (world (demo_loop [[5]])), []) (demo_loop [[5]]))"
    by (rule store_events_ok [OF sim_laws demo_loop_ok]) (simp add: sim_os_def demo_wait)
qed (simp_all add: store_events_def demo_loop_def)

text \<open>
  Claim C2: when handlers never throw, a dispatch that ends leaves no flag of any pending event set: with edge
  triggered notification nothing that was signalled is dropped before its handler reported that nothing is
  left to do.
\<close>

theorem dispatch_drains:
  assumes "quiet_run interest run" and "loop_ok interest s" and "handlers_present s"
    and "rounds run s = Some (Done left s')" and "int i < m_eventCount s'"
  shows "ev_events (m_events s' ! i) AND (EPOLLIN OR EPOLLOUT) = 0"
  using rounds_drains [OF assms(1-4)] assms(5) by (simp add: flagged_def)

lemma demo_dispatch:
  "rounds idle_run (demo_loop []\<lparr>m_eventCount := 1,
       m_events := replicate MAXEVENTS \<lparr>ev_events = EPOLLIN OR EPOLLET, ev_ptr = Some 1\<rparr>\<rparr>) =
     Some (Done 0 (clear_flag 0 EPOLLIN (demo_loop []\<lparr>m_eventCount := 1,
       m_events := replicate MAXEVENTS \<lparr>ev_events = EPOLLIN OR EPOLLET, ev_ptr = Some 1\<rparr>\<rparr>)))"
  by (simp add: rounds.simps event_pass.simps call_handler_def flag_zero_iff EPOLL_in_bits clear_flag_def
      bit_simps EPOLLIN_def MAXEVENTS_def demo_loop_def handlers_at_def idle_run_def)

theorem dispatch_drains_witness:
  "ev_events (m_events (clear_flag 0 EPOLLIN (demo_loop []\<lparr>m_eventCount := 1,
     m_events := replicate MAXEVENTS \<lparr>ev_events = EPOLLIN OR EPOLLET, ev_ptr = Some 1\<rparr>\<rparr>)) ! 0)
     AND (EPOLLIN OR EPOLLOUT) = 0"
proof (rule dispatch_drains [OF idle_run_good(2) _ _ demo_dispatch])
  let ?s = "demo_loop []\<lparr>m_eventCount := 1,
     m_events := replicate MAXEVENTS \<lparr>ev_events = EPOLLIN OR EPOLLET, ev_ptr = Some 1\<rparr>\<rparr>"
  show "loop_ok fst ?s"
    by (auto simp: demo_loop_def loop_ok_def table_ok_def pending_ok_def kernel_ok_def node_addrs_def
        MAXEVENTS_def split: if_splits)
  show "handlers_present ?s"
    by (auto simp: handlers_present_def demo_loop_def handlers_at_def flag_zero_iff EPOLL_in_bits
        MAXEVENTS_def)
qed (simp add: clear_flag_def)

text \<open>
  When the only pending handler throws, the dispatch ends with the event still flagged and the handler is
  not called again: the edge triggered event is lost.
\<close>

theorem exception_loses_event:
  assumes "m_eventCount s = 1" and "ev_ptr (m_events s ! 0) = Some p"
    and "ev_events (m_events s ! 0) = EPOLLIN" and "handlers_at p (m_eventInfos s) = Some hs"
    and "inEvent hs = Some h" and "run h s = (Throw ex, s)"
  shows "rounds run s = Some (Done 0 s) \<and> ev_events (m_events s ! 0) AND EPOLLIN \<noteq> 0"
proof -
  have bits: "bit EPOLLIN 0" "\<not> bit EPOLLIN 2" by (simp_all add: EPOLLIN_def)
  then have "call_handler run inEvent EPOLLIN 0 p 0 s = Done 0 s"
      "call_handler run outEvent EPOLLOUT 0 p 0 s = Done 0 s"
    using assms by (simp_all add: call_handler_def flag_zero_iff)
  then have "event_pass run 0 0 s = Done 0 s"
    using assms(1,2) by (simp add: event_pass.simps MAXEVENTS_def)
  moreover have "EPOLLIN \<noteq> 0" by (simp add: EPOLLIN_def)
  ultimately show ?thesis using assms(3) by (simp add: rounds.simps)
qed

theorem exception_loses_event_witness:
  "\<exists>s. rounds (\<lambda>h s. (Throw OutOfRange, s)) (s :: (nat, sim_world) EventLoop) = Some (Done 0 s)"
proof -
  let ?s = "demo_loop []\<lparr>m_eventCount := 1,
     m_events := replicate MAXEVENTS \<lparr>ev_events = EPOLLIN, ev_ptr = Some 1\<rparr>\<rparr>"
  have "rounds (\<lambda>h s. (Throw OutOfRange, s)) ?s = Some (Done 0 ?s) \<and>
      ev_events (m_events ?s ! 0) AND EPOLLIN \<noteq> 0"
    by (rule exception_loses_event [of _ 1 "\<lparr>inEvent = Some 0, outEvent = None\<rparr>" 0 _ OutOfRange])
      (simp_all add: MAXEVENTS_def demo_loop_def handlers_at_def)
  then show ?thesis by blast
qed

text \<open>
  Claim C27: when the handlers do not throw and report more to do only after having done some of a finite amount of
  work, the dispatch returns: either with the stop notification, or with every flag of every pending event
  cleared. It never follows a dangling pointer.
\<close>

theorem dispatch_terminates:
  assumes "makes_progress run work" and "quiet_run interest run" and "loop_ok interest s" and "handlers_present s"
  shows "\<exists>s'. rounds run s = Some (Stopped s') \<or> rounds run s = Some (Done 0 s') \<and>
    (\<forall>i. int i < m_eventCount s' \<longrightarrow> ev_events (m_events s' ! i) AND (EPOLLIN OR EPOLLOUT) = 0)"
  using rounds_defined [OF assms] rounds_drains [OF assms(2-4)] by (fastforce simp: flagged_def)

definition busy_loop :: "(nat, sim_world) EventLoop" where
  "busy_loop = store_events [\<lparr>ev_events = EPOLLIN OR EPOLLET, ev_ptr = Some 1\<rparr>]
     (fst (world (demo_loop [[5]])), [[5], [4]]) (demo_loop [[5]])"

lemma busy_loop_ok: "loop_ok fst busy_loop"
  using loop_ok_script [OF store_events_ok [OF sim_laws demo_loop_ok], of "[[5]]"
      "[\<lparr>ev_events = EPOLLIN OR EPOLLET, ev_ptr = Some 1\<rparr>]" "(fst (world (demo_loop [[5]])), [])" "[[5], [4]]"]
  by (simp add: sim_os_def demo_wait busy_loop_def store_events_def)

lemma busy_loop_handlers: "handlers_present busy_loop"
  by (simp add: handlers_present_def busy_loop_def store_events_def demo_loop_def handlers_at_def flag_zero_iff
      EPOLL_in_bits MAXEVENTS_def)

theorem dispatch_terminates_witness:
  "\<exists>s'. ev_events (m_events busy_loop ! 0) AND EPOLLIN \<noteq> 0 \<and> fst (busy_run 0 busy_loop) = Ret 1 \<and>
     (rounds busy_run busy_loop = Some (Stopped s') \<or> rounds busy_run busy_loop = Some (Done 0 s'))"
proof -
  have "ev_events (m_events busy_loop ! 0) AND EPOLLIN \<noteq> 0" "fst (busy_run 0 busy_loop) = Ret 1"
    by (simp_all add: busy_loop_def store_events_def busy_run_def) (simp add: EPOLLIN_def)
  then show ?thesis
    using dispatch_terminates [OF busy_run_progress busy_run_quiet busy_loop_ok busy_loop_handlers] by blast
qed

text \<open>
  \<open>addEvent\<close> and \<open>eraseEvent\<close> on one descriptor: while the kernel accepts the call, the descriptor is registered
  for input, for output exactly when it has an output handler, and with the address of its node.
\<close>

theorem addEvent_registers:
  assumes "epoll_laws os interest" and "addEvent_locked os fd h s = (0, s')"
  shows "\<exists>r p hs. interest (world s') fd = Some r \<and> map_of (m_eventInfos s') fd = Some (p, hs) \<and>
     inEvent hs = Some h \<and> ev_ptr r = Some p \<and> ev_events r AND EPOLLIN \<noteq> 0 \<and>
     (ev_events r AND EPOLLOUT \<noteq> 0 \<longleftrightarrow> outEvent hs \<noteq> None)"
proof -
  have ctl: "interest w' = (if rc = - 1 then interest w else (interest w)(fd := Some ev))"
    if "os_epoll_ctl os op fd (Some ev) w = (rc, w')" "op \<noteq> CTL_DEL" for op ev w rc w'
    using assms(1) that unfolding epoll_laws_def by blast
  have bits: "bit (EPOLLIN OR EPOLLET) 0" "\<not> bit (EPOLLIN OR EPOLLET) 2"
      "bit (EPOLLIN OR EPOLLET OR EPOLLOUT) 0" "bit (EPOLLIN OR EPOLLET OR EPOLLOUT) 2"
    by code_simp+
  show ?thesis
    using assms(2) bits
    by (auto simp: addEvent_locked_def flag_zero_iff update_conv' Let_def split: option.splits prod.splits if_splits
        dest!: ctl)
qed

theorem addEvent_registers_witness:
  "\<exists>r. fst (world (snd (addEvent_locked sim_os 6 7 (demo_loop [])))) 6 = Some r \<and> ev_events r AND EPOLLIN \<noteq> 0"
proof -
  have "fst (addEvent_locked sim_os 6 7 (demo_loop [])) = 0"
    by (simp add: addEvent_locked_def demo_loop_def sim_os_def sim_ctl_def)
  then have "addEvent_locked sim_os 6 7 (demo_loop []) = (0, snd (addEvent_locked sim_os 6 7 (demo_loop [])))"
    by (metis prod.collapse)
  from addEvent_registers [OF sim_laws this] show ?thesis by blast
qed

section \<open>The window before the lock\<close>

lemma event_pass_dangling:
  assumes "m_eventCount s = 1" and "m_events s ! 0 = e" and "ev_ptr e = Some p" and "bit (ev_events e) 0"
    and "m_eventInfos s = []"
  shows "event_pass run 0 0 s = Undefined"
  using assms
  by (simp add: event_pass.simps call_handler_def flag_zero_iff handlers_at_def MAXEVENTS_def)

text \<open>
  Claim C29: there is a state that satisfies the invariant, with handlers that do nothing but return, from which
  erasing an event between the return of \<open>epoll_wait\<close> and the store of its result makes the
  dispatch follow a pointer to the erased node.
\<close>

theorem erase_race:
  "\<exists>s s'. loop_ok fst s \<and> good_run fst idle_run \<and>
     (loop_step sim_os idle_run)\<^sup>*\<^sup>* (Waiting, False, s) (Crashed, True, s')"
proof -
  let ?e = "\<lparr>ev_events = EPOLLIN OR EPOLLET, ev_ptr = Some 1\<rparr>"
  let ?s0 = "demo_loop [[5]]"
  let ?s1 = "?s0\<lparr>m_events := [?e] @ drop (length [?e]) (m_events ?s0), world := (fst (world ?s0), [])\<rparr>"
  let ?s2 = "snd (eraseEvent sim_os 5 ?s1)"
  let ?s3 = "?s2\<lparr>m_eventCount := int (length [?e])\<rparr>"
  let ?n = "int (length [?e])"
  have 1: "loop_step sim_os idle_run (Waiting, False, ?s0) (Filled ?n, False, ?s1)"
    by (rule wait_filled) (simp add: sim_os_def demo_wait)
  have 2: "loop_step sim_os idle_run (Filled ?n, False, ?s1) (Filled ?n, True, ?s2)"
    using other_erase [of "Filled ?n" sim_os idle_run False ?s1 5] by simp
  have 3: "loop_step sim_os idle_run (Filled ?n, True, ?s2) (Stored, True, ?s3)" by (rule store_count)
  have 4: "loop_step sim_os idle_run (Stored, True, ?s3) (Dispatching, True, ?s3)" by (rule lock)
  have "m_events ?s3 ! 0 = ?e" "m_eventInfos ?s3 = []"
    by (simp_all add: eraseEvent_def demo_loop_def Let_def split_beta)
  then have "event_pass idle_run 0 0 ?s3 = Undefined"
    using EPOLL_in_bits(1) by (intro event_pass_dangling [of _ ?e 1]) simp_all
  then have 5: "loop_step sim_os idle_run (Dispatching, True, ?s3) (Crashed, True, ?s3)" by (rule pass_undefined)
  have "(loop_step sim_os idle_run)\<^sup>*\<^sup>* (Waiting, False, ?s0) (Crashed, True, ?s3)"
    using 1 2 3 4 5 by (meson converse_rtranclp_into_rtranclp r_into_rtranclp)
  then show ?thesis using demo_loop_ok idle_run_good(1) by blast
qed

end
