(* ===== verification/LoopClient.thy ===== *)
theory LoopClient
  imports EventLoopBehaviour
begin

text \<open>
  What the classes that register with the event loop share. Their objects live in the world of the loop, because
  handlers and user callbacks may change them at any time: a \<open>ref\<close> is the pointer \<open>this\<close>, with reading and
  assigning the object behind it. A computation returns an outcome with the new state, or does not return.
\<close>

record ('w, 'o) ref =
  deref :: "'w \<Rightarrow> 'o"
  assign :: "'o \<Rightarrow> 'w \<Rightarrow> 'w"

definition ref_laws :: "('w, 'o) ref \<Rightarrow> bool" where
  "ref_laws this \<longleftrightarrow> (\<forall>ob w. deref this (assign this ob w) = ob) \<and>
     (\<forall>w. assign this (deref this w) w = w) \<and>
     (\<forall>ob ob' w. assign this ob (assign this ob' w) = assign this ob w)"

definition obj :: "('w, 'o) ref \<Rightarrow> ('h, 'w) EventLoop \<Rightarrow> 'o" where
  "obj this s = deref this (world s)"

definition set_obj :: "('w, 'o) ref \<Rightarrow> 'o \<Rightarrow> ('h, 'w) EventLoop \<Rightarrow> ('h, 'w) EventLoop" where
  "set_obj this ob s = s\<lparr>world := assign this ob (world s)\<rparr>"

text \<open>A system call on the world of the loop.\<close>

definition sys :: "('w \<Rightarrow> 'a \<times> 'w) \<Rightarrow> ('h, 'w) EventLoop \<Rightarrow> 'a \<times> ('h, 'w) EventLoop" where
  "sys call s = (case call (world s) of (x, w) \<Rightarrow> (x, s\<lparr>world := w\<rparr>))"

definition andThen :: "(outcome \<times> 's) option \<Rightarrow> (int \<Rightarrow> 's \<Rightarrow> (outcome \<times> 's) option) \<Rightarrow>
    (outcome \<times> 's) option" where
  "andThen m k =
     (case m of
        None \<Rightarrow> None
      | Some (Throw ex, s) \<Rightarrow> Some (Throw ex, s)
      | Some (Ret r, s) \<Rightarrow> k r s)"

text \<open>
  A \<open>std::function\<close> member of a class: empty, the file's own function that does nothing, or a
  function of the user. Calling an empty one throws.
\<close>

datatype 'c callback = NoFunction | Nop | User 'c

definition invoke :: "('c \<Rightarrow> 's \<Rightarrow> outcome \<times> 's) \<Rightarrow> 'c callback \<Rightarrow> 's \<Rightarrow> outcome \<times> 's" where
  "invoke user cb s =
     (case cb of
        NoFunction \<Rightarrow> (Throw BadFunctionCall, s)
      | Nop \<Rightarrow> (Ret 0, s)
      | User c \<Rightarrow> user c s)"

lemma world_sys: "sys call s = (x, s') \<Longrightarrow> call (world s) = (x, world s') \<and> s' = s\<lparr>world := world s'\<rparr>"
  by (auto simp: sys_def split: prod.splits)

lemma in_handler_world [simp]: "in_handler (s\<lparr>world := w\<rparr>) = in_handler s"
  by (simp add: in_handler_def fun_eq_iff)

lemma out_handler_world [simp]: "out_handler (s\<lparr>world := w\<rparr>) = out_handler s"
  by (simp add: out_handler_def fun_eq_iff)

lemma in_handler_set_obj [simp]: "in_handler (set_obj this ob s) = in_handler s"
  by (simp add: set_obj_def)

lemma in_handler_sys: "sys call s = (x, s') \<Longrightarrow> in_handler s' = in_handler s"
  by (auto simp: sys_def split: prod.splits)

lemma obj_set_obj: "ref_laws this \<Longrightarrow> obj this (set_obj this ob s) = ob"
  by (simp add: obj_def set_obj_def ref_laws_def)

lemma out_handler_set_obj [simp]: "out_handler (set_obj this ob s) = out_handler s"
  by (simp add: set_obj_def)

lemma out_handler_sys: "sys call s = (x, s') \<Longrightarrow> out_handler s' = out_handler s"
  by (auto simp: sys_def split: prod.splits)

text \<open>A system call that leaves the object alone; \<open>epoll_keeps\<close> says so of \<open>epoll_ctl\<close>.\<close>

definition keeps :: "('w, 'o) ref \<Rightarrow> ('w \<Rightarrow> 'a \<times> 'w) \<Rightarrow> bool" where
  "keeps this call \<longleftrightarrow> (\<forall>w. deref this (snd (call w)) = deref this w)"

definition epoll_keeps :: "'w epoll_os \<Rightarrow> ('w, 'o) ref \<Rightarrow> bool" where
  "epoll_keeps os this \<longleftrightarrow> (\<forall>op fd ev. keeps this (os_epoll_ctl os op fd ev))"

lemma deref_keeps: "keeps this call \<Longrightarrow> deref this (snd (call w)) = deref this w"
  by (simp add: keeps_def)

lemma obj_sys: "keeps this call \<Longrightarrow> obj this (snd (sys call s)) = obj this s"
  by (simp add: keeps_def sys_def obj_def split_beta)

lemma handlers_sys [simp]:
  "in_handler (snd (sys call s)) = in_handler s" "out_handler (snd (sys call s)) = out_handler s"
  by (simp_all add: sys_def split_beta)

lemma epoll_keepsD: "epoll_keeps os this \<Longrightarrow> os_epoll_ctl os op fd ev w = (rc, w') \<Longrightarrow> deref this w' = deref this w"
  by (metis epoll_keeps_def keeps_def snd_conv)

lemma obj_loop_ops:
  assumes "epoll_keeps os this"
  shows "obj this (snd (eraseEvent os fd s)) = obj this s"
    and "obj this (snd (eraseOutEvent os fd s)) = obj this s"
    and "obj this (snd (addEvent_locked os fd h s)) = obj this s"
    and "obj this (snd (addOutEvent_locked os fd h s)) = obj this s"
  using epoll_keepsD [OF assms]
  by (auto simp: obj_def eraseEvent_def eraseOutEvent_def addEvent_locked_def addOutEvent_locked_def Let_def
      split: option.splits prod.splits if_splits)

text \<open>When the handler has nothing to do, \<open>addEvent\<close> only registers it.\<close>

lemma addEvent_idle:
  assumes "fd \<noteq> - 1" and "addEvent_locked os fd h s = (rc, s1)"
    and "rc \<noteq> - 1 \<Longrightarrow> run h s1 = (Ret r, s2)" and "r \<le> 0"
  shows "addEvent os run fd (Some h) s = (if rc = - 1 then Some (Ret (- 1), s1) else Some (Ret 0, s2))"
  using assms by (auto simp: addEvent_def drain.simps [of run h s1])

end
