(* ===== verification/Timer.thy ===== *)
theory Timer
  imports LoopClient
begin

text \<open>
  \<open>lib/sys/linux/timer.cpp\<close>: a timer on a \<open>timerfd\<close>. The system calls are the record \<open>timer_os\<close>; \<open>user c fired\<close>
  runs a callback of the user. The default callback of the file is \<open>Nop\<close>.
\<close>

section \<open>The data and operations\<close>

record itimerspec =
  it_interval_sec :: "32 word"
  it_interval_nsec :: "32 word"
  it_value_sec :: "32 word"
  it_value_nsec :: "32 word"

definition zero_spec :: itimerspec where
  "zero_spec = \<lparr>it_interval_sec = 0, it_interval_nsec = 0, it_value_sec = 0, it_value_nsec = 0\<rparr>"

text \<open>\<open>t_gettime\<close> is \<open>None\<close> on failure, \<open>t_read8\<close> returns the number of bytes read.\<close>

record 'w timer_os =
  t_create :: "'w \<Rightarrow> int \<times> 'w"
  t_settime :: "int \<Rightarrow> itimerspec \<Rightarrow> 'w \<Rightarrow> int \<times> 'w"
  t_gettime :: "int \<Rightarrow> 'w \<Rightarrow> itimerspec option \<times> 'w"
  t_read8 :: "int \<Rightarrow> 'w \<Rightarrow> int \<times> 'w"
  t_close :: "int \<Rightarrow> 'w \<Rightarrow> int \<times> 'w"
  t_strerror :: "'w \<Rightarrow> string"

record 'c Timer =
  timer_fd :: int
  timer_handler :: "'c callback"

type_synonym ('c, 'h, 'w) timer_cb = "'c \<Rightarrow> bool \<Rightarrow> ('h, 'w) EventLoop \<Rightarrow> outcome \<times> ('h, 'w) EventLoop"

text \<open>The constructor: \<open>h\<close> is the handler that \<open>std::bind(&Timer::process, this)\<close> makes.\<close>

definition Timer_ctor :: "'w epoll_os \<Rightarrow> 'w timer_os \<Rightarrow> ('h, ('h, 'w) EventLoop) runner \<Rightarrow> 'h \<Rightarrow>
    ('w, 'c Timer) ref \<Rightarrow> ('h, 'w) EventLoop \<Rightarrow> (outcome \<times> ('h, 'w) EventLoop) option" where
  "Timer_ctor os tos run h this s =
     (let (fd, s) = sys (t_create tos) s;
          s = set_obj this \<lparr>timer_fd = fd, timer_handler = Nop\<rparr> s in
      if fd < 0
      then Some (Throw (HbmException (''could not create timer fd '' @ [char_of (39::nat)] @
                   t_strerror tos (world s) @ [char_of (39::nat)])), s)
      else andThen (addEvent os run fd (Some h) s) (\<lambda>r s.
        if r < 0 then Some (Throw (HbmException ''could not add timer to event loop''), s)
        else Some (Ret 0, s)))"

definition Timer_dtor :: "'w epoll_os \<Rightarrow> 'w timer_os \<Rightarrow> ('w, 'c Timer) ref \<Rightarrow> ('h, 'w) EventLoop \<Rightarrow>
    ('h, 'w) EventLoop" where
  "Timer_dtor os tos this s =
     (let (_, s) = eraseEvent os (timer_fd (obj this s)) s;
          (_, s) = sys (t_close tos (timer_fd (obj this s))) s in s)"

definition timer_spec :: "32 word \<Rightarrow> bool \<Rightarrow> itimerspec" where
  "timer_spec period_ms repeated =
     (let period_s = period_ms div 1000; rest = period_ms mod 1000;
          spec = zero_spec\<lparr>it_value_sec := period_s, it_value_nsec := rest * 1000 * 1000\<rparr> in
      if repeated then spec\<lparr>it_interval_sec := period_s, it_interval_nsec := rest * 1000 * 1000\<rparr> else spec)"

definition Timer_set :: "'w timer_os \<Rightarrow> 32 word \<Rightarrow> bool \<Rightarrow> 'c callback \<Rightarrow> ('w, 'c Timer) ref \<Rightarrow>
    ('h, 'w) EventLoop \<Rightarrow> int \<times> ('h, 'w) EventLoop" where
  "Timer_set tos period_ms repeated eventHandler this s =
     (if period_ms = 0 then (- 1, s)
      else let self = obj this s;
               s = (if timer_handler self \<noteq> NoFunction
                    then set_obj this (self\<lparr>timer_handler := eventHandler\<rparr>) s
                    else set_obj this (self\<lparr>timer_handler := Nop\<rparr>) s)
           in sys (t_settime tos (timer_fd self) (timer_spec period_ms repeated)) s)"

text \<open>The overload on \<open>std::chrono::milliseconds\<close>, whose count has 64 bits.\<close>

definition Timer_set_chrono :: "'w timer_os \<Rightarrow> 64 word \<Rightarrow> bool \<Rightarrow> 'c callback \<Rightarrow> ('w, 'c Timer) ref \<Rightarrow>
    ('h, 'w) EventLoop \<Rightarrow> int \<times> ('h, 'w) EventLoop" where
  "Timer_set_chrono tos period repeated eventHandler this s =
     Timer_set tos (ucast period) repeated eventHandler this s"

definition Timer_cancel :: "'w timer_os \<Rightarrow> ('c, 'h, 'w) timer_cb \<Rightarrow> ('w, 'c Timer) ref \<Rightarrow>
    ('h, 'w) EventLoop \<Rightarrow> outcome \<times> ('h, 'w) EventLoop" where
  "Timer_cancel tos user this s =
     (let originalEventHandler = timer_handler (obj this s);
          s = set_obj this ((obj this s)\<lparr>timer_handler := Nop\<rparr>) s;
          (spec, s) = sys (t_gettime tos (timer_fd (obj this s))) s in
      case spec of
        None \<Rightarrow> (Ret (- 1), s)
      | Some spec \<Rightarrow>
          (let (result, retval, s) =
             (if it_value_sec spec \<noteq> 0 \<or> it_value_nsec spec \<noteq> 0 then
                (let (result, s) = (if originalEventHandler \<noteq> NoFunction
                      then invoke (\<lambda>c. user c False) originalEventHandler s else (Ret 0, s))
                 in (result, 1, s))
              else (Ret 0, 0, s)) in
           case result of
             Throw ex \<Rightarrow> (Throw ex, s)
           | Ret _ \<Rightarrow>
               (let (_, s) = sys (t_settime tos (timer_fd (obj this s)) zero_spec) s in (Ret retval, s))))"

definition Timer_process :: "'w timer_os \<Rightarrow> ('c, 'h, 'w) timer_cb \<Rightarrow> ('w, 'c Timer) ref \<Rightarrow>
    ('h, 'w) EventLoop \<Rightarrow> outcome \<times> ('h, 'w) EventLoop" where
  "Timer_process tos user this s =
     (let (result, s) = sys (t_read8 tos (timer_fd (obj this s))) s in
      if result = 8 then
        (case invoke (\<lambda>c. user c True) (timer_handler (obj this s)) s of
           (Throw ex, s) \<Rightarrow> (Throw ex, s)
         | (Ret _, s) \<Rightarrow> (Ret 0, s))
      else (Ret 0, s))"

section \<open>Facts\<close>

text \<open>System calls on the timer leave the object alone.\<close>

definition timer_frame :: "'w timer_os \<Rightarrow> ('w, 'c Timer) ref \<Rightarrow> bool" where
  "timer_frame tos this \<longleftrightarrow> ref_laws this \<and>
     (\<forall>w. deref this (snd (t_create tos w)) = deref this w) \<and>
     (\<forall>fd w. deref this (snd (t_read8 tos fd w)) = deref this w) \<and>
     (\<forall>fd spec w. deref this (snd (t_settime tos fd spec w)) = deref this w) \<and>
     (\<forall>fd w. deref this (snd (t_gettime tos fd w)) = deref this w)"

lemma timer_frame_obj:
  assumes "timer_frame tos this"
  shows "sys (t_read8 tos fd) s = (x, s') \<Longrightarrow> obj this s' = obj this s"
    and "sys (t_settime tos fd spec) s = (y, s') \<Longrightarrow> obj this s' = obj this s"
    and "sys (t_gettime tos fd) s = (z, s') \<Longrightarrow> obj this s' = obj this s"
    and "ref_laws this"
  using assms by (auto simp: timer_frame_def sys_def obj_def split: prod.splits dest: arg_cong [of _ _ snd])
    (metis snd_conv)+

lemma Timer_set_obj:
  assumes "timer_frame tos this" and "p \<noteq> 0" and "Timer_set tos p rep cb this s = (rc, s')"
  shows "obj this s' = (obj this s)\<lparr>timer_handler :=
    if timer_handler (obj this s) \<noteq> NoFunction then cb else Nop\<rparr>"
proof -
  let ?ob = "(obj this s)\<lparr>timer_handler := if timer_handler (obj this s) \<noteq> NoFunction then cb else Nop\<rparr>"
  have "sys (t_settime tos (timer_fd (obj this s)) (timer_spec p rep)) (set_obj this ?ob s) = (rc, s')"
    using assms(2,3) by (simp add: Timer_set_def Let_def split: if_splits)
  then have "obj this s' = obj this (set_obj this ?ob s)" by (rule timer_frame_obj(2) [OF assms(1)])
  then show ?thesis by (simp add: obj_set_obj [OF timer_frame_obj(4) [OF assms(1)]])
qed

lemma timer_spec_value:
  "unat (it_value_sec (timer_spec p rep)) = unat p div 1000"
  "unat (it_value_nsec (timer_spec p rep)) = unat p mod 1000 * 1000000"
proof -
  have "unat (p mod 1000 * 1000 * 1000) = unat p mod 1000 * 1000000"
  proof -
    have m: "unat (p mod 1000) = unat p mod 1000" by (simp add: unat_mod)
    then have "unat (p mod 1000) < 1000" by simp
    then have "unat (p mod 1000 * 1000) = unat (p mod 1000) * 1000"
      by (subst unat_mult_lem [THEN iffD1]) simp_all
    moreover from this \<open>unat (p mod 1000) < 1000\<close>
    have "unat (p mod 1000 * 1000 * 1000) = unat (p mod 1000 * 1000) * 1000"
      by (subst unat_mult_lem [THEN iffD1]) simp_all
    ultimately show ?thesis using m by simp
  qed
  then show "unat (it_value_nsec (timer_spec p rep)) = unat p mod 1000 * 1000000"
    by (simp add: timer_spec_def zero_spec_def Let_def)
  show "unat (it_value_sec (timer_spec p rep)) = unat p div 1000"
    by (simp add: timer_spec_def zero_spec_def Let_def unat_div)
qed

section \<open>A concrete timer\<close>

text \<open>The timer object and whether the descriptor is armed; the loop has no handlers.\<close>

type_synonym timer_world = "unit Timer \<times> bool"

definition demo_timer_os :: "timer_world timer_os" where
  "demo_timer_os = \<lparr>t_create = (\<lambda>w. (5, w)),
     t_settime = (\<lambda>fd spec (t, armed). (0, t, spec \<noteq> zero_spec)),
     t_gettime = (\<lambda>fd (t, armed). (Some (zero_spec\<lparr>it_value_sec := (if armed then 1 else 0)\<rparr>), t, armed)),
     t_read8 = (\<lambda>fd w. (8, w)), t_close = (\<lambda>fd w. (0, w)), t_strerror = (\<lambda>w. [])\<rparr>"

definition demo_timer :: "(timer_world, unit Timer) ref" where
  "demo_timer = \<lparr>deref = fst, assign = (\<lambda>t w. (t, snd w))\<rparr>"

definition timer_loop :: "unit callback \<Rightarrow> bool \<Rightarrow> (unit, timer_world) EventLoop" where
  "timer_loop cb armed = \<lparr>m_events = replicate MAXEVENTS \<lparr>ev_events = 0, ev_ptr = None\<rparr>, m_eventCount = 0,
     m_eventInfos = [], m_epollfd = 3, m_stopFd = 4, world = (\<lparr>timer_fd = 5, timer_handler = cb\<rparr>, armed)\<rparr>"

lemma demo_timer_frame: "timer_frame demo_timer_os demo_timer"
  by (auto simp: timer_frame_def ref_laws_def demo_timer_os_def demo_timer_def)

section \<open>Properties\<close>

text \<open>
  The time the kernel is given is the period exactly: seconds and nanoseconds add up to the period in
  milliseconds, without overflow in the 32-bit arithmetic, and the nanoseconds are in range.
\<close>

theorem timer_spec_exact:
  "unat (it_value_sec (timer_spec p rep)) * 10 ^ 9 + unat (it_value_nsec (timer_spec p rep)) = unat p * 10 ^ 6 \<and>
   unat (it_value_nsec (timer_spec p rep)) < 10 ^ 9"
proof -
  have "1000 * (unat p div 1000) + unat p mod 1000 = unat p" and "unat p mod 1000 < 1000" by simp_all
  then have "unat p div 1000 * 1000000000 + unat p mod 1000 * 1000000 = unat p * 1000000"
      "unat p mod 1000 * 1000000 < 1000000000" by linarith+
  then show ?thesis by (simp add: timer_spec_value)
qed

text \<open>
  \<open>set\<close> tests the handler it replaces instead of the new one: after setting an empty handler, the next
  \<open>set\<close> ignores its handler, and the timer is left with the default handler that does nothing.
\<close>

theorem Timer_set_ignores_handler:
  assumes "timer_frame tos this" and "timer_handler (obj this s) \<noteq> NoFunction" and "p \<noteq> 0" and "q \<noteq> 0"
    and "Timer_set tos p rep NoFunction this s = (rc, s1)" and "Timer_set tos q rep' (User c) this s1 = (rc', s2)"
  shows "timer_handler (obj this s2) = Nop"
proof -
  have "timer_handler (obj this s1) = NoFunction"
    using Timer_set_obj [OF assms(1,3,5)] assms(2) by simp
  then show ?thesis using Timer_set_obj [OF assms(1,4,6)] by simp
qed

theorem Timer_set_ignores_handler_witness:
  "timer_handler (obj demo_timer (snd (Timer_set demo_timer_os 10 False (User ()) demo_timer
     (snd (Timer_set demo_timer_os 10 False NoFunction demo_timer (timer_loop Nop False)))))) = Nop"
  by (rule Timer_set_ignores_handler [OF demo_timer_frame _ _ _ prod.collapse [symmetric] prod.collapse [symmetric]])
    (simp_all add: timer_loop_def obj_def demo_timer_def)

text \<open>
  A timer is not armed after \<open>cancel\<close> of a running timer, whatever the callback of the user did: setting
  the timer again from the callback that \<open>cancel\<close> runs has no effect, although \<open>set\<close> reported success.
\<close>

theorem Timer_cancel_disarms:
  assumes "timer_frame tos this" and "\<forall>fd w. \<not> armed (snd (t_settime tos fd zero_spec w)) fd"
    and "Timer_cancel tos user this s = (Ret r, s')" and "r \<noteq> - 1"
  shows "\<not> armed (world s') (timer_fd (obj this s'))"
proof -
  obtain s1 x where "sys (t_settime tos (timer_fd (obj this s1)) zero_spec) s1 = (x, s')"
    using assms(3,4)
    by (auto simp: Timer_cancel_def Let_def split: prod.splits option.splits outcome.splits if_splits)
  moreover from this have "obj this s' = obj this s1" by (rule timer_frame_obj(2) [OF assms(1)])
  ultimately show ?thesis
    using world_sys [of "t_settime tos (timer_fd (obj this s1)) zero_spec" s1 x s'] assms(2) by (metis snd_conv)
qed

theorem Timer_cancel_disarms_witness:
  "\<not> snd (world (snd (Timer_cancel demo_timer_os
      (\<lambda>c fired s. case Timer_set demo_timer_os 10 False (User ()) demo_timer s of (r, s) \<Rightarrow> (Ret 0, s))
      demo_timer (timer_loop (User ()) True))))"
proof -
  let ?user = "\<lambda>c fired s. case Timer_set demo_timer_os 10 False (User ()) demo_timer s of (r, s) \<Rightarrow> (Ret 0, s)"
  have "fst (Timer_cancel demo_timer_os ?user demo_timer (timer_loop (User ()) True)) = Ret 1"
    by (simp add: Timer_cancel_def Timer_set_def timer_loop_def demo_timer_def demo_timer_os_def obj_def
        set_obj_def sys_def invoke_def zero_spec_def)
  then have "Timer_cancel demo_timer_os ?user demo_timer (timer_loop (User ()) True) =
      (Ret 1, snd (Timer_cancel demo_timer_os ?user demo_timer (timer_loop (User ()) True)))"
    by (metis prod.collapse)
  from Timer_cancel_disarms [OF demo_timer_frame _ this, of "\<lambda>w fd. snd w"] show ?thesis
    by (simp add: demo_timer_os_def split_beta)
qed

end
