(* ===== verification/Notifier.thy ===== *)
theory Notifier
  imports LoopClient
begin

text \<open>
  \<open>lib/sys/linux/notifier.cpp\<close>: notification of the event loop through an \<open>eventfd\<close>, whose counter the
  kernel keeps. The system calls are the record \<open>notifier_os\<close>, \<open>user c\<close> runs a callback of the user.
\<close>

section \<open>The data and operations\<close>

text \<open>\<open>n_write8\<close> and \<open>n_read8\<close> return the number of bytes transferred or \<open>-1\<close>.\<close>

record 'w notifier_os =
  n_eventfd :: "'w \<Rightarrow> int \<times> 'w"
  n_write8 :: "int \<Rightarrow> 64 word \<Rightarrow> 'w \<Rightarrow> int \<times> 'w"
  n_read8 :: "int \<Rightarrow> 'w \<Rightarrow> (int \<times> 64 word) \<times> 'w"
  n_close :: "int \<Rightarrow> 'w \<Rightarrow> int \<times> 'w"

record 'c Notifier =
  notifier_fd :: int
  notifier_handler :: "'c callback"

type_synonym ('c, 'h, 'w) notifier_cb = "'c \<Rightarrow> ('h, 'w) EventLoop \<Rightarrow> outcome \<times> ('h, 'w) EventLoop"

definition Notifier_ctor :: "'w epoll_os \<Rightarrow> 'w notifier_os \<Rightarrow> ('h, ('h, 'w) EventLoop) runner \<Rightarrow> 'h \<Rightarrow>
    ('w, 'c Notifier) ref \<Rightarrow> ('h, 'w) EventLoop \<Rightarrow> (outcome \<times> ('h, 'w) EventLoop) option" where
  "Notifier_ctor os nos run h this s =
     (let (fd, s) = sys (n_eventfd nos) s;
          s = set_obj this \<lparr>notifier_fd = fd, notifier_handler = Nop\<rparr> s in
      if fd < 0 then Some (Throw (HbmException ''could not create event fd''), s)
      else andThen (addEvent os run fd (Some h) s) (\<lambda>r s.
        if r < 0 then Some (Throw (HbmException ''could not add notifier to event loop''), s)
        else Some (Ret 0, s)))"

definition Notifier_dtor :: "'w epoll_os \<Rightarrow> 'w notifier_os \<Rightarrow> ('w, 'c Notifier) ref \<Rightarrow> ('h, 'w) EventLoop \<Rightarrow>
    ('h, 'w) EventLoop" where
  "Notifier_dtor os nos this s =
     (let (_, s) = eraseEvent os (notifier_fd (obj this s)) s;
          (_, s) = sys (n_close nos (notifier_fd (obj this s))) s in s)"

definition Notifier_set :: "'c callback \<Rightarrow> ('w, 'c Notifier) ref \<Rightarrow> ('h, 'w) EventLoop \<Rightarrow>
    int \<times> ('h, 'w) EventLoop" where
  "Notifier_set eventHandler this s =
     (if eventHandler \<noteq> NoFunction
      then (0, set_obj this ((obj this s)\<lparr>notifier_handler := eventHandler\<rparr>) s)
      else (0, set_obj this ((obj this s)\<lparr>notifier_handler := Nop\<rparr>) s))"

definition Notifier_notify :: "'w notifier_os \<Rightarrow> ('w, 'c Notifier) ref \<Rightarrow> ('h, 'w) EventLoop \<Rightarrow>
    int \<times> ('h, 'w) EventLoop" where
  "Notifier_notify nos this s = sys (n_write8 nos (notifier_fd (obj this s)) 1) s"

text \<open>The handler member is read again in each turn, because the callback may replace it.\<close>

fun notify_loop :: "('c, 'h, 'w) notifier_cb \<Rightarrow> ('w, 'c Notifier) ref \<Rightarrow> nat \<Rightarrow> ('h, 'w) EventLoop \<Rightarrow>
    outcome \<times> ('h, 'w) EventLoop" where
  "notify_loop user this 0 s = (Ret 0, s)"
| "notify_loop user this (Suc n) s =
     (case invoke user (notifier_handler (obj this s)) s of
        (Throw ex, s) \<Rightarrow> (Throw ex, s)
      | (Ret _, s) \<Rightarrow> notify_loop user this n s)"

definition Notifier_process :: "'w notifier_os \<Rightarrow> ('c, 'h, 'w) notifier_cb \<Rightarrow> ('w, 'c Notifier) ref \<Rightarrow>
    ('h, 'w) EventLoop \<Rightarrow> outcome \<times> ('h, 'w) EventLoop" where
  "Notifier_process nos user this s =
     (let ((result, eventCount), s) = sys (n_read8 nos (notifier_fd (obj this s))) s in
      if result \<noteq> 8 then (Ret (- 1), s)
      else notify_loop user this (unat eventCount) s)"

section \<open>Counting notifications\<close>

text \<open>
  The documented \<open>eventfd\<close>: a write adds to the counter, a read returns it and resets it. Only the counter changes.
\<close>

definition counter_laws :: "'w notifier_os \<Rightarrow> ('w, 'c Notifier) ref \<Rightarrow> ('w \<Rightarrow> 64 word) \<Rightarrow> bool" where
  "counter_laws nos this counter \<longleftrightarrow>
     (\<forall>fd v w. unat (counter w) + unat v < 2 ^ 64 - 1 \<longrightarrow>
        fst (n_write8 nos fd v w) = 8 \<and> counter (snd (n_write8 nos fd v w)) = counter w + v) \<and>
     (\<forall>fd v w. deref this (snd (n_write8 nos fd v w)) = deref this w) \<and>
     (\<forall>fd w. counter w \<noteq> 0 \<longrightarrow> fst (n_read8 nos fd w) = (8, counter w)) \<and>
     (\<forall>fd w. deref this (snd (n_read8 nos fd w)) = deref this w)"

fun notify_times :: "'w notifier_os \<Rightarrow> ('w, 'c Notifier) ref \<Rightarrow> nat \<Rightarrow> ('h, 'w) EventLoop \<Rightarrow> ('h, 'w) EventLoop" where
  "notify_times nos this 0 s = s"
| "notify_times nos this (Suc n) s = notify_times nos this n (snd (Notifier_notify nos this s))"

lemma notify_counts:
  assumes "counter_laws nos this counter"
  shows "unat (counter (world s)) + n < 2 ^ 64 - 1 \<Longrightarrow>
    counter (world (notify_times nos this n s)) = counter (world s) + of_nat n \<and>
    obj this (notify_times nos this n s) = obj this s"
proof (induction n arbitrary: s)
  case (Suc n)
  let ?s = "snd (Notifier_notify nos this s)"
  have c: "counter (world ?s) = counter (world s) + 1" and ob: "obj this ?s = obj this s"
    using assms Suc.prems
    by (auto simp: counter_laws_def Notifier_notify_def sys_def obj_def split_beta)
  have "unat (counter (world s) + 1) = unat (counter (world s)) + 1"
    using Suc.prems by (subst unat_add_lem [THEN iffD1]) simp_all
  then have "unat (counter (world ?s)) + n < 2 ^ 64 - 1" using Suc.prems c by simp
  from Suc.IH [OF this] c ob show ?case by simp
qed simp

text \<open>A callback that returns and leaves the notifier alone is executed as often as counted.\<close>

lemma notify_loop_times:
  assumes "\<And>s. \<exists>r. user c s = (Ret r, f s) \<and> obj this (f s) = obj this s"
  shows "notifier_handler (obj this s) = User c \<Longrightarrow> notify_loop user this n s = (Ret 0, (f ^^ n) s)"
proof (induction n arbitrary: s)
  case (Suc n)
  obtain r where "user c s = (Ret r, f s)" "obj this (f s) = obj this s" using assms by blast
  then show ?case using Suc by (simp add: invoke_def funpow_swap1)
qed simp

section \<open>Properties\<close>

text \<open>
  After n notifications of an idle notifier, n > 0, one call of \<open>process\<close> executes the callback exactly
  n times and returns 0, as the class documents.
\<close>

theorem Notifier_counts:
  assumes "counter_laws nos this counter" and "counter (world s) = 0" and "0 < n" and "n < 2 ^ 64 - 1"
    and "notifier_handler (obj this s) = User c"
    and "\<forall>s. \<exists>r. user c s = (Ret r, f s) \<and> obj this (f s) = obj this s"
  shows "\<exists>s1. Notifier_process nos user this (notify_times nos this n s) = (Ret 0, (f ^^ n) s1)"
proof -
  let ?s = "notify_times nos this n s"
  have cnt: "counter (world ?s) = of_nat n" and ob: "obj this ?s = obj this s"
    using notify_counts [OF assms(1), of s n] assms(2,4) by simp_all
  have un: "unat (of_nat n :: 64 word) = n" using assms(4) by (intro unat_of_nat_small) simp
  then have "counter (world ?s) \<noteq> 0" using cnt assms(3) by (metis unat_0 less_irrefl)
  then obtain w where r: "n_read8 nos (notifier_fd (obj this ?s)) (world ?s) = ((8, of_nat n), w)"
    using assms(1) cnt by (metis counter_laws_def prod.collapse)
  have "deref this w = deref this (world ?s)" using assms(1) r unfolding counter_laws_def by (metis snd_conv)
  then have "notifier_handler (obj this (?s\<lparr>world := w\<rparr>)) = User c" using ob assms(5) by (simp add: obj_def)
  then have "notify_loop user this n (?s\<lparr>world := w\<rparr>) = (Ret 0, (f ^^ n) (?s\<lparr>world := w\<rparr>))"
    using assms(6) by (intro notify_loop_times) blast+
  then show ?thesis using r un by (auto simp: Notifier_process_def sys_def)
qed

text \<open>A notifier, the counter of its descriptor, and how often its callback ran.\<close>

type_synonym notifier_world = "unit Notifier \<times> 64 word \<times> nat"

definition demo_notifier_os :: "notifier_world notifier_os" where
  "demo_notifier_os = \<lparr>n_eventfd = (\<lambda>w. (5, w)), n_write8 = (\<lambda>fd v (t, c, k). (8, t, c + v, k)),
     n_read8 = (\<lambda>fd (t, c, k). ((if c = 0 then - 1 else 8, c), t, 0, k)), n_close = (\<lambda>fd w. (0, w))\<rparr>"

definition demo_notifier :: "(notifier_world, unit Notifier) ref" where
  "demo_notifier = \<lparr>deref = fst, assign = (\<lambda>t w. (t, snd w))\<rparr>"

definition notifier_loop :: "(unit, notifier_world) EventLoop" where
  "notifier_loop = \<lparr>m_events = replicate MAXEVENTS \<lparr>ev_events = 0, ev_ptr = None\<rparr>, m_eventCount = 0,
     m_eventInfos = [], m_epollfd = 3, m_stopFd = 4,
     world = (\<lparr>notifier_fd = 5, notifier_handler = User ()\<rparr>, 0, 0)\<rparr>"

definition count_call :: "(unit, notifier_world) EventLoop \<Rightarrow> (unit, notifier_world) EventLoop" where
  "count_call s = s\<lparr>world := (case world s of (t, c, k) \<Rightarrow> (t, c, Suc k))\<rparr>"

theorem Notifier_counts_witness:
  "\<exists>s1. Notifier_process demo_notifier_os (\<lambda>c s. (Ret 0, count_call s)) demo_notifier
     (notify_times demo_notifier_os demo_notifier 3 notifier_loop) = (Ret 0, (count_call ^^ 3) s1)"
proof (rule Notifier_counts [where counter = "\<lambda>w. fst (snd w)"])
  show "counter_laws demo_notifier_os demo_notifier (\<lambda>w. fst (snd w))"
    by (auto simp: counter_laws_def demo_notifier_os_def demo_notifier_def)
qed (auto simp: notifier_loop_def obj_def demo_notifier_def count_call_def split_beta)

end
