(* ===== verification/BufferedReader.thy ===== *)
theory BufferedReader
  imports HbmPrelude
begin

text \<open>
  \<open>lib/communication/linux/bufferedreader.cpp\<close>: reading from a socket with read-ahead. The scatter read
  \<open>readv\<close> is a parameter on the world \<open>'w\<close>: it returns the bytes it stored, first into the caller's buffer, then into
  \<open>m_buffer\<close>, or an \<open>errno\<close>. A call returns the bytes left in the caller's buffer, or the \<open>errno\<close>.
\<close>

section \<open>The data and operations\<close>

type_synonym bytes = "8 word list"

definition BUFFER_SIZE :: nat where "BUFFER_SIZE = 65536"

record BufferedReader =
  m_buffer :: bytes
  m_fillLevel :: nat
  m_alreadyRead :: nat

definition BufferedReader_ctor :: "bytes \<Rightarrow> BufferedReader" where
  "BufferedReader_ctor uninit = \<lparr>m_buffer = uninit, m_fillLevel = 0, m_alreadyRead = 0\<rparr>"

text \<open>Subtraction on \<open>size_t\<close>, which wraps.\<close>

definition size_minus :: "nat \<Rightarrow> nat \<Rightarrow> nat" where
  "size_minus a b = nat ((int a - int b) mod 2 ^ 64)"

text \<open>\<open>readv fd desiredLen bufferLen\<close>: the lengths of the two areas.\<close>

type_synonym 'w readv = "int \<Rightarrow> nat \<Rightarrow> nat \<Rightarrow> 'w \<Rightarrow> (errno + bytes) \<times> 'w"

definition recv :: "'w readv \<Rightarrow> int \<Rightarrow> nat \<Rightarrow> BufferedReader \<times> 'w \<Rightarrow>
    (errno + bytes) \<times> BufferedReader \<times> 'w" where
  "recv readv sockfd desiredLen s =
     (let (self, w) = s; bytesLeft = size_minus (m_fillLevel self) (m_alreadyRead self) in
      if desiredLen \<le> bytesLeft then
        (Inr (take desiredLen (drop (m_alreadyRead self) (m_buffer self))),
         self\<lparr>m_alreadyRead := m_alreadyRead self + desiredLen\<rparr>, w)
      else if 0 < bytesLeft then
        (Inr (take bytesLeft (drop (m_alreadyRead self) (m_buffer self))),
         self\<lparr>m_alreadyRead := m_fillLevel self\<rparr>, w)
      else (case readv sockfd desiredLen (length (m_buffer self)) w of
          (Inl e, w) \<Rightarrow> (Inl e, self\<lparr>m_alreadyRead := 0, m_fillLevel := 0\<rparr>, w)
        | (Inr data, w) \<Rightarrow>
            (let self = self\<lparr>m_buffer := drop desiredLen data @
                               drop (length data - desiredLen) (m_buffer self),
                             m_alreadyRead := 0\<rparr> in
             if desiredLen < length data
             then (Inr (take desiredLen data), self\<lparr>m_fillLevel := length data - desiredLen\<rparr>, w)
             else (Inr data, self\<lparr>m_fillLevel := 0\<rparr>, w))))"

section \<open>The contract\<close>

text \<open>The bytes read ahead; the buffer is within its bounds.\<close>

definition reader_ok :: "BufferedReader \<Rightarrow> bool" where
  "reader_ok r \<longleftrightarrow> length (m_buffer r) = BUFFER_SIZE \<and> m_alreadyRead r \<le> m_fillLevel r \<and>
     m_fillLevel r \<le> BUFFER_SIZE"

definition ahead :: "BufferedReader \<Rightarrow> bytes" where
  "ahead r = take (m_fillLevel r - m_alreadyRead r) (drop (m_alreadyRead r) (m_buffer r))"

text \<open>
  What \<open>readv\<close> documents: it returns at most as many bytes as both areas hold, and these are the next bytes of
  the stream \<open>incoming\<close>; an error takes nothing from the stream.
\<close>

definition readv_laws :: "'w readv \<Rightarrow> int \<Rightarrow> ('w \<Rightarrow> bytes) \<Rightarrow> bool" where
  "readv_laws readv fd incoming \<longleftrightarrow>
     (\<forall>n m w data w'. readv fd n m w = (Inr data, w') \<longrightarrow>
        length data \<le> n + m \<and> incoming w = data @ incoming w') \<and>
     (\<forall>n m w e w'. readv fd n m w = (Inl e, w') \<longrightarrow> incoming w' = incoming w)"

lemma size_minus_le: "b \<le> a \<Longrightarrow> a < 2 ^ 64 \<Longrightarrow> size_minus a b = a - b"
  by (simp add: size_minus_def of_nat_diff [symmetric] nat_mod_distrib del: of_nat_diff)

lemma ahead_length: "reader_ok r \<Longrightarrow> length (ahead r) = m_fillLevel r - m_alreadyRead r"
  by (auto simp: ahead_def reader_ok_def)

lemma bytesLeft_ahead: "reader_ok r \<Longrightarrow> size_minus (m_fillLevel r) (m_alreadyRead r) = length (ahead r)"
  by (simp add: ahead_length) (simp add: reader_ok_def BUFFER_SIZE_def size_minus_le)

text \<open>
  The abstract reader has no buffer management, only the bytes read ahead: they are handed out first, and
  only when there are none the socket is read.
\<close>

definition recv_spec :: "'w readv \<Rightarrow> int \<Rightarrow> nat \<Rightarrow> bytes \<times> 'w \<Rightarrow> (errno + bytes) \<times> bytes \<times> 'w" where
  "recv_spec readv fd n s =
     (let (pending, w) = s in
      if n = 0 \<or> pending \<noteq> [] then (Inr (take n pending), drop n pending, w)
      else case readv fd n BUFFER_SIZE w of
        (Inl e, w) \<Rightarrow> (Inl e, [], w)
      | (Inr data, w) \<Rightarrow> (Inr (take n data), drop n data, w))"

lemma recv_refines:
  assumes "readv_laws readv fd incoming" and "reader_ok r" and "recv readv fd n (r, w) = (res, r', w')"
  shows "reader_ok r' \<and> recv_spec readv fd n (ahead r, w) = (res, ahead r', w')"
proof -
  note ok = assms(2) [unfolded reader_ok_def]
  consider (enough) "n \<le> length (ahead r)" | (rest) "length (ahead r) < n" "ahead r \<noteq> []"
    | (read) "0 < n" "ahead r = []"
    by (cases "ahead r = []"; cases "n \<le> length (ahead r)") (simp_all add: not_le)
  then show ?thesis
  proof cases
    case enough
    then have "res = Inr (take n (drop (m_alreadyRead r) (m_buffer r)))" "w' = w"
        "r' = r\<lparr>m_alreadyRead := m_alreadyRead r + n\<rparr>"
      using assms(3) by (simp_all add: recv_def bytesLeft_ahead [OF assms(2)])
    moreover have "n \<le> m_fillLevel r - m_alreadyRead r" using enough ahead_length [OF assms(2)] by simp
    ultimately show ?thesis
      using ok enough by (auto simp: reader_ok_def recv_spec_def ahead_def drop_take add.commute)
  next
    case rest
    have take_eq: "take (length (ahead r)) (drop (m_alreadyRead r) (m_buffer r)) = ahead r"
      by (simp only: ahead_length [OF assms(2)]) (simp only: ahead_def)
    with rest have "res = Inr (ahead r)" "w' = w" "r' = r\<lparr>m_alreadyRead := m_fillLevel r\<rparr>"
      using assms(3) take_eq by (simp_all add: recv_def bytesLeft_ahead [OF assms(2)])
    moreover from this have "ahead r' = []" by (simp add: ahead_def)
    ultimately show ?thesis using ok rest by (simp add: reader_ok_def recv_spec_def)
  next
    case read
    then have len: "size_minus (m_fillLevel r) (m_alreadyRead r) = 0"
      using bytesLeft_ahead [OF assms(2)] by simp
    obtain x w1 where x: "readv fd n BUFFER_SIZE w = (x, w1)" by fastforce
    show ?thesis
    proof (cases x)
      case (Inl e)
      then show ?thesis
        using assms(3) ok read len x by (auto simp: recv_def recv_spec_def reader_ok_def ahead_def)
    next
      case (Inr data)
      have bound: "length data \<le> n + BUFFER_SIZE"
        using assms(1) x Inr by (auto simp: readv_laws_def)
      show ?thesis
      proof (cases "n < length data")
        case True
        then have "res = Inr (take n data)" "w' = w1"
            "r' = r\<lparr>m_buffer := drop n data @ drop (length data - n) (m_buffer r), m_alreadyRead := 0,
                    m_fillLevel := length data - n\<rparr>"
          using assms(3) ok read len x Inr by (simp_all add: recv_def Let_def)
        then show ?thesis
          using ok read x Inr bound True by (simp add: reader_ok_def recv_spec_def ahead_def)
      next
        case False
        then have "res = Inr data" "w' = w1"
            "r' = r\<lparr>m_buffer := m_buffer r, m_alreadyRead := 0, m_fillLevel := 0\<rparr>"
          using assms(3) ok read len x Inr by (simp_all add: recv_def Let_def)
        then show ?thesis
          using ok read x Inr False by (simp add: reader_ok_def recv_spec_def ahead_def)
      qed
    qed
  qed
qed

section \<open>A byte source\<close>

text \<open>A sequence of reads and the bytes they deliver; a failing read delivers none.\<close>

fun reads :: "(nat \<Rightarrow> 's \<Rightarrow> (errno + bytes) \<times> 's) \<Rightarrow> nat list \<Rightarrow> 's \<Rightarrow> bytes \<times> 's" where
  "reads read [] s = ([], s)"
| "reads read (n # ns) s =
     (let (x, s) = read n s; (ds, s) = reads read ns s in ((case x of Inl e \<Rightarrow> [] | Inr d \<Rightarrow> d) @ ds, s))"

text \<open>
  What the receiving functions rely on: a read of \<open>n\<close> bytes delivers at most \<open>n\<close> bytes, which are the next
  unread ones, and an error loses none.
\<close>

locale byte_source =
  fixes valid :: "'s \<Rightarrow> bool"
    and read :: "nat \<Rightarrow> 's \<Rightarrow> (errno + bytes) \<times> 's"
    and unread :: "'s \<Rightarrow> bytes"
  assumes read_valid: "valid s \<Longrightarrow> valid (snd (read n s))"
    and read_data: "valid s \<Longrightarrow> read n s = (Inr d, s') \<Longrightarrow> length d \<le> n \<and> unread s = d @ unread s'"
    and read_error: "valid s \<Longrightarrow> read n s = (Inl e, s') \<Longrightarrow> unread s' = unread s"
begin

text \<open>It is a prefix of the stream, without loss, repetition or reordering.\<close>

lemma reads_stream: "valid s \<Longrightarrow> reads read ns s = (ds, s') \<Longrightarrow> unread s = ds @ unread s' \<and> valid s'"
proof (induction ns arbitrary: s ds)
  case (Cons n ns)
  obtain x s1 where x: "read n s = (x, s1)" by fastforce
  obtain ds1 where r: "reads read ns s1 = (ds1, s')" "ds = (case x of Inl e \<Rightarrow> [] | Inr d \<Rightarrow> d) @ ds1"
    using Cons.prems(2) x by (auto simp: Let_def split: prod.splits)
  have "valid s1" using read_valid [OF Cons.prems(1), of n] x by simp
  with Cons.IH r(1) have "unread s1 = ds1 @ unread s' \<and> valid s'" by blast
  then show ?case
    using r(2) x read_data [OF Cons.prems(1)] read_error [OF Cons.prems(1)] by (cases x) auto
qed simp

end

text \<open>The abstract reader is such a source.\<close>

lemma recv_spec_stream:
  assumes "readv_laws readv fd incoming" and "recv_spec readv fd n (p, w) = (res, p', w')"
  shows "(\<forall>d. res = Inr d \<longrightarrow> length d \<le> n \<and> p @ incoming w = d @ p' @ incoming w') \<and>
    (\<forall>e. res = Inl e \<longrightarrow> p' @ incoming w' = p @ incoming w)"
proof (cases "n = 0 \<or> p \<noteq> []")
  case True
  then have "res = Inr (take n p)" "p' = drop n p" "w' = w" using assms(2) by (auto simp: recv_spec_def)
  then show ?thesis by simp
next
  case False
  obtain x w1 where x: "readv fd n BUFFER_SIZE w = (x, w1)" by fastforce
  show ?thesis
  proof (cases x)
    case (Inl e)
    then show ?thesis using False assms x by (auto simp: recv_spec_def readv_laws_def)
  next
    case (Inr data)
    then have "res = Inr (take n data)" "p' = drop n data" "w' = w1" "incoming w = data @ incoming w1"
      using False assms x by (auto simp: recv_spec_def readv_laws_def)
    then show ?thesis using False by simp
  qed
qed

interpretation buffered: byte_source
  "\<lambda>(r, w). readv_laws readv fd incoming \<and> reader_ok r" "recv readv fd" "\<lambda>(r, w). ahead r @ incoming w"
  for readv fd incoming
proof unfold_locales
  fix s :: "BufferedReader \<times> 'a" and n
  obtain r w where s: "s = (r, w)" by (cases s)
  obtain res r' w' where step: "recv readv fd n s = (res, r', w')" using prod_cases3 by blast
  assume "case s of (r, w) \<Rightarrow> readv_laws readv fd incoming \<and> reader_ok r"
  then have laws: "readv_laws readv fd incoming" "reader_ok r" by (simp_all add: s)
  note ref = recv_refines [OF laws step [unfolded s]]
  show "case snd (recv readv fd n s) of (r, w) \<Rightarrow> readv_laws readv fd incoming \<and> reader_ok r"
    using laws ref by (simp add: step)
  have spec: "(\<forall>d. res = Inr d \<longrightarrow> length d \<le> n \<and> ahead r @ incoming w = d @ ahead r' @ incoming w') \<and>
      (\<forall>e. res = Inl e \<longrightarrow> ahead r' @ incoming w' = ahead r @ incoming w)"
    using recv_spec_stream [OF laws(1)] ref by blast
  {
    fix d s' assume "recv readv fd n s = (Inr d, s')"
    then show "length d \<le> n \<and> (case s of (r, w) \<Rightarrow> ahead r @ incoming w) =
        d @ (case s' of (r, w) \<Rightarrow> ahead r @ incoming w)"
      using spec step s by auto
  next
    fix e s' assume "recv readv fd n s = (Inl e, s')"
    then show "(case s' of (r, w) \<Rightarrow> ahead r @ incoming w) = (case s of (r, w) \<Rightarrow> ahead r @ incoming w)"
      using spec step s by auto
  }
qed

section \<open>Properties\<close>

text \<open>
  Claim C3: \<open>recv\<close> implements the abstract reader: the result, the bytes read ahead and the effect on the
  socket are those of the specification, and the buffer stays within its bounds.
\<close>

theorem recv_implements_spec:
  assumes "readv_laws readv fd incoming" and "reader_ok r" and "recv readv fd n (r, w) = (res, r', w')"
  shows "recv_spec readv fd n (ahead r, w) = (res, ahead r', w') \<and> reader_ok r'"
  using recv_refines [OF assms] by blast

text \<open>A socket whose unread bytes are the world; it delivers at most 5 bytes at a time.\<close>

definition stream_readv :: "bytes readv" where
  "stream_readv fd n m w = (Inr (take (min 5 (n + m)) w), drop (min 5 (n + m)) w)"

definition fresh_reader :: BufferedReader where
  "fresh_reader = BufferedReader_ctor (replicate BUFFER_SIZE 0)"

lemma stream_readv_laws: "readv_laws stream_readv fd id"
  by (auto simp: readv_laws_def stream_readv_def min_def)

lemma fresh_reader_ok: "reader_ok fresh_reader" "ahead fresh_reader = []"
  by (simp_all add: fresh_reader_def BufferedReader_ctor_def reader_ok_def ahead_def)

theorem recv_implements_spec_witness:
  "\<exists>r'. recv stream_readv 3 2 (fresh_reader, [1, 2, 3, 4]) = (Inr [1, 2], r', []) \<and> ahead r' = [3, 4]"
proof -
  obtain res r' w' where r: "recv stream_readv 3 2 (fresh_reader, [1, 2, 3, 4]) = (res, r', w')"
    using prod_cases3 by blast
  have "recv_spec stream_readv 3 2 (ahead fresh_reader, [1, 2, 3, 4]) = (Inr [1, 2], [3, 4], [])"
    by (simp add: fresh_reader_ok recv_spec_def stream_readv_def BUFFER_SIZE_def)
  with recv_implements_spec [OF stream_readv_laws fresh_reader_ok(1) r] r show ?thesis by simp
qed

text \<open>
  Any sequence of calls delivers the byte stream of the socket: what was read ahead and unread before
  is what was delivered, followed by what is read ahead and unread afterwards; nothing is lost, repeated or
  reordered, however the requests are sized.
\<close>

theorem recv_preserves_stream:
  assumes "readv_laws readv fd incoming" and "reader_ok r"
    and "reads (recv readv fd) ns (r, w) = (ds, r', w')"
  shows "ahead r @ incoming w = ds @ ahead r' @ incoming w'"
  using buffered.reads_stream [of readv fd incoming "(r, w)" ns ds "(r', w')"] assms by simp

theorem recv_preserves_stream_witness:
  "\<exists>ds r' w'. reads (recv stream_readv 3) [1, 3, 7] (fresh_reader, [1, 2, 3, 4, 5, 6]) = (ds, r', w') \<and>
     [1, 2, 3, 4, 5, 6] = ds @ ahead r' @ w'"
proof -
  obtain ds r' w' where "reads (recv stream_readv 3) [1, 3, 7] (fresh_reader, [1, 2, 3, 4, 5, 6]) = (ds, r', w')"
    using prod_cases3 by blast
  from recv_preserves_stream [OF stream_readv_laws fresh_reader_ok(1) this] this show ?thesis
    by (auto simp: fresh_reader_ok)
qed

end
