(* ===== verification/SocketIO.thy ===== *)
theory SocketIO
  imports BufferedReader
begin

text \<open>
  The transfer functions of \<open>lib/communication/linux/socketnonblocking.cpp\<close>: waiting for the socket, sending
  one block or several, receiving a complete block. The system calls are parameters on the world \<open>'w\<close>.
  The loops may run forever (a peer that accepts nothing), so they are options: \<open>None\<close> is not returning.
\<close>

section \<open>The data and operations\<close>

text \<open>
  \<open>io_poll_out\<close> and \<open>io_poll_in\<close> are \<open>poll\<close> on one descriptor for writing and for reading; they
  return the number of ready descriptors. \<open>io_send\<close> and \<open>io_sendmsg\<close> return the number of bytes
  taken over; their flag is \<open>MSG_MORE\<close>.
\<close>

record 'w sock_io =
  io_poll_out :: "int \<Rightarrow> int \<Rightarrow> 'w \<Rightarrow> (errno + int) \<times> 'w"
  io_poll_in :: "int \<Rightarrow> int \<Rightarrow> 'w \<Rightarrow> (errno + int) \<times> 'w"
  io_send :: "int \<Rightarrow> bytes \<Rightarrow> bool \<Rightarrow> 'w \<Rightarrow> (errno + nat) \<times> 'w"
  io_sendmsg :: "int \<Rightarrow> bytes list \<Rightarrow> bool \<Rightarrow> 'w \<Rightarrow> (errno + nat) \<times> 'w"
  io_readv :: "'w readv"

text \<open>The loop around \<open>poll\<close> that repeats it when a signal interrupts; \<open>-1\<close> is any other error.\<close>

partial_function (option) poll_loop :: "('w \<Rightarrow> (errno + int) \<times> 'w) \<Rightarrow> 'w \<Rightarrow> (int \<times> 'w) option" where
  "poll_loop poll w =
     (case poll w of
        (Inl e, w) \<Rightarrow> if e = EINTR then poll_loop poll w else Some (- 1, w)
      | (Inr nfds, w) \<Rightarrow> Some (nfds, w))"

definition waitForWritable :: "'w sock_io \<Rightarrow> int \<Rightarrow> int \<Rightarrow> 'w \<Rightarrow> (int \<times> 'w) option" where
  "waitForWritable io fd timeoutMilliSeconds w = poll_loop (io_poll_out io fd timeoutMilliSeconds) w"

text \<open>The loop of \<open>sendBlock\<close> over the bytes left.\<close>

partial_function (option) sendBlock_loop ::
  "'w sock_io \<Rightarrow> int \<Rightarrow> bool \<Rightarrow> bytes \<Rightarrow> int \<Rightarrow> 'w \<Rightarrow> (int \<times> 'w) option" where
  "sendBlock_loop io fd msgMore left retVal w =
     (if left = [] then Some (retVal, w)
      else case io_send io fd left msgMore w of
        (Inr numBytes, w) \<Rightarrow>
          if 0 < numBytes then sendBlock_loop io fd msgMore (drop numBytes left) retVal w
          else Some (- 1, w)
      | (Inl e, w) \<Rightarrow>
          if e = EWOULDBLOCK \<or> e = EAGAIN then
            (case waitForWritable io fd (- 1) w of
               None \<Rightarrow> None
             | Some (err, w) \<Rightarrow>
                 if err \<noteq> 1 then Some (- 1, w) else sendBlock_loop io fd msgMore left retVal w)
          else if e \<noteq> EINTR then Some (- 1, w)
          else sendBlock_loop io fd msgMore left retVal w)"

definition sendBlock :: "'w sock_io \<Rightarrow> int \<Rightarrow> bytes \<Rightarrow> bool \<Rightarrow> 'w \<Rightarrow> (int \<times> 'w) option" where
  "sendBlock io fd pBlock msgMore w = sendBlock_loop io fd msgMore pBlock (int (length pBlock)) w"

definition send :: "'w sock_io \<Rightarrow> int \<Rightarrow> bytes \<Rightarrow> bool \<Rightarrow> 'w \<Rightarrow> int \<times> 'w" where
  "send io fd pBlock msgMore w =
     (case io_send io fd pBlock msgMore w of
        (Inl e, w) \<Rightarrow> (- 1, w)
      | (Inr n, w) \<Rightarrow> (int n, w))"

text \<open>
  A \<open>dataBlock_t\<close> is the bytes it refers to: advancing \<open>pData\<close> and reducing \<open>size\<close> drops bytes.
  The reorganisation of the blocks after a partial write skips written blocks and shortens the first one that is not
  written completely; behind the last block it would read outside the array.
\<close>

fun reorganize :: "nat \<Rightarrow> bytes list \<Rightarrow> bytes list option" where
  "reorganize remainingOffset [] = None"
| "reorganize remainingOffset (b # bs) =
     (if length b \<le> remainingOffset then reorganize (remainingOffset - length b) bs
      else Some (drop remainingOffset b # bs))"

partial_function (option) sendBlocks_loop ::
  "'w sock_io \<Rightarrow> int \<Rightarrow> bool \<Rightarrow> nat \<Rightarrow> nat \<Rightarrow> bytes list \<Rightarrow> 'w \<Rightarrow> ((cxx_exception + int) \<times> 'w) option" where
  "sendBlocks_loop io fd msgMore totalLength totalBytesRemaining blocks w =
     (let (x, w) = io_sendmsg io fd blocks msgMore w in
      if x = Inr 0 then Some (Inr 0, w)
      else if (case x of Inl e \<Rightarrow> e \<noteq> EWOULDBLOCK \<and> e \<noteq> EAGAIN \<and> e \<noteq> EINTR | Inr n \<Rightarrow> False)
      then Some (Inr (- 1), w)
      else
        (let bytesWritten = (case x of Inl e \<Rightarrow> 0 | Inr n \<Rightarrow> n);
             totalBytesRemaining = size_minus totalBytesRemaining bytesWritten in
         if totalBytesRemaining = 0 then Some (Inr (int totalLength), w)
         else case reorganize bytesWritten blocks of
           None \<Rightarrow> Some (Inl UndefinedBehaviour, w)
         | Some blocks \<Rightarrow>
             (case waitForWritable io fd (- 1) w of
                None \<Rightarrow> None
              | Some (err, w) \<Rightarrow>
                  if err \<noteq> 1 then Some (Inr (- 1), w)
                  else sendBlocks_loop io fd msgMore totalLength totalBytesRemaining blocks w)))"

text \<open>
  The overload on an array of blocks, and the one on a list, which copies the blocks first. The address of the first
  element of the copy is taken with \<open>operator[]\<close>, which is undefined when there are no blocks.
\<close>

definition sendBlocks_array ::
  "'w sock_io \<Rightarrow> int \<Rightarrow> bytes list \<Rightarrow> bool \<Rightarrow> 'w \<Rightarrow> ((cxx_exception + int) \<times> 'w) option" where
  "sendBlocks_array io fd blocks msgMore w =
     (let totalLength = foldl (\<lambda>n b. n + length b) 0 blocks in
      sendBlocks_loop io fd msgMore totalLength totalLength blocks w)"

definition sendBlocks ::
  "'w sock_io \<Rightarrow> int \<Rightarrow> bytes list \<Rightarrow> bool \<Rightarrow> 'w \<Rightarrow> ((cxx_exception + int) \<times> 'w) option" where
  "sendBlocks io fd blocks msgMore w =
     (let dataBlockVector = foldl (\<lambda>v item. v @ [item]) [] blocks in
      if dataBlockVector = [] then Some (Inl UndefinedBehaviour, w)
      else sendBlocks_array io fd dataBlockVector msgMore w)"

text \<open>
  \<open>receiveComplete\<close> with the reading function and \<open>poll\<close> as arguments: the bytes stored so far are returned with the
  result. A closed connection returns the number of bytes through the type \<open>int\<close>.
\<close>

definition to_int32 :: "nat \<Rightarrow> int" where
  "to_int32 n = sint (of_nat n :: 32 word)"

lemma to_int32_small: "n < 2 ^ 31 \<Longrightarrow> to_int32 n = int n"
  by (simp add: to_int32_def sint_uint signed_take_bit_int_eq_self unsigned_of_nat take_bit_nat_eq_self
      uint_nat signed_of_nat)

partial_function (option) receive_loop ::
  "(nat \<Rightarrow> 's \<Rightarrow> (errno + bytes) \<times> 's) \<Rightarrow> ('s \<Rightarrow> (errno + int) \<times> 's) \<Rightarrow> nat \<Rightarrow> bytes \<Rightarrow> 's \<Rightarrow>
     ((int \<times> bytes) \<times> 's) option" where
  "receive_loop read poll len got s =
     (if length got = len then Some ((int len, got), s)
      else case read (len - length got) s of
        (Inr d, s) \<Rightarrow>
          if d \<noteq> [] then receive_loop read poll len (got @ d) s
          else Some ((to_int32 (length got), got), s)
      | (Inl e, s) \<Rightarrow>
          if e = EWOULDBLOCK \<or> e = EAGAIN then
            (case poll_loop poll s of
               None \<Rightarrow> None
             | Some (nfds, s) \<Rightarrow>
                 if nfds \<noteq> 1 then Some ((- 1, got), s) else receive_loop read poll len got s)
          else Some ((- 1, got), s))"

definition poll_in :: "'w sock_io \<Rightarrow> int \<Rightarrow> int \<Rightarrow> BufferedReader \<times> 'w \<Rightarrow> (errno + int) \<times> BufferedReader \<times> 'w" where
  "poll_in io fd msTimeout s = (case io_poll_in io fd msTimeout (snd s) of (x, w) \<Rightarrow> (x, fst s, w))"

definition receiveComplete :: "'w sock_io \<Rightarrow> int \<Rightarrow> nat \<Rightarrow> int \<Rightarrow> BufferedReader \<times> 'w \<Rightarrow>
    ((int \<times> bytes) \<times> BufferedReader \<times> 'w) option" where
  "receiveComplete io fd len msTimeout s =
     receive_loop (recv (io_readv io) fd) (poll_in io fd msTimeout) len [] s"

definition receive :: "'w sock_io \<Rightarrow> int \<Rightarrow> nat \<Rightarrow> BufferedReader \<times> 'w \<Rightarrow>
    (errno + bytes) \<times> BufferedReader \<times> 'w" where
  "receive io fd len s = recv (io_readv io) fd len s"

section \<open>Waiting\<close>

lemma poll_loop_keeps:
  assumes "poll_loop poll s = Some (r, s')" and "\<And>s. f (snd (poll s)) = f s"
  shows "f s' = f s"
proof -
  have "(\<forall>s. f (snd (poll s)) = f s) \<longrightarrow> f (snd x) = f s" if "poll_loop poll s = Some x" for x
    using that
  proof (induction rule: poll_loop.raw_induct [rotated, consumes 1, case_names step])
    case (step poll_loop' poll s x)
    show ?case
    proof
      assume keep: "\<forall>s. f (snd (poll s)) = f s"
      obtain y s1 where y: "poll s = (y, s1)" by fastforce
      then have "f s1 = f s" using keep [rule_format, of s] by simp
      then show "f (snd x) = f s"
        using step(1) [of poll s1 x] step(2) keep y by (cases y) (auto split: if_splits)
    qed
  qed
  from this [OF assms(1)] assms(2) show ?thesis by simp
qed

lemma poll_loop_returns:
  assumes "\<And>s e s'. poll s = (Inl e, s') \<Longrightarrow> work s' < (work s :: nat)"
  shows "\<exists>r s'. poll_loop poll s = Some (r, s')"
proof (induction "work s" arbitrary: s rule: less_induct)
  case less
  obtain y s1 where y: "poll s = (y, s1)" by fastforce
  show ?case
    using less.hyps [of s1] assms [of s] y by (cases y) (auto simp: poll_loop.simps [of poll s])
qed

section \<open>What sending promises\<close>

text \<open>
  The bytes a send takes over are a prefix of those it is given, they are appended to what was sent, and a failing
  call or waiting sends nothing.
\<close>

definition send_laws :: "'w sock_io \<Rightarrow> int \<Rightarrow> ('w \<Rightarrow> bytes) \<Rightarrow> bool" where
  "send_laws io fd sent \<longleftrightarrow>
     (\<forall>b m w n w'. io_send io fd b m w = (Inr n, w') \<longrightarrow> n \<le> length b \<and> sent w' = sent w @ take n b) \<and>
     (\<forall>b m w e w'. io_send io fd b m w = (Inl e, w') \<longrightarrow> sent w' = sent w) \<and>
     (\<forall>bs m w n w'. io_sendmsg io fd bs m w = (Inr n, w') \<longrightarrow>
        n \<le> length (concat bs) \<and> sent w' = sent w @ take n (concat bs)) \<and>
     (\<forall>bs m w e w'. io_sendmsg io fd bs m w = (Inl e, w') \<longrightarrow> sent w' = sent w) \<and>
     (\<forall>t w. sent (snd (io_poll_out io fd t w)) = sent w)"

text \<open>Only finitely many calls fail: every failing call uses up some of \<open>patience\<close>.\<close>

definition finitely_many_errors :: "'w sock_io \<Rightarrow> int \<Rightarrow> ('w \<Rightarrow> nat) \<Rightarrow> bool" where
  "finitely_many_errors io fd patience \<longleftrightarrow>
     (\<forall>b m w x w'. io_send io fd b m w = (x, w') \<longrightarrow>
        (if isl x then patience w' < patience w else patience w' \<le> patience w)) \<and>
     (\<forall>bs m w x w'. io_sendmsg io fd bs m w = (x, w') \<longrightarrow>
        (if isl x then patience w' < patience w else patience w' \<le> patience w)) \<and>
     (\<forall>t w x w'. io_poll_out io fd t w = (x, w') \<longrightarrow>
        (if isl x then patience w' < patience w else patience w' \<le> patience w))"

lemma waitForWritable_sent:
  "send_laws io fd sent \<Longrightarrow> waitForWritable io fd t w = Some (r, w') \<Longrightarrow> sent w' = sent w"
  unfolding waitForWritable_def by (erule poll_loop_keeps) (simp add: send_laws_def)

lemma sendBlock_loop_sends:
  assumes "sendBlock_loop io fd msgMore left retVal w = Some (r, w')" and "send_laws io fd sent"
  shows "\<exists>k \<le> length left. sent w' = sent w @ take k left \<and> (r = - 1 \<or> r = retVal \<and> k = length left)"
proof -
  have "send_laws io fd sent \<longrightarrow> (\<exists>k \<le> length left. sent (snd x) = sent w @ take k left \<and>
      (fst x = - 1 \<or> fst x = retVal \<and> k = length left))"
    if "sendBlock_loop io fd msgMore left retVal w = Some x" for x
    using that
  proof (induction rule: sendBlock_loop.raw_induct [rotated, consumes 1, case_names step])
    case (step loop io fd msgMore left retVal w x)
    show ?case
    proof
      assume laws: "send_laws io fd sent"
      show "\<exists>k \<le> length left. sent (snd x) = sent w @ take k left \<and>
          (fst x = - 1 \<or> fst x = retVal \<and> k = length left)"
      proof (cases "left = []")
        case True
        then show ?thesis using step(2) by auto
      next
        case False
        obtain y w1 where y: "io_send io fd left msgMore w = (y, w1)" by fastforce
        show ?thesis
        proof (cases y)
          case (Inr n)
          then have n: "n \<le> length left" "sent w1 = sent w @ take n left"
            using laws y by (auto simp: send_laws_def)
          show ?thesis
          proof (cases "0 < n")
            case True
            then have "loop io fd msgMore (drop n left) retVal w1 = Some x"
              using step(2) False y Inr by simp
            then obtain k where "k \<le> length left - n" "sent (snd x) = sent w1 @ take k (drop n left)"
                "fst x = - 1 \<or> fst x = retVal \<and> k = length left - n"
              using step(1) laws by fastforce
            then show ?thesis
              using n by (intro exI [of _ "n + k"]) (auto simp: take_add)
          qed (use step(2) False y Inr n in \<open>auto intro!: exI [of _ 0]\<close>)
        next
          case (Inl e)
          then have w1: "sent w1 = sent w" using laws y by (auto simp: send_laws_def)
          consider (again) w2 where "loop io fd msgMore left retVal w2 = Some x" "sent w2 = sent w"
            | (fail) "fst x = - 1" "sent (snd x) = sent w"
            using step(2) False y Inl w1 waitForWritable_sent [OF laws, of "- 1" w1]
            by (auto split: if_splits option.splits)
          then show ?thesis
          proof cases
            case again
            then show ?thesis using step(1) laws by fastforce
          qed (auto intro!: exI [of _ 0])
        qed
      qed
    qed
  qed
  from this [OF assms(1)] assms(2) show ?thesis by auto
qed

lemma waitForWritable_returns:
  assumes "finitely_many_errors io fd patience"
  shows "\<exists>r w'. waitForWritable io fd t w = Some (r, w') \<and> patience w' \<le> patience w"
proof -
  have err: "patience w' < patience w" if "io_poll_out io fd t w = (Inl e, w')" for w e w'
    using assms that unfolding finitely_many_errors_def by (metis isl_def)
  show ?thesis
    unfolding waitForWritable_def
  proof (induction "patience w" arbitrary: w rule: less_induct)
    case less
    obtain y w1 where y: "io_poll_out io fd t w = (y, w1)" by fastforce
    show ?case
    proof (cases y)
      case (Inl e)
      then have "patience w1 < patience w" using err y by simp
      then show ?thesis
        using less.hyps [of w1] y Inl
        by (cases "e = EINTR") (auto simp: poll_loop.simps [of _ w] dest!: less_imp_le intro: order_trans)
    next
      case (Inr n)
      then have "patience w1 \<le> patience w"
        using assms y unfolding finitely_many_errors_def by (metis sum.disc(2))
      then show ?thesis using y Inr by (simp add: poll_loop.simps [of _ w])
    qed
  qed
qed

lemma sendBlock_loop_returns:
  assumes "finitely_many_errors io fd patience"
  shows "\<exists>r. sendBlock_loop io fd msgMore left retVal w = Some r"
proof (induction "patience w + length left" arbitrary: left w rule: less_induct)
  case less
  show ?case
  proof (cases "left = []")
    case False
    obtain y w1 where y: "io_send io fd left msgMore w = (y, w1)" by fastforce
    have le: "if isl y then patience w1 < patience w else patience w1 \<le> patience w"
      using assms y unfolding finitely_many_errors_def by blast
    show ?thesis
    proof (cases y)
      case (Inl e)
      obtain r w2 where w2: "waitForWritable io fd (- 1) w1 = Some (r, w2)" "patience w2 \<le> patience w1"
        using waitForWritable_returns [OF assms] by blast
      have "\<exists>r. sendBlock_loop io fd msgMore left retVal w1 = Some r"
          "\<exists>r. sendBlock_loop io fd msgMore left retVal w2 = Some r"
        using less.hyps le w2(2) Inl by auto
      then show ?thesis
        using False y Inl w2(1) by (auto simp: sendBlock_loop.simps [of io fd msgMore left])
    next
      case (Inr n)
      then have "0 < n \<Longrightarrow> \<exists>r. sendBlock_loop io fd msgMore (drop n left) retVal w1 = Some r"
        using less.hyps [of w1 "drop n left"] le False by (cases left) auto
      then show ?thesis
        using False y Inr by (auto simp: sendBlock_loop.simps [of io fd msgMore left])
    qed
  qed (simp add: sendBlock_loop.simps [of io fd msgMore "[]"])
qed

section \<open>Several blocks\<close>

lemma reorganize_drop:
  "off < length (concat bs) \<Longrightarrow> \<exists>bs'. reorganize off bs = Some bs' \<and> concat bs' = drop off (concat bs)"
  by (induction off bs rule: reorganize.induct) auto

lemma foldl_length: "foldl (\<lambda>n b. n + length b) n bs = n + length (concat bs)"
  by (induction bs arbitrary: n) auto

lemma foldl_snoc: "foldl (\<lambda>v item. v @ [item]) v bs = v @ bs"
  by (induction bs arbitrary: v) auto

lemma sendBlocks_loop_sends:
  assumes "sendBlocks_loop io fd msgMore totalLength (length (concat bs)) bs w = Some (r, w')"
    and "send_laws io fd sent" and "length (concat bs) < 2 ^ 64"
  shows "\<exists>k \<le> length (concat bs). sent w' = sent w @ take k (concat bs) \<and>
    (r = Inr 0 \<or> r = Inr (- 1) \<or> r = Inr (int totalLength) \<and> k = length (concat bs))"
proof -
  have "send_laws io fd sent \<longrightarrow> left = length (concat bs) \<longrightarrow> left < 2 ^ 64 \<longrightarrow>
      (\<exists>k \<le> length (concat bs). sent (snd x) = sent w @ take k (concat bs) \<and>
        (fst x = Inr 0 \<or> fst x = Inr (- 1) \<or> fst x = Inr (int totalLength) \<and> k = length (concat bs)))"
    if "sendBlocks_loop io fd msgMore totalLength left bs w = Some x" for x left
    using that
  proof (induction rule: sendBlocks_loop.raw_induct [rotated, consumes 1, case_names step])
    case (step loop io fd msgMore totalLength left bs w x)
    show ?case
    proof (intro impI)
      assume laws: "send_laws io fd sent" and left: "left = length (concat bs)" "left < 2 ^ 64"
      obtain y w1 where y: "io_sendmsg io fd bs msgMore w = (y, w1)" by fastforce
      define n where "n = (case y of Inl e \<Rightarrow> 0 | Inr n \<Rightarrow> n)"
      have n: "n \<le> length (concat bs)" "sent w1 = sent w @ take n (concat bs)"
        using laws y by (cases y; auto simp: send_laws_def n_def)+
      show "\<exists>k \<le> length (concat bs). sent (snd x) = sent w @ take k (concat bs) \<and>
          (fst x = Inr 0 \<or> fst x = Inr (- 1) \<or> fst x = Inr (int totalLength) \<and> k = length (concat bs))"
      proof (cases "y = Inr 0 \<or> (\<exists>e. y = Inl e \<and> e \<noteq> EWOULDBLOCK \<and> e \<noteq> EAGAIN \<and> e \<noteq> EINTR)")
        case True
        then have "x = (Inr 0, w1) \<or> x = (Inr (- 1), w1)" using step(2) y by auto
        then show ?thesis using n by auto
      next
        case False
        then have go: "\<not> (case y of Inl e \<Rightarrow> e \<noteq> EWOULDBLOCK \<and> e \<noteq> EAGAIN \<and> e \<noteq> EINTR | Inr n \<Rightarrow> False)"
            "y \<noteq> Inr 0"
          by (auto split: sum.splits)
        have minus: "size_minus left n = length (concat bs) - n"
          using left n(1) by (simp add: size_minus_le)
        show ?thesis
        proof (cases "n = length (concat bs)")
          case True
          then have "x = (Inr (int totalLength), w1)"
            using step(2) y go minus by (simp add: n_def [symmetric])
          then show ?thesis using n True by auto
        next
          case False
          then obtain bs' where bs': "reorganize n bs = Some bs'" "concat bs' = drop n (concat bs)"
            using reorganize_drop [of n bs] n(1) by auto
          have rest: "(case waitForWritable io fd (- 1) w1 of None \<Rightarrow> None
              | Some (err, w) \<Rightarrow> if err \<noteq> 1 then Some (Inr (- 1), w)
                  else loop io fd msgMore totalLength (length (concat bs) - n) bs' w) = Some x"
            using step(2) y go minus False n(1) bs'(1) by (simp add: n_def [symmetric])
          then obtain err w2 where w2: "waitForWritable io fd (- 1) w1 = Some (err, w2)"
            by (auto split: option.splits)
          have same: "sent w2 = sent w1" by (rule waitForWritable_sent [OF laws w2])
          show ?thesis
          proof (cases "err = 1")
            case True
            then have "loop io fd msgMore totalLength (length (concat bs) - n) bs' w2 = Some x"
              using rest w2 by simp
            then obtain k where "k \<le> length (concat bs')" "sent (snd x) = sent w2 @ take k (concat bs')"
                "fst x = Inr 0 \<or> fst x = Inr (- 1) \<or> fst x = Inr (int totalLength) \<and> k = length (concat bs')"
              using step(1) [of io fd msgMore totalLength "length (concat bs) - n" bs' w2 x] laws left bs'(2) by auto
            then show ?thesis
              using n same bs'(2) by (intro exI [of _ "n + k"]) (auto simp: take_add)
          next
            case False
            then have "x = (Inr (- 1), w2)" using rest w2 by simp
            then show ?thesis using n same by (intro exI [of _ n]) simp
          qed
        qed
      qed
    qed
  qed
  from this [OF assms(1)] assms(2,3) show ?thesis by auto
qed

section \<open>Receiving from a byte source\<close>

context byte_source
begin

lemma receive_loop_stream:
  assumes "receive_loop read poll len got s = Some ((r, out), s')"
    and "valid s" and "length got \<le> len"
    and "\<And>s. unread (snd (poll s)) = unread s" and "\<And>s. valid (snd (poll s)) = valid s"
  shows "\<exists>d. out = got @ d \<and> unread s = d @ unread s' \<and> length out \<le> len \<and>
    (r = - 1 \<or> r = to_int32 (length out) \<or> r = int len \<and> length out = len)"
proof -
  have "read' = read \<longrightarrow> poll' = poll \<longrightarrow> valid s \<longrightarrow> length got \<le> len \<longrightarrow>
      (\<exists>d. snd (fst x) = got @ d \<and> unread s = d @ unread (snd x) \<and> length (snd (fst x)) \<le> len \<and>
        (fst (fst x) = - 1 \<or> fst (fst x) = to_int32 (length (snd (fst x))) \<or>
         fst (fst x) = int len \<and> length (snd (fst x)) = len))"
    if "receive_loop read' poll' len got s = Some x" for x read' poll'
    using that
  proof (induction rule: receive_loop.raw_induct [rotated, consumes 1, case_names step])
    case (step loop read' poll' len got s x)
    show ?case
    proof (intro impI)
      assume eq: "read' = read" "poll' = poll" and ok: "valid s" and got: "length got \<le> len"
      show "\<exists>d. snd (fst x) = got @ d \<and> unread s = d @ unread (snd x) \<and> length (snd (fst x)) \<le> len \<and>
        (fst (fst x) = - 1 \<or> fst (fst x) = to_int32 (length (snd (fst x))) \<or>
         fst (fst x) = int len \<and> length (snd (fst x)) = len)"
      proof (cases "length got = len")
        case True
        then show ?thesis using step(2) by auto
      next
        case False
        obtain y s1 where y: "read (len - length got) s = (y, s1)" by fastforce
        have ok1: "valid s1" using read_valid [OF ok, of "len - length got"] y by simp
        show ?thesis
        proof (cases y)
          case (Inr d)
          then have d: "length d \<le> len - length got" "unread s = d @ unread s1"
            using read_data [OF ok] y by auto
          show ?thesis
          proof (cases "d = []")
            case True
            then show ?thesis using step(2) False y Inr d got eq by auto
          next
            case ne: False
            then have "loop read poll len (got @ d) s1 = Some x"
              using step(2) False y Inr eq by simp
            then show ?thesis
              using step(1) [of read poll len "got @ d" s1 x] ok1 d got eq by auto
          qed
        next
          case (Inl e)
          then have s1: "unread s1 = unread s" using read_error [OF ok] y by auto
          consider (again) s2 where "loop read poll len got s2 = Some x" "unread s2 = unread s" "valid s2"
            | (fail) "fst x = (- 1, got)" "unread (snd x) = unread s"
            using step(2) False y Inl s1 eq ok1 poll_loop_keeps [of poll s1 _ _ unread, OF _ assms(4)]
              poll_loop_keeps [of poll s1 _ _ valid, OF _ assms(5)]
            by (auto split: if_splits option.splits)
          then show ?thesis
          proof cases
            case again
            then show ?thesis using step(1) [of read poll len got s2 x] got eq by auto
          qed (use got in auto)
        qed
      qed
    qed
  qed
  from this [OF assms(1)] assms(2,3) show ?thesis by auto
qed

end

section \<open>A concrete socket\<close>

text \<open>
  A socket to compute with: the bytes sent, a number of calls that fail with \<open>EAGAIN\<close> and the bytes to
  receive. A call takes over at most three bytes and delivers at most five.
\<close>

type_synonym demo_socket = "bytes \<times> nat \<times> bytes"

fun demo_send :: "bytes \<Rightarrow> demo_socket \<Rightarrow> (errno + nat) \<times> demo_socket" where
  "demo_send b (out, Suc fails, inp) = (Inl EAGAIN, out, fails, inp)"
| "demo_send b (out, 0, inp) = (Inr (min 3 (length b)), out @ take 3 b, 0, inp)"

definition demo_io :: "demo_socket sock_io" where
  "demo_io = \<lparr>io_poll_out = (\<lambda>fd t w. (Inr 1, w)), io_poll_in = (\<lambda>fd t w. (Inr 1, w)),
     io_send = (\<lambda>fd b m. demo_send b), io_sendmsg = (\<lambda>fd bs m. demo_send (concat bs)),
     io_readv = (\<lambda>fd n m w. case w of (out, fails, inp) \<Rightarrow>
       (Inr (take (min 5 (n + m)) inp), out, fails, drop (min 5 (n + m)) inp))\<rparr>"

lemma demo_send_facts:
  "demo_send b w = (Inr n, w') \<Longrightarrow> n \<le> length b \<and> fst w' = fst w @ take n b"
  "demo_send b w = (Inl e, w') \<Longrightarrow> fst w' = fst w"
  "demo_send b w = (x, w') \<Longrightarrow>
     (if isl x then fst (snd w') < fst (snd w) else fst (snd w') \<le> fst (snd w))"
  by (cases w; cases "fst (snd w)"; force simp: min_def)+

lemma demo_io_laws:
  "send_laws demo_io fd fst" "finitely_many_errors demo_io fd (\<lambda>w. fst (snd w))"
  "readv_laws (io_readv demo_io) fd (\<lambda>w. snd (snd w))"
proof -
  show "send_laws demo_io fd fst"
    unfolding send_laws_def demo_io_def by (auto dest: demo_send_facts(1,2))
  show "finitely_many_errors demo_io fd (\<lambda>w. fst (snd w))"
    unfolding finitely_many_errors_def
  proof (intro conjI allI impI)
    fix b m w x w' assume "io_send demo_io fd b m w = (x, w')"
    then show "if isl x then fst (snd w') < fst (snd w) else fst (snd w') \<le> fst (snd w)"
      by (intro demo_send_facts(3) [of b]) (simp add: demo_io_def)
  next
    fix bs m w x w' assume "io_sendmsg demo_io fd bs m w = (x, w')"
    then show "if isl x then fst (snd w') < fst (snd w) else fst (snd w') \<le> fst (snd w)"
      by (intro demo_send_facts(3) [of "concat bs"]) (simp add: demo_io_def)
  qed (auto simp: demo_io_def)
  show "readv_laws (io_readv demo_io) fd (\<lambda>w. snd (snd w))"
    by (auto simp: readv_laws_def demo_io_def min_def split: prod.splits)
qed

section \<open>Properties\<close>

text \<open>
  When \<open>sendBlock\<close> returns, what was sent is a prefix of the block, in order and without
  repetition, and it is the whole block exactly when the result is its size; every other result is -1.
\<close>

theorem sendBlock_sends:
  assumes "send_laws io fd sent" and "sendBlock io fd block msgMore w = Some (r, w')"
  shows "\<exists>k \<le> length block. sent w' = sent w @ take k block \<and>
    (r = - 1 \<or> r = int (length block) \<and> k = length block)"
  using sendBlock_loop_sends [OF assms(2) [unfolded sendBlock_def] assms(1)] .

theorem sendBlock_sends_witness:
  "\<exists>r w'. sendBlock demo_io 3 [1, 2, 3, 4, 5] False ([], 2, []) = Some (r, w') \<and> length (fst w') \<le> 5"
proof -
  obtain r w' where r: "sendBlock demo_io 3 [1, 2, 3, 4, 5] False ([], 2, []) = Some (r, w')"
    using sendBlock_loop_returns [OF demo_io_laws(2)] unfolding sendBlock_def by fastforce
  from sendBlock_sends [OF demo_io_laws(1) r] r show ?thesis by auto
qed

text \<open>
  \<open>sendBlock\<close> returns when only finitely many system calls fail.
\<close>

theorem sendBlock_returns:
  assumes "finitely_many_errors io fd patience"
  shows "\<exists>r w'. sendBlock io fd block msgMore w = Some (r, w')"
  using sendBlock_loop_returns [OF assms] unfolding sendBlock_def by fastforce

theorem sendBlock_returns_witness:
  "\<exists>r w'. sendBlock demo_io 3 [1, 2, 3, 4, 5] False ([], 2, []) = Some (r, w')"
  by (rule sendBlock_returns [OF demo_io_laws(2)])

text \<open>
  Claim C5: when \<open>sendBlocks\<close> on at least one block returns, what was sent is a prefix of the concatenation of the blocks,
  and all of it when the result is the total length and not 0; every other result is 0 or -1. The reorganisation of the
  blocks after a partial write never reads behind the last block. Without any block the call is undefined, and nothing is sent.
\<close>

theorem sendBlocks_sends:
  assumes "send_laws io fd sent" and "length (concat blocks) < 2 ^ 64"
    and "sendBlocks io fd blocks msgMore w = Some (r, w')"
  shows "\<exists>k \<le> length (concat blocks). sent w' = sent w @ take k (concat blocks) \<and>
    (if blocks = [] then r = Inl UndefinedBehaviour
     else r = Inr 0 \<or> r = Inr (- 1) \<or> r = Inr (int (length (concat blocks))) \<and> k = length (concat blocks))"
  using sendBlocks_loop_sends [OF _ assms(1,2)] assms(3)
  by (cases "blocks = []") (auto simp: sendBlocks_def sendBlocks_array_def foldl_snoc foldl_length Let_def)

theorem sendBlocks_sends_witness:
  "\<exists>k \<le> 3. fst ([1, 2, 3], 0, []) = [] @ take k (concat [[1], [], [2, 3 :: 8 word]])"
proof -
  have "sendBlocks demo_io 3 [[1], [], [2, 3]] False ([], 0, []) = Some (Inr 3, [1, 2, 3], 0, [])"
    by (simp add: sendBlocks_def sendBlocks_array_def sendBlocks_loop.simps demo_io_def size_minus_def Let_def)
  from sendBlocks_sends [OF demo_io_laws(1) _ this] show ?thesis by auto
qed

text \<open>
  Claim C16: when \<open>receiveComplete\<close> returns for a size below 2 ^ 31, the bytes it stored are the next bytes of the
  stream, at most the size requested, none is lost from the stream but those stored, and the result is their
  number, or -1 for an error or a timeout.
\<close>

theorem receiveComplete_stream:
  assumes "readv_laws (io_readv io) fd incoming" and "reader_ok r"
    and "\<forall>w. incoming (snd (io_poll_in io fd msTimeout w)) = incoming w"
    and "receiveComplete io fd len msTimeout (r, w) = Some ((n, out), r', w')" and "len < 2 ^ 31"
  shows "ahead r @ incoming w = out @ ahead r' @ incoming w' \<and> length out \<le> len \<and>
    (n = - 1 \<or> n = int (length out))"
proof -
  have small: "to_int32 k = int k" if "k \<le> len" for k
    using that assms(5) by (simp add: to_int32_small)
  let ?valid = "\<lambda>(r, w). readv_laws (io_readv io) fd incoming \<and> reader_ok r"
  let ?unread = "\<lambda>(r, w). ahead r @ incoming w"
  have "\<exists>d. out = [] @ d \<and> ?unread (r, w) = d @ ?unread (r', w') \<and> length out \<le> len \<and>
      (n = - 1 \<or> n = to_int32 (length out) \<or> n = int len \<and> length out = len)"
  proof (rule buffered.receive_loop_stream [OF assms(4) [unfolded receiveComplete_def]])
    show "?valid (r, w)" using assms(1,2) by simp
    show "?unread (snd (poll_in io fd msTimeout s)) = ?unread s" for s
      using assms(3) by (simp add: poll_in_def split_beta)
    show "?valid (snd (poll_in io fd msTimeout s)) = ?valid s" for s
      by (simp add: poll_in_def split_beta)
  qed simp
  then show ?thesis using small by auto
qed

theorem receiveComplete_stream_witness:
  "\<exists>n out r' w'. receiveComplete demo_io 3 6 (- 1) (fresh_reader, [], 0, [1, 2, 3, 4, 5, 6, 7, 8]) =
       Some ((n, out), r', w') \<and> length out \<le> 6"
proof -
  have "recv (io_readv demo_io) 3 6 (fresh_reader, [], 0, [1, 2, 3, 4, 5, 6, 7, 8]) =
      (Inr [1, 2, 3, 4, 5], fresh_reader, [], 0, [6, 7, 8])"
    by (simp add: recv_def size_minus_def demo_io_def fresh_reader_def BufferedReader_ctor_def BUFFER_SIZE_def)
  moreover obtain r' where "recv (io_readv demo_io) 3 1 (fresh_reader, [], 0, [6, 7, 8]) = (Inr [6], r', [], 0, [])"
    by (simp add: recv_def size_minus_def demo_io_def fresh_reader_def BufferedReader_ctor_def BUFFER_SIZE_def)
  ultimately have r: "receiveComplete demo_io 3 6 (- 1) (fresh_reader, [], 0, [1, 2, 3, 4, 5, 6, 7, 8]) =
      Some ((6, [1, 2, 3, 4, 5, 6]), r', [], 0, [])"
    by (simp add: receiveComplete_def receive_loop.simps)
  have "readv_laws (io_readv demo_io) 3 (\<lambda>w. snd (snd w))" by (rule demo_io_laws)
  from receiveComplete_stream [OF this fresh_reader_ok(1) _ r] r show ?thesis
    by (simp add: demo_io_def)
qed

end
