(* ===== verification/StdString.thy ===== *)
theory StdString
  imports HbmPrelude
begin

text \<open>
  The operations of \<open>std::string\<close> that the library uses, on \<open>string\<close> (a list of
  8-bit characters). A position returned by a search is an option: \<open>None\<close> is
  \<open>std::string::npos\<close>. A count that the code computes from \<open>npos\<close> (such as
  \<open>pos_end-pos_start\<close>) exceeds every string length, so it is \<open>None\<close> as well and means
  "to the end of the string". \<open>substr\<close> and \<open>replace\<close> throw \<open>std::out_of_range\<close> when
  the position is past the end.
\<close>

section \<open>Searching\<close>

text \<open>The leftmost occurrence of a sequence; the empty sequence occurs at 0.\<close>

fun find_sub :: "'a list \<Rightarrow> 'a list \<Rightarrow> nat option" where
  "find_sub needle [] = (if needle = [] then Some 0 else None)"
| "find_sub needle (x # xs) =
     (if prefix needle (x # xs) then Some 0 else map_option Suc (find_sub needle xs))"

definition str_find :: "string \<Rightarrow> string \<Rightarrow> nat \<Rightarrow> nat option" where
  "str_find text needle pos =
     (if pos \<le> length text then map_option (\<lambda>i. pos + i) (find_sub needle (drop pos text))
      else None)"

definition str_find_char :: "string \<Rightarrow> char \<Rightarrow> nat \<Rightarrow> nat option" where
  "str_find_char text c pos =
     map_option (\<lambda>i. pos + i) (find_first (\<lambda>x. x = c) (drop pos text))"

definition str_find_first_not_of :: "string \<Rightarrow> char \<Rightarrow> nat option" where
  "str_find_first_not_of text c = find_first (\<lambda>x. x \<noteq> c) text"

definition str_find_last_not_of :: "string \<Rightarrow> char \<Rightarrow> nat option" where
  "str_find_last_not_of text c =
     map_option (\<lambda>i. length text - 1 - i) (find_first (\<lambda>x. x \<noteq> c) (rev text))"

section \<open>Extracting and changing\<close>

definition str_substr :: "string \<Rightarrow> nat \<Rightarrow> nat option \<Rightarrow> cxx_exception + string" where
  "str_substr text pos cnt =
     (if length text < pos then Inl OutOfRange
      else Inr (case cnt of None \<Rightarrow> drop pos text | Some n \<Rightarrow> take n (drop pos text)))"

definition str_replace :: "string \<Rightarrow> nat \<Rightarrow> nat \<Rightarrow> string \<Rightarrow> cxx_exception + string" where
  "str_replace text pos n sub =
     (if length text < pos then Inl OutOfRange
      else Inr (take pos text @ sub @ drop (pos + n) text))"

text \<open>\<open>erase(0, n)\<close> with \<open>n\<close> possibly \<open>npos\<close>, and \<open>erase(pos)\<close>.\<close>

definition str_erase_prefix :: "string \<Rightarrow> nat option \<Rightarrow> string" where
  "str_erase_prefix text cnt = (case cnt of None \<Rightarrow> [] | Some n \<Rightarrow> drop n text)"

definition str_erase_from :: "string \<Rightarrow> nat \<Rightarrow> cxx_exception + string" where
  "str_erase_from text pos =
     (if length text < pos then Inl OutOfRange else Inr (take pos text))"

text \<open>\<open>text[i]\<close>: the terminating null character at \<open>i = size()\<close>, undefined past it.\<close>

definition str_at :: "string \<Rightarrow> nat \<Rightarrow> cxx_exception + char" where
  "str_at text i =
     (if i < length text then Inr (text ! i)
      else if i = length text then Inr (CHR 0x00) else Inl UndefinedBehaviour)"

section \<open>Facts about the search\<close>

lemma find_sub_Nil [simp]: "find_sub [] xs = Some 0"
  by (cases xs) auto

lemma find_sub_SomeD:
  assumes "find_sub needle xs = Some i"
  shows "i + length needle \<le> length xs"
    and "take (length needle) (drop i xs) = needle"
    and "prefix needle (drop i xs)"
proof -
  have *: "prefix needle (drop i xs) \<and> i \<le> length xs"
    using assms by (induction xs arbitrary: i) (auto split: if_splits)
  then obtain zs where zs: "drop i xs = needle @ zs" by (auto simp: prefix_def)
  with * have "length xs - i = length needle + length zs"
    by (metis length_append length_drop)
  with * show "i + length needle \<le> length xs" by linarith
  from zs show "take (length needle) (drop i xs) = needle" by simp
  from * show "prefix needle (drop i xs)" by simp
qed

lemma find_sub_decomp:
  assumes "find_sub needle xs = Some i"
  shows "xs = take i xs @ needle @ drop (i + length needle) xs"
proof -
  have "drop i xs = take (length needle) (drop i xs) @ drop (length needle) (drop i xs)"
    by (rule append_take_drop_id [symmetric])
  with find_sub_SomeD(2) [OF assms] have "drop i xs = needle @ drop (i + length needle) xs"
    by (simp only: drop_drop add.commute)
  then show ?thesis by (metis append_take_drop_id)
qed

lemma find_sub_leftmost:
  "find_sub needle xs = Some i \<Longrightarrow> j < i \<Longrightarrow> \<not> prefix needle (drop j xs)"
proof (induction xs arbitrary: i j)
  case Nil
  then show ?case by (auto split: if_splits)
next
  case (Cons x xs)
  then show ?case by (cases j) (auto split: if_splits)
qed

lemma find_sub_None_iff: "find_sub needle xs = None \<longleftrightarrow> \<not> sublist needle xs"
proof (induction xs)
  case Nil
  then show ?case by auto
next
  case (Cons x xs)
  then show ?case by (auto simp: sublist_Cons_right)
qed

lemma find_sub_prefix: "prefix needle xs \<Longrightarrow> find_sub needle xs = Some 0"
  by (cases xs) auto

text \<open>A token that ends where the leftmost occurrence starts does not hold the needle.\<close>

lemma find_sub_take_free:
  assumes "find_sub needle xs = Some i" and "needle \<noteq> []"
  shows "\<not> sublist needle (take i xs)"
proof
  assume "sublist needle (take i xs)"
  then obtain ps ss where d: "take i xs = ps @ needle @ ss"
    by (auto simp: sublist_def)
  then have "length (take i xs) = length ps + length needle + length ss" by simp
  moreover have "length needle > 0" using \<open>needle \<noteq> []\<close> by simp
  ultimately have "length ps < i" by (simp only: length_take)
  moreover have "prefix needle (drop (length ps) xs)"
  proof -
    have "xs = ps @ needle @ ss @ drop i xs"
      using d append_take_drop_id [of i xs] by (metis append.assoc)
    then have "drop (length ps) xs = needle @ ss @ drop i xs"
      by (metis append_eq_conv_conj)
    then show ?thesis by simp
  qed
  ultimately show False using find_sub_leftmost [OF assms(1)] by blast
qed

lemma find_sub_single: "find_sub [c] xs = find_first (\<lambda>x. x = c) xs"
  by (induction xs) auto

lemma sublist_single_iff: "sublist [c] xs \<longleftrightarrow> c \<in> set xs"
  using find_sub_None_iff [of "[c]" xs] find_first_None_iff [of "\<lambda>x. x = c" xs]
  by (auto simp: find_sub_single)

lemma str_find_char_eq: "str_find_char text c pos = str_find text [c] pos"
  by (simp add: str_find_char_def str_find_def find_sub_single)

lemma str_find_bounds [find_bounds]:
  assumes "str_find text needle pos = Some i"
  shows "pos \<le> i" and "i + length needle \<le> length text"
  using assms find_sub_SomeD(1) [of needle "drop pos text"]
  by (auto simp: str_find_def split: if_splits)

lemma str_find_char_bounds [find_bounds]:
  assumes "str_find_char text c pos = Some i"
  shows "pos \<le> i" and "i < length text"
  using assms str_find_bounds [of "text" "[c]" pos i] by (simp_all add: str_find_char_eq)

lemma find_first_not_eq:
  "find_first (\<lambda>x. x \<noteq> c) xs =
     (if dropWhile (\<lambda>x. x = c) xs = [] then None
      else Some (length (takeWhile (\<lambda>x. x = c) xs)))"
  by (auto simp: find_first_takeWhile dropWhile_Nil_iff)

end
