(* ===== verification/StringTools.thy ===== *)
theory StringTools
  imports StdString
begin

text \<open>
  \<open>hbm::string\<close>: \<open>lib/string/split.cpp\<close>, \<open>lib/string/replace.cpp\<close> and
  \<open>lib/string/trim.cpp\<close>. The \<open>while(1)\<close> loops of \<open>split\<close> are total functions
  (each round moves \<open>pos_start\<close> forward); the loop of \<open>replace\<close> may run forever, so it
  is a partial function whose value \<open>None\<close> means that the call does not return. Functions
  that change their argument return the changed string. The locale \<open>tokenizer\<close> is the
  contract that \<open>split\<close> offers to the address code.
\<close>

type_synonym tokens = "string list"

section \<open>split.cpp\<close>

function split_char_loop ::
  "string \<Rightarrow> char \<Rightarrow> nat \<Rightarrow> tokens \<Rightarrow> cxx_exception + tokens" where
  "split_char_loop text separator pos_start result =
     (let pos_end = str_find_char text separator pos_start in
      case str_substr text pos_start (map_option (\<lambda>e. e - pos_start) pos_end) of
        Inl ex \<Rightarrow> Inl ex
      | Inr token \<Rightarrow>
          (case pos_end of
             None \<Rightarrow> Inr (result @ [token])
           | Some e \<Rightarrow> split_char_loop text separator (e + 1) (result @ [token])))"
  by pat_completeness auto
termination
proof (relation "measure (\<lambda>(text, separator, pos_start, result). Suc (length text) - pos_start)",
    goal_cases)
  case 1
  then show ?case by simp
next
  case (2 s separator pos_start result pos_end token e)
  then have "pos_start \<le> e" and "e < length s"
    using str_find_char_bounds [of s separator pos_start e] by simp_all
  then show ?case by simp
qed

declare split_char_loop.simps [simp del]

definition split_char :: "string \<Rightarrow> char \<Rightarrow> cxx_exception + tokens" where
  "split_char text separator = split_char_loop text separator 0 []"

function split_loop ::
  "string \<Rightarrow> string \<Rightarrow> nat \<Rightarrow> tokens \<Rightarrow> cxx_exception + tokens" where
  "split_loop text separator pos_start result =
     (if separator = [] then Inr (result @ [text]) else
      let pos_end = str_find text separator pos_start in
      case str_substr text pos_start (map_option (\<lambda>e. e - pos_start) pos_end) of
        Inl ex \<Rightarrow> Inl ex
      | Inr token \<Rightarrow>
          (case pos_end of
             None \<Rightarrow> Inr (result @ [token])
           | Some e \<Rightarrow>
               split_loop text separator (e + length separator) (result @ [token])))"
  by pat_completeness auto
termination
proof (relation "measure (\<lambda>(text, separator, pos_start, result). Suc (length text) - pos_start)",
    goal_cases)
  case 1
  then show ?case by simp
next
  case (2 s separator pos_start result pos_end token e)
  then have "pos_start \<le> e" and "e + length separator \<le> length s"
    using str_find_bounds [of s separator pos_start e] by simp_all
  with 2 show ?case by (cases separator) auto
qed

declare split_loop.simps [simp del]

text \<open>
  The source tests for the empty separator once, before the loop; \<open>split_loop\<close> carries the
  test so that it is total.
\<close>

definition split_str :: "string \<Rightarrow> string \<Rightarrow> cxx_exception + tokens" where
  "split_str text separator =
     (if length separator = 0 then Inr [text] else split_loop text separator 0 [])"

section \<open>replace.cpp\<close>

definition replace_char :: "string \<Rightarrow> char \<Rightarrow> char \<Rightarrow> string" where
  "replace_char text search substitute = map (\<lambda>c. if c = search then substitute else c) text"

partial_function (option) replace_loop ::
  "string \<Rightarrow> string \<Rightarrow> string \<Rightarrow> nat \<Rightarrow> (cxx_exception + string) option" where
  "replace_loop text search substitute position =
     (case str_find text search position of
        None \<Rightarrow> Some (Inr text)
      | Some p \<Rightarrow>
          (case str_replace text p (length search) substitute of
             Inl ex \<Rightarrow> Some (Inl ex)
           | Inr text' \<Rightarrow> replace_loop text' search substitute (p + length search)))"

definition replace_str :: "string \<Rightarrow> string \<Rightarrow> string \<Rightarrow> (cxx_exception + string) option" where
  "replace_str text search substitute = replace_loop text search substitute 0"

section \<open>trim.cpp\<close>

definition trim_copy :: "string \<Rightarrow> cxx_exception + string" where
  "trim_copy text =
     (case str_find_first_not_of text (CHR '' '') of
        None \<Rightarrow> Inr []
      | Some start \<Rightarrow>
          (case str_find_last_not_of text (CHR '' '') of
             None \<Rightarrow> str_substr text start None
           | Some stop \<Rightarrow> str_substr text start (Some (stop - start + 1))))"

definition trim_left_if :: "string \<Rightarrow> char \<Rightarrow> string" where
  "trim_left_if text ch = str_erase_prefix text (str_find_first_not_of text ch)"

definition trim_right_if :: "string \<Rightarrow> char \<Rightarrow> cxx_exception + string" where
  "trim_right_if text ch =
     (case str_find_last_not_of text ch of
        None \<Rightarrow>
          (case str_at text 0 of
             Inl ex \<Rightarrow> Inl ex
           | Inr c \<Rightarrow> Inr (if c = ch then [] else text))
      | Some stop \<Rightarrow> str_erase_from text (stop + 1))"

definition trim_left :: "string \<Rightarrow> string" where
  "trim_left text = str_erase_prefix text (str_find_first_not_of text (CHR '' ''))"

definition trim_right :: "string \<Rightarrow> cxx_exception + string" where
  "trim_right text =
     (case str_find_last_not_of text (CHR '' '') of
        None \<Rightarrow>
          (case str_at text 0 of
             Inl ex \<Rightarrow> Inl ex
           | Inr c \<Rightarrow> Inr (if c = CHR '' '' then [] else text))
      | Some stop \<Rightarrow> str_erase_from text (stop + 1))"

definition trim :: "string \<Rightarrow> cxx_exception + string" where
  "trim text = trim_right (trim_left text)"

section \<open>The reference splitter\<close>

text \<open>Splitting without positions: cut at the leftmost separator and go on after it.\<close>

function tokens_of :: "'a list \<Rightarrow> 'a list \<Rightarrow> 'a list list" where
  "tokens_of sep xs =
     (if sep = [] then [xs] else
      case find_sub sep xs of
        None \<Rightarrow> [xs]
      | Some i \<Rightarrow> take i xs # tokens_of sep (drop (i + length sep) xs))"
  by pat_completeness auto
termination
proof (relation "measure (\<lambda>(sep, xs). length xs)", goal_cases)
  case 1
  then show ?case by simp
next
  case (2 sep xs i)
  then show ?case using find_sub_SomeD(1) [of sep xs i] by (cases sep) auto
qed

declare tokens_of.simps [simp del]

lemma tokens_of_not_Nil [simp]: "tokens_of sep xs \<noteq> []"
  by (subst tokens_of.simps) (simp split: option.splits)

lemma join_tokens_of: "sep \<noteq> [] \<Longrightarrow> join sep (tokens_of sep xs) = xs"
proof (induction sep xs rule: tokens_of.induct)
  case (1 sep xs)
  show ?case
  proof (cases "find_sub sep xs")
    case None
    then show ?thesis using 1 by (subst tokens_of.simps) simp
  next
    case (Some i)
    with 1 have "join sep (tokens_of sep (drop (i + length sep) xs)) = drop (i + length sep) xs"
      by simp
    then show ?thesis
      using 1 Some find_sub_decomp [OF Some]
      by (subst tokens_of.simps) (simp add: join_Cons)
  qed
qed

lemma tokens_of_free:
  assumes "sep \<noteq> []" and "t \<in> set (tokens_of sep xs)"
  shows "\<not> sublist sep t"
  using assms
proof (induction sep xs rule: tokens_of.induct)
  case (1 sep xs)
  show ?case
  proof (cases "find_sub sep xs")
    case None
    then have "t = xs" using 1 by (simp add: tokens_of.simps [of sep xs])
    with None show ?thesis by (simp add: find_sub_None_iff)
  next
    case (Some i)
    then have "t = take i xs \<or> t \<in> set (tokens_of sep (drop (i + length sep) xs))"
      using 1 by (simp add: tokens_of.simps [of sep xs])
    then show ?thesis using 1 Some find_sub_take_free [OF Some] by auto
  qed
qed

lemma find_sub_skip:
  assumes "c \<notin> set t"
  shows "find_sub [c] (t @ c # us) = Some (length t)"
  using assms by (induction t) (auto split: if_splits)

lemma tokens_of_join_single:
  assumes "ts \<noteq> []" and "\<forall>t \<in> set ts. c \<notin> set t"
  shows "tokens_of [c] (join [c] ts) = ts"
  using assms
proof (induction ts rule: list_nonempty_induct)
  case (single t)
  then have "find_sub [c] t = None" by (auto simp: find_sub_single find_first_None_iff)
  then show ?case by (subst tokens_of.simps) simp
next
  case (cons t ts)
  then have "find_sub [c] (t @ c # join [c] ts) = Some (length t)"
    by (simp add: find_sub_skip)
  moreover have "join [c] (t # ts) = t @ c # join [c] ts"
    using cons by (simp add: join_Cons)
  ultimately show ?case using cons by (subst tokens_of.simps) simp
qed

section \<open>The loops of split compute the reference\<close>

lemma split_loop_eq:
  assumes "separator \<noteq> []" and "pos_start \<le> length text"
  shows "split_loop text separator pos_start result =
           Inr (result @ tokens_of separator (drop pos_start text))"
  using assms
proof (induction "text" separator pos_start result rule: split_loop.induct)
  case (1 "text" separator pos_start result)
  show ?case
  proof (cases "find_sub separator (drop pos_start text)")
    case None
    then have "str_find text separator pos_start = None" using 1 by (simp add: str_find_def)
    then show ?thesis
      using 1 None by (simp add: split_loop.simps [of "text" separator pos_start result]
          tokens_of.simps [of separator "drop pos_start text"] str_substr_def)
  next
    case (Some i)
    then have f: "str_find text separator pos_start = Some (pos_start + i)"
      using 1 by (simp add: str_find_def)
    have "pos_start + i + length separator \<le> length text"
      using find_sub_SomeD(1) [OF Some] 1 by simp
    then show ?thesis
      using 1 f Some by (simp add: split_loop.simps [of "text" separator pos_start result]
          tokens_of.simps [of separator "drop pos_start text"] str_substr_def
          add.commute add.left_commute)
  qed
qed

lemma split_str_eq: "separator \<noteq> [] \<Longrightarrow> split_str text separator = Inr (tokens_of separator text)"
  by (simp add: split_str_def split_loop_eq)

lemma split_char_loop_eq:
  "split_char_loop text c pos_start result = split_loop text [c] pos_start result"
proof (induction "text" c pos_start result rule: split_char_loop.induct)
  case (1 "text" c pos_start result)
  then show ?case
    by (simp add: split_char_loop.simps [of "text" c pos_start result]
        split_loop.simps [of "text" "[c]" pos_start result] str_find_char_eq Let_def
        split: option.splits sum.splits)
qed

lemma split_char_eq: "split_char text c = Inr (tokens_of [c] text)"
  by (simp add: split_char_def split_char_loop_eq split_loop_eq)


section \<open>The contract of split\<close>

text \<open>
  What a caller may rely on: splitting always returns tokens, joining them gives the text
  back, and text joined from separator-free tokens splits into these tokens.
\<close>

locale tokenizer =
  fixes split :: "string \<Rightarrow> char \<Rightarrow> cxx_exception + tokens"
  assumes split_total: "\<exists>ts. split s c = Inr ts \<and> ts \<noteq> []"
    and join_split: "split s c = Inr ts \<Longrightarrow> join [c] ts = s"
    and split_free: "split s c = Inr ts \<Longrightarrow> \<forall>t \<in> set ts. c \<notin> set t"
    and split_join: "ts \<noteq> [] \<Longrightarrow> \<forall>t \<in> set ts. c \<notin> set t \<Longrightarrow> split (join [c] ts) c = Inr ts"
begin

lemma split_inj: "split s c = Inr ts \<Longrightarrow> split s' c = Inr ts \<Longrightarrow> s = s'"
  using join_split by metis

lemma split_four:
  assumes "c \<notin> set a1" and "c \<notin> set a2" and "c \<notin> set a3" and "c \<notin> set a4"
  shows "split (a1 @ c # a2 @ c # a3 @ c # a4) c = Inr [a1, a2, a3, a4]"
  using split_join [of "[a1, a2, a3, a4]" c] assms by simp

lemma count_join: "\<forall>t \<in> set ts. c \<notin> set t \<Longrightarrow> ts \<noteq> [] \<Longrightarrow>
    Suc (count_list (join [c] ts) c) = length ts"
proof (induction ts rule: induct_list012)
  case (3 t u ts)
  then have "count_list t c = 0" by (simp add: count_list_0_iff)
  with 3 show ?case by simp
qed (auto simp: count_list_0_iff)

lemma length_split: "split s c = Inr ts \<Longrightarrow> length ts = Suc (count_list s c)"
  using split_total [of s c] join_split split_free count_join by fastforce

end

interpretation splitter: tokenizer split_char
proof (unfold_locales, goal_cases)
  case (1 s c)
  show ?case by (simp add: split_char_eq)
next
  case (2 s c ts)
  then show ?case using join_tokens_of [of "[c]" s] by (simp add: split_char_eq)
next
  case (3 s c ts)
  then have "ts = tokens_of [c] s" by (simp add: split_char_eq)
  then have "\<not> sublist [c] t" if "t \<in> set ts" for t
    using that tokens_of_free [of "[c]" t s] by simp
  then show ?case by (auto simp: sublist_single_iff)
next
  case (4 ts c)
  then show ?case by (simp add: split_char_eq tokens_of_join_single)
qed

section \<open>replace\<close>

lemma str_find_None_iff:
  "pos \<le> length text \<Longrightarrow> str_find text needle pos = None \<longleftrightarrow> \<not> sublist needle (drop pos text)"
  by (simp add: str_find_def find_sub_None_iff)

lemma replace_loop_split:
  assumes "search \<noteq> []" and "length substitute = length search"
  shows "replace_loop (done_part @ rest) search substitute (length done_part) =
           Some (Inr (done_part @ join substitute (tokens_of search rest)))"
  using assms
proof (induction search rest arbitrary: done_part rule: tokens_of.induct)
  case (1 search rest)
  show ?case
  proof (cases "find_sub search rest")
    case None
    then show ?thesis
      by (subst replace_loop.simps, subst tokens_of.simps) (simp add: str_find_def)
  next
    case (Some i)
    let ?rest = "drop (i + length search) rest"
    let ?done = "done_part @ take i rest @ substitute"
    have le: "i + length search \<le> length rest" using find_sub_SomeD(1) [OF Some] .
    have "replace_loop (?done @ ?rest) search substitute (length ?done) =
            Some (Inr (?done @ join substitute (tokens_of search ?rest)))"
      using 1 Some by blast
    moreover have "length ?done = length done_part + i + length search"
      using le 1 by simp
    ultimately show ?thesis
      using 1 Some le
      by (subst replace_loop.simps, subst tokens_of.simps)
         (simp add: str_find_def str_replace_def join_Cons add.assoc)
  qed
qed

lemma replace_loop_diverges:
  assumes "sublist search (drop (length search) substitute)"
    and "position \<le> length text" and "sublist search (drop position text)"
  shows "replace_loop text search substitute position = None"
proof (rule ccontr)
  assume "replace_loop text search substitute position \<noteq> None"
  then obtain r where "replace_loop text search substitute position = Some r" by blast
  then have "\<not> (sublist search (drop (length search) substitute) \<and>
      position \<le> length text \<and> sublist search (drop position text))"
  proof (rule replace_loop.raw_induct [where P = "\<lambda>s search substitute position r.
      \<not> (sublist search (drop (length search) substitute) \<and>
         position \<le> length s \<and> sublist search (drop position s))", rotated])
    fix f s search substitute position r
    assume IH: "\<And>s search substitute position r. f s search substitute position = Some r \<Longrightarrow>
        \<not> (sublist search (drop (length search) substitute) \<and>
           position \<le> length s \<and> sublist search (drop position s))"
      and eq: "(case str_find s search position of None \<Rightarrow> Some (Inr s)
          | Some p \<Rightarrow> (case str_replace s p (length search) substitute of
              Inl ex \<Rightarrow> Some (Inl ex)
            | Inr s' \<Rightarrow> f s' search substitute (p + length search))) = Some r"
    show "\<not> (sublist search (drop (length search) substitute) \<and>
        position \<le> length s \<and> sublist search (drop position s))"
    proof
      assume inv: "sublist search (drop (length search) substitute) \<and>
          position \<le> length s \<and> sublist search (drop position s)"
      then obtain p where p: "str_find s search position = Some p"
        using str_find_None_iff [of position s search] by auto
      let ?s' = "take p s @ substitute @ drop (p + length search) s"
      have le: "p + length search \<le> length s" using str_find_bounds [OF p] by simp
      with p eq have "f ?s' search substitute (p + length search) = Some r"
        by (simp add: str_replace_def)
      moreover have long: "length search \<le> length substitute"
        using inv by (cases search) (auto dest!: sublist_length_le)
      moreover have "drop (p + length search) ?s' =
          drop (length search) substitute @ drop (p + length search) s"
        using le long by simp
      moreover have "sublist search (drop (length search) substitute @ drop (p + length search) s)"
        using inv by (auto simp: sublist_append)
      ultimately show False using IH [of ?s' search substitute "p + length search" r] inv le
        by simp
    qed
  qed
  with assms show False by blast
qed

lemma replace_loop_returns:
  assumes "search \<noteq> []" and "length substitute \<le> length search"
  shows "\<exists>r. replace_loop text search substitute position = Some (Inr r)"
proof (induction "length text - position" arbitrary: "text" position rule: less_induct)
  case less
  show ?case
  proof (cases "str_find text search position")
    case None
    then show ?thesis by (subst replace_loop.simps) simp
  next
    case (Some p)
    let ?s' = "take p text @ substitute @ drop (p + length search) text"
    have le: "position \<le> p" "p + length search \<le> length text" "0 < length search"
      using str_find_bounds [OF Some] assms(1) by simp_all
    then have "length ?s' - (p + length search) < length text - position"
      using assms(2) by (simp add: min_def del: length_greater_0_conv)
    from less [OF this] show ?thesis
      using Some le by (subst replace_loop.simps) (simp add: str_replace_def)
  qed
qed


section \<open>trim\<close>

text \<open>Removing the trailing characters equal to \<open>c\<close>, on lists.\<close>

definition rstrip :: "'a \<Rightarrow> 'a list \<Rightarrow> 'a list" where
  "rstrip c xs = rev (dropWhile (\<lambda>x. x = c) (rev xs))"

lemma rstrip_decomp: "xs = rstrip c xs @ replicate (length (takeWhile (\<lambda>x. x = c) (rev xs))) c"
proof -
  have "rev xs = replicate (length (takeWhile (\<lambda>x. x = c) (rev xs))) c
      @ dropWhile (\<lambda>x. x = c) (rev xs)"
    by (metis takeWhile_dropWhile_id takeWhile_dropWhile_replicate)
  then have "rev (rev xs) = rstrip c xs @ rev (replicate (length (takeWhile (\<lambda>x. x = c) (rev xs))) c)"
    unfolding rstrip_def by (metis rev_append)
  then show ?thesis by simp
qed

lemma rstrip_last: "rstrip c xs \<noteq> [] \<Longrightarrow> last (rstrip c xs) \<noteq> c"
  using hd_dropWhile_not [of "\<lambda>x. x = c" "rev xs"] by (simp add: rstrip_def last_rev)

lemma str_find_first_not_of_eq:
  "str_find_first_not_of text c =
     (if dropWhile (\<lambda>x. x = c) text = [] then None
      else Some (length (takeWhile (\<lambda>x. x = c) text)))"
  by (simp only: str_find_first_not_of_def find_first_not_eq)

lemma str_find_last_not_of_eq:
  "str_find_last_not_of text c =
     (if rstrip c text = [] then None else Some (length (rstrip c text) - 1))"
proof -
  have "length text = length (rstrip c text) + length (takeWhile (\<lambda>x. x = c) (rev text))"
    using arg_cong [OF rstrip_decomp [of "text" c], of length] by simp
  then show ?thesis
    by (simp add: str_find_last_not_of_def find_first_not_eq rstrip_def)
qed

lemma trim_left_if_eq: "trim_left_if text ch = dropWhile (\<lambda>x. x = ch) text"
  by (simp add: trim_left_if_def str_find_first_not_of_eq str_erase_prefix_def dropWhile_eq_drop)

lemma take_rstrip: "take (length (rstrip c xs)) xs = rstrip c xs"
  by (metis append_eq_conv_conj rstrip_decomp)

lemma trim_right_if_eq: "trim_right_if text ch = Inr (rstrip ch text)"
proof (cases "rstrip ch text = []")
  case True
  then have "\<forall>x \<in> set text. x = ch" by (simp add: rstrip_def dropWhile_Nil_iff)
  then show ?thesis
    using True by (cases "text") (auto simp: trim_right_if_def str_find_last_not_of_eq str_at_def)
next
  case False
  then have "Suc (length (rstrip ch text) - 1) = length (rstrip ch text)" by simp
  moreover have "length (rstrip ch text) \<le> length text"
    using take_rstrip [of ch "text"] by (metis length_take min.cobounded1)
  ultimately show ?thesis
    using False by (simp add: trim_right_if_def str_find_last_not_of_eq str_erase_from_def take_rstrip)
qed

lemma trim_left_eq: "trim_left text = trim_left_if text (CHR '' '')"
  by (simp add: trim_left_def trim_left_if_def)

lemma trim_right_eq: "trim_right text = trim_right_if text (CHR '' '')"
  by (simp add: trim_right_def trim_right_if_def)

lemmas trim_eqs = trim_left_eq trim_left_if_eq trim_right_eq trim_right_if_eq

lemma trim_eq: "trim text = Inr (rstrip (CHR '' '') (dropWhile (\<lambda>x. x = CHR '' '') text))"
  by (simp add: trim_def trim_eqs)

lemma rstrip_Nil_iff: "rstrip c xs = [] \<longleftrightarrow> (\<forall>x \<in> set xs. x = c)"
  by (simp add: rstrip_def dropWhile_Nil_iff)

lemma rstrip_append: "rstrip c ys \<noteq> [] \<Longrightarrow> rstrip c (xs @ ys) = xs @ rstrip c ys"
  by (auto simp: rstrip_Nil_iff) (simp add: rstrip_def dropWhile_append1)

lemma trim_copy_eq: "trim_copy text = trim text"
proof -
  define b where "b = CHR '' ''"
  define lead where "lead = takeWhile (\<lambda>x. x = b) text"
  define mid where "mid = dropWhile (\<lambda>x. x = b) text"
  have t: "text = lead @ mid" by (simp add: lead_def mid_def)
  have first: "str_find_first_not_of text b = (if mid = [] then None else Some (length lead))"
    by (simp only: str_find_first_not_of_eq lead_def mid_def)
  show ?thesis
  proof (cases "mid = []")
    case True
    then show ?thesis
      using first by (simp add: trim_copy_def trim_eq b_def mid_def [unfolded b_def, symmetric] rstrip_def)
  next
    case False
    then have "hd mid \<noteq> b" and "hd mid \<in> set mid"
      using hd_dropWhile_not [of "\<lambda>x. x = b" "text"] by (simp_all add: mid_def)
    then have ne: "rstrip b mid \<noteq> []" by (auto simp: rstrip_Nil_iff)
    then have "rstrip b text = lead @ rstrip b mid" unfolding t by (rule rstrip_append)
    then have last: "str_find_last_not_of text b = Some (length lead + length (rstrip b mid) - 1)"
      using ne by (simp add: str_find_last_not_of_eq)
    have "trim_copy text = Inr (take (length (rstrip b mid)) mid)"
      using False ne first last t
      by (simp add: trim_copy_def b_def [symmetric] str_substr_def Suc_diff_le)
    then show ?thesis
      by (simp add: trim_eq b_def [symmetric] mid_def [symmetric] take_rstrip)
  qed
qed

section \<open>Properties\<close>

text \<open>
  Splitting at a non-empty separator string never throws; joining the tokens with
  the separator gives the text back, and no token contains the separator.
\<close>

theorem split_str_correct:
  assumes "separator \<noteq> []"
  shows "\<exists>ts. split_str text separator = Inr ts \<and> join separator ts = text \<and> ts \<noteq> [] \<and>
           (\<forall>t \<in> set ts. \<not> sublist separator t)"
  using assms by (simp add: split_str_eq join_tokens_of tokens_of_free)

theorem split_str_correct_witness:
  "\<exists>ts. split_str ''a::b'' ''::'' = Inr ts \<and> join ''::'' ts = ''a::b'' \<and> ts \<noteq> []"
  using split_str_correct [of "''::''" "''a::b''"] by auto

text \<open>
  The two overloads of split agree: splitting at a character is splitting at the
  string that holds this character.
\<close>

theorem split_overloads_agree: "split_char text c = split_str text [c]"
  by (simp add: split_char_eq split_str_eq)

text \<open>
  Claim C40: splitting at a character inverts joining: a non-empty list of tokens free of the
  separator is recovered exactly, and the number of tokens of any text is one more than the
  number of separators in it.
\<close>

theorem split_join_roundtrip:
  assumes "ts \<noteq> []" and "\<forall>t \<in> set ts. c \<notin> set t"
  shows "split_char (join [c] ts) c = Inr ts \<and> length ts = Suc (count_list (join [c] ts) c)"
  using splitter.split_join [OF assms] splitter.length_split by blast

theorem split_join_roundtrip_witness:
  "split_char ''192.168..1'' (CHR ''.'') = Inr [''192'', ''168'', [], ''1''] \<and>
   length [''192'', ''168'', [], ''1''] = Suc (count_list ''192.168..1'' (CHR ''.''))"
  using split_join_roundtrip [of "[''192'', ''168'', [], ''1'']" "CHR ''.''"] by simp

text \<open>
  When the substitute is as long as a non-empty search string, replace returns the
  text with every token separator (the occurrences found from left to right) exchanged for
  the substitute.
\<close>

theorem replace_same_length:
  assumes "search \<noteq> []" and "length substitute = length search"
  shows "\<exists>ts. split_str text search = Inr ts \<and>
           replace_str text search substitute = Some (Inr (join substitute ts))"
  using replace_loop_split [OF assms, of "[]" "text"] assms(1)
  by (simp add: replace_str_def split_str_eq)

theorem replace_same_length_witness:
  "\<exists>ts. split_str ''1..2..3'' ''..'' = Inr ts \<and>
     replace_str ''1..2..3'' ''..'' ''::'' = Some (Inr (join ''::'' ts))"
  using replace_same_length [of "''..''" "''::''" "''1..2..3''"] by simp

text \<open>
  Replace returns, without an exception, whenever the search string is not empty
  and the substitute is not longer than it.
\<close>

theorem replace_returns:
  assumes "search \<noteq> []" and "length substitute \<le> length search"
  shows "\<exists>r. replace_str text search substitute = Some (Inr r)"
  using replace_loop_returns [OF assms] by (simp add: replace_str_def)

theorem replace_returns_witness: "\<exists>r. replace_str ''abab'' ''ab'' [] = Some (Inr r)"
  using replace_returns [of "''ab''" "[]"] by simp

text \<open>
  Replace never returns when the text contains the search string and the
  substitute contains it again behind as many characters as the search string has: the
  position advances by the length of the search string where the substitute's was meant, so
  every round finds what the round before wrote.
\<close>

theorem replace_diverges:
  assumes "sublist search (drop (length search) substitute)" and "sublist search text"
  shows "replace_str text search substitute = None"
  using replace_loop_diverges [OF assms(1), of 0 "text"] assms(2) by (simp add: replace_str_def)

theorem replace_diverges_witness: "replace_str ''a'' ''a'' ''aa'' = None"
  using replace_diverges [of "''a''" "''aa''" "''a''"] by simp

text \<open>
  Trim removes exactly the leading and trailing blanks and never throws, and
  \<open>trim_copy\<close> computes the same string.
\<close>

theorem trim_correct:
  "\<exists>m n core. trim text = Inr core \<and> trim_copy text = Inr core \<and>
     text = replicate m (CHR '' '') @ core @ replicate n (CHR '' '') \<and>
     (core = [] \<or> hd core \<noteq> CHR '' '' \<and> last core \<noteq> CHR '' '')"
proof -
  define b where "b = CHR '' ''"
  define mid where "mid = dropWhile (\<lambda>x. x = b) text"
  define core where "core = rstrip b mid"
  have "text = replicate (length (takeWhile (\<lambda>x. x = b) text)) b @ mid"
    unfolding mid_def by (metis takeWhile_dropWhile_id takeWhile_dropWhile_replicate)
  moreover obtain n where n: "mid = core @ replicate n b"
    unfolding core_def using rstrip_decomp [of mid b] by blast
  moreover have "core = [] \<or> hd core \<noteq> b \<and> last core \<noteq> b"
  proof (cases "core = []")
    case False
    then have "mid \<noteq> []" and "hd core = hd mid" using n by simp_all
    then show ?thesis
      using False rstrip_last [of b mid] hd_dropWhile_not [of "\<lambda>x. x = b" "text"]
      by (simp add: core_def mid_def)
  qed simp
  moreover have "trim text = Inr core" by (simp add: trim_eq core_def mid_def b_def)
  ultimately show ?thesis unfolding b_def trim_copy_eq by metis
qed

end
