(* ===== verification/InetText.thy ===== *)
theory InetText
  imports StringTools
begin

text \<open>
  Numbers and IPv4 addresses as text: \<open>std::to_string\<close> and \<open>std::stoul\<close> of the C++ library,
  the dotted-decimal form of an address, and the functions of \<open>arpa/inet.h\<close> as a record
  of parameters with the laws their manual pages document. Addresses are 32-bit words; the
  value of an address is in host byte order, \<open>s_addr\<close> is in network byte order.
\<close>

section \<open>to_string and stoul\<close>

definition digit_char :: "nat \<Rightarrow> char" where
  "digit_char d = char_of (48 + d)"

fun to_string :: "nat \<Rightarrow> string" where
  "to_string n = (if n < 10 then [digit_char n] else to_string (n div 10) @ [digit_char (n mod 10)])"

declare to_string.simps [simp del]

definition is_digit :: "char \<Rightarrow> bool" where
  "is_digit c \<longleftrightarrow> 48 \<le> (of_char c :: nat) \<and> (of_char c :: nat) \<le> 57"

definition is_space :: "char \<Rightarrow> bool" where
  "is_space c \<longleftrightarrow> (of_char c :: nat) = 32 \<or> 9 \<le> (of_char c :: nat) \<and> (of_char c :: nat) \<le> 13"

definition dec_value :: "string \<Rightarrow> nat" where
  "dec_value ds = foldl (\<lambda>v c. 10 * v + (of_char c - 48)) 0 ds"

text \<open>
  \<open>std::stoul(s, nullptr, 10)\<close>: white space, an optional sign and the longest run of digits;
  what follows is ignored. No digit throws \<open>std::invalid_argument\<close>, a magnitude outside
  \<open>unsigned long\<close> (64 bits) throws \<open>std::out_of_range\<close>, and a minus sign negates modulo
  \<open>2 ^ 64\<close>.
\<close>

definition stoul :: "string \<Rightarrow> cxx_exception + 64 word" where
  "stoul s =
     (let s1 = dropWhile is_space s;
          neg = (s1 \<noteq> [] \<and> hd s1 = CHR ''-'');
          s2 = (if s1 \<noteq> [] \<and> (hd s1 = CHR ''-'' \<or> hd s1 = CHR ''+'') then tl s1 else s1);
          ds = takeWhile is_digit s2
      in if ds = [] then Inl InvalidArgument
         else if 2 ^ 64 \<le> dec_value ds then Inl OutOfRange
         else Inr (if neg then - of_nat (dec_value ds) else of_nat (dec_value ds)))"

lemma of_char_digit: "d < 10 \<Longrightarrow> (of_char (digit_char d) :: nat) = 48 + d"
  by (simp add: digit_char_def)

lemma is_digit_digit [simp]: "d < 10 \<Longrightarrow> is_digit (digit_char d)"
  by (simp add: is_digit_def of_char_digit)

lemma to_string_digits: "\<forall>c \<in> set (to_string n). is_digit c"
proof (induction n rule: to_string.induct)
  case (1 n)
  then show ?case by (subst to_string.simps) auto
qed

lemma to_string_not_Nil [simp]: "to_string n \<noteq> []"
  by (subst to_string.simps) simp

lemma dec_value_snoc: "dec_value (ds @ [c]) = 10 * dec_value ds + (of_char c - 48)"
  by (simp add: dec_value_def)

lemma dec_value_to_string [std_simps]: "dec_value (to_string n) = n"
proof (induction n rule: to_string.induct)
  case (1 n)
  show ?case
  proof (cases "n < 10")
    case True
    then show ?thesis by (subst to_string.simps) (simp add: dec_value_def of_char_digit)
  next
    case False
    then show ?thesis using 1 by (subst to_string.simps) (simp add: dec_value_snoc of_char_digit)
  qed
qed

lemma to_string_inject: "to_string m = to_string n \<longleftrightarrow> m = n"
  using dec_value_to_string by metis

lemma digit_not_special:
  assumes "is_digit c"
  shows "\<not> is_space c" and "c \<noteq> CHR ''-''" and "c \<noteq> CHR ''+''" and "c \<noteq> CHR ''.''"
  using assms by (auto simp: is_digit_def is_space_def)

lemma stoul_to_string [std_simps]:
  assumes "n < 2 ^ 64"
  shows "stoul (to_string n) = Inr (of_nat n)"
proof -
  obtain c cs where cs: "to_string n = c # cs" by (cases "to_string n") auto
  then have d: "is_digit c" and tw: "takeWhile is_digit cs = cs" and v: "dec_value (c # cs) = n"
    using to_string_digits [of n] dec_value_to_string [of n]
    by (auto simp: takeWhile_eq_all_conv)
  show ?thesis using assms d by (simp add: cs stoul_def Let_def digit_not_special tw v)
qed

lemma dot_notin_to_string [simp]: "CHR ''.'' \<notin> set (to_string n)"
  using to_string_digits [of n] digit_not_special(4) by blast

lemma to_string_dot_iff: "to_string n \<noteq> xs @ CHR ''.'' # ys"
  using dot_notin_to_string [of n] by (metis in_set_conv_decomp)

lemma length_to_string_le: "n < 1000 \<Longrightarrow> length (to_string n) \<le> 3"
  by (subst to_string.simps, subst to_string.simps, subst to_string.simps) simp

section \<open>Dotted-decimal addresses\<close>

definition octet :: "nat \<Rightarrow> 32 word \<Rightarrow> 32 word" where
  "octet k a = drop_bit (8 * k) a AND 0xff"

definition octet_text :: "nat \<Rightarrow> 32 word \<Rightarrow> string" where
  "octet_text k a = to_string (unat (octet k a))"

definition dotted :: "32 word \<Rightarrow> string" where
  "dotted a = octet_text 3 a @ CHR ''.'' # octet_text 2 a @ CHR ''.'' #
              octet_text 1 a @ CHR ''.'' # octet_text 0 a"

lemma octet_le: "unat (octet k a) \<le> 255"
proof -
  have "octet k a \<le> 0xff" unfolding octet_def by (rule word_and_le1)
  then show ?thesis by (simp add: word_le_nat_alt)
qed

lemma bit_octet: "bit (octet k a) n \<longleftrightarrow> n < 8 \<and> bit a (8 * k + n)"
proof -
  have "octet k a = drop_bit (8 * k) a AND mask 8"
    by (simp add: octet_def mask_eq_exp_minus_1)
  then show ?thesis by (auto simp: bit_simps dest: bit_imp_le_length)
qed

lemma octet_and: "octet k (a AND b) = octet k a AND octet k b"
  by (rule bit_word_eqI) (auto simp: bit_octet bit_simps)

lemma octets_inject:
  assumes "\<forall>k < 4. octet k a = octet k b"
  shows "a = b"
proof (rule bit_word_eqI)
  fix n assume "n < LENGTH(32)"
  then have "n div 8 < 4" and "n mod 8 < 8" by auto
  with assms have "bit (octet (n div 8) a) (n mod 8) = bit (octet (n div 8) b) (n mod 8)" by simp
  then show "bit a n = bit b n" by (simp add: bit_octet)
qed

lemma dot_notin_octet_text [simp]: "CHR ''.'' \<notin> set (octet_text k a)"
  by (simp add: octet_text_def)

lemma split_dotted [std_simps]:
  "split_char (dotted a) (CHR ''.'') =
     Inr [octet_text 3 a, octet_text 2 a, octet_text 1 a, octet_text 0 a]"
  unfolding dotted_def by (rule splitter.split_four) simp_all

lemma stoul_octet_text [std_simps]: "stoul (octet_text k a) = Inr (ucast (octet k a))"
  using octet_le [of k a] by (simp add: octet_text_def stoul_to_string)

lemma count_dotted [std_simps]: "count_list (dotted a) (CHR ''.'') = 3"
  using splitter.length_split [OF split_dotted [of a]] by simp

lemma dotted_inject: "dotted a = dotted b \<longleftrightarrow> a = b"
proof
  assume "dotted a = dotted b"
  then have "\<forall>k \<in> {0, 1, 2, 3}. octet_text k a = octet_text k b"
    using split_dotted [of a] split_dotted [of b] by simp
  then have "\<forall>k < 4. octet k a = octet k b"
    by (auto simp: octet_text_def to_string_inject numeral_eq_Suc less_Suc_eq word_unat_eq_iff)
  then show "a = b" by (rule octets_inject)
qed simp


lemma to_string_3_prefix:
  assumes "n < 1000" and "length t = 3" and "CHR ''.'' \<notin> set t"
  shows "prefix t (to_string n @ CHR ''.'' # rest) \<longleftrightarrow> to_string n = t"
proof
  assume p: "prefix t (to_string n @ CHR ''.'' # rest)"
  have "length (to_string n) = 3"
  proof (rule ccontr)
    assume "length (to_string n) \<noteq> 3"
    with length_to_string_le [OF assms(1)] have lt: "length (to_string n) < length t"
      using assms(2) by simp
    from p obtain zs where "to_string n @ CHR ''.'' # rest = t @ zs" by (auto simp: prefix_def)
    with lt have "t ! length (to_string n) = CHR ''.''" by (metis nth_append nth_append_length)
    with lt assms(3) show False by (metis nth_mem)
  qed
  with p assms(2) show "to_string n = t" by (auto simp: prefix_def append_eq_append_conv)
qed simp

section \<open>The functions of arpa/inet.h\<close>

text \<open>
  \<open>inet_aton\<close> returns \<open>s_addr\<close> or rejects the text, \<open>inet_addr\<close> returns
  \<open>INADDR_NONE\<close> where \<open>inet_aton\<close> rejects, \<open>inet_ntoa\<close> prints an \<open>s_addr\<close>;
  \<open>inet_pton6\<close> tells whether \<open>inet_pton(AF_INET6, ..)\<close> accepts the text.
\<close>

record inet_lib =
  htonl :: "32 word \<Rightarrow> 32 word"
  ntohl :: "32 word \<Rightarrow> 32 word"
  inet_aton :: "string \<Rightarrow> 32 word option"
  inet_addr :: "string \<Rightarrow> 32 word"
  inet_ntoa :: "32 word \<Rightarrow> string"
  inet_pton6 :: "string \<Rightarrow> bool"

definition INADDR_NONE :: "32 word" where
  "INADDR_NONE = 0xffffffff"

text \<open>Reversing the four bytes, which converts between the byte orders.\<close>

definition bswap32 :: "32 word \<Rightarrow> 32 word" where
  "bswap32 a = push_bit 24 (octet 0 a) OR push_bit 16 (octet 1 a) OR
               push_bit 8 (octet 2 a) OR octet 3 a"

text \<open>
  What the manual pages say: on a big-endian host \<open>htonl\<close> and \<open>ntohl\<close> do nothing, on a
  little-endian host they reverse the bytes; the dotted-decimal text of an address is accepted and read as
  this address, and printing gives the dotted-decimal text.
\<close>

definition inet_laws :: "inet_lib \<Rightarrow> bool" where
  "inet_laws lib \<longleftrightarrow>
     (htonl lib = id \<and> ntohl lib = id \<or> htonl lib = bswap32 \<and> ntohl lib = bswap32) \<and>
     (\<forall>a. inet_aton lib (dotted a) = Some (htonl lib a)) \<and>
     (\<forall>s. inet_addr lib s = (case inet_aton lib s of None \<Rightarrow> INADDR_NONE | Some v \<Rightarrow> v)) \<and>
     (\<forall>a. inet_ntoa lib (htonl lib a) = dotted a)"

text \<open>
  A concrete library that satisfies the laws: the byte swap of a little-endian host and a
  parser for canonical dotted-decimal text. It is the instance the witnesses compute with.
\<close>

definition parse_octet :: "string \<Rightarrow> 32 word option" where
  "parse_octet t =
     (case stoul t of
        Inl _ \<Rightarrow> None
      | Inr v \<Rightarrow> if v \<le> 255 \<and> to_string (unat v) = t then Some (ucast v) else None)"

definition parse_dotted :: "string \<Rightarrow> 32 word option" where
  "parse_dotted s =
     (case split_char s (CHR ''.'') of
        Inl _ \<Rightarrow> None
      | Inr ts \<Rightarrow>
          (case map parse_octet ts of
             [Some a3, Some a2, Some a1, Some a0] \<Rightarrow>
               Some (push_bit 24 a3 OR push_bit 16 a2 OR push_bit 8 a1 OR a0)
           | _ \<Rightarrow> None))"

definition le_inet :: inet_lib where
  "le_inet = \<lparr>htonl = bswap32, ntohl = bswap32,
     inet_aton = (\<lambda>s. map_option bswap32 (parse_dotted s)),
     inet_addr = (\<lambda>s. case parse_dotted s of None \<Rightarrow> INADDR_NONE | Some a \<Rightarrow> bswap32 a),
     inet_ntoa = (\<lambda>v. dotted (bswap32 v)),
     inet_pton6 = (\<lambda>s. prefix ''fe80::'' s \<or> prefix ''FE80::'' s \<or> prefix ''::'' s)\<rparr>"

lemma bit_push_octet:
  "bit (push_bit m (octet k a) :: 32 word) n \<longleftrightarrow> m \<le> n \<and> n < 32 \<and> n - m < 8 \<and> bit a (8 * k + (n - m))"
  by (auto simp: bit_simps bit_octet)

lemma octets_combine:
  "push_bit 24 (octet 3 a) OR push_bit 16 (octet 2 a) OR push_bit 8 (octet 1 a) OR octet 0 a = a"
proof (rule bit_word_eqI)
  fix n assume n: "n < LENGTH(32)"
  then consider "n < 8" | "8 \<le> n" "n < 16" | "16 \<le> n" "n < 24" | "24 \<le> n" "n < 32"
    by fastforce
  then show "bit (push_bit 24 (octet 3 a) OR push_bit 16 (octet 2 a) OR push_bit 8 (octet 1 a) OR octet 0 a) n = bit a n"
    by cases (auto simp: bit_or_iff bit_push_octet bit_octet)
qed

lemma octet_bswap32: "k < 4 \<Longrightarrow> octet k (bswap32 a) = octet (3 - k) a"
proof (rule bit_word_eqI)
  fix n assume k: "k < 4"
  then consider "k = 0" | "k = 1" | "k = 2" | "k = 3" by linarith
  then show "bit (octet k (bswap32 a)) n = bit (octet (3 - k) a) n"
    by cases (auto simp: bit_octet bswap32_def bit_or_iff bit_push_octet)
qed

lemma bswap32_bswap32 [std_simps]: "bswap32 (bswap32 a) = a"
  by (rule octets_inject) (simp add: octet_bswap32)

lemma inet_lawsD:
  assumes "inet_laws lib"
  shows "ntohl lib (htonl lib a) = a" and "htonl lib (htonl lib a) = a"
    and "htonl lib 0xffffffff = 0xffffffff"
    and "inet_aton lib (dotted a) = Some (htonl lib a)"
    and "inet_addr lib (dotted a) = htonl lib a"
    and "inet_aton lib s = None \<Longrightarrow> inet_addr lib s = INADDR_NONE"
    and "inet_ntoa lib (htonl lib a) = dotted a"
proof -
  note laws = assms [unfolded inet_laws_def]
  show "ntohl lib (htonl lib a) = a" and "htonl lib (htonl lib a) = a"
    using laws bswap32_bswap32 by (metis id_apply)+
  have "bswap32 0xffffffff = 0xffffffff" by code_simp
  then show "htonl lib 0xffffffff = 0xffffffff" using laws by (metis id_apply)
  show "inet_aton lib (dotted a) = Some (htonl lib a)" and "inet_ntoa lib (htonl lib a) = dotted a"
    using laws by blast+
  show "inet_addr lib (dotted a) = htonl lib a" using laws by (metis option.simps(5))
  show "inet_aton lib s = None \<Longrightarrow> inet_addr lib s = INADDR_NONE"
    using laws by (metis option.simps(4))
qed

lemma ucast_octet [std_simps]:
  "unat (ucast (octet k a) :: 64 word) = unat (octet k a)"
  "ucast (ucast (octet k a) :: 64 word) = octet k a"
  by (rule unat_ucast_wider, simp) (simp add: ucast_up_ucast_id is_up)

lemma parse_octet_text: "parse_octet (octet_text k a) = Some (octet k a)"
proof -
  have "(ucast (octet k a) :: 64 word) \<le> 255"
    using octet_le [of k a] by (simp only: word_le_nat_alt ucast_octet) simp
  then show ?thesis
    by (simp only: parse_octet_def stoul_octet_text sum.case ucast_octet
        octet_text_def [symmetric] if_True simp_thms)
qed

lemma parse_dotted [std_simps]: "parse_dotted (dotted a) = Some a"
  by (simp add: parse_dotted_def split_dotted parse_octet_text octets_combine del: One_nat_def)

lemma le_inet_laws: "inet_laws le_inet"
  by (auto simp: inet_laws_def le_inet_def bswap32_bswap32 parse_dotted split: option.splits)

end
