(* ===== verification/Ipv4Address.thy ===== *)
theory Ipv4Address
  imports InetText
begin

text \<open>
  \<open>lib/communication/ipv4address.cpp\<close>: checks on IPv4 addresses and netmasks given as
  text, the subnet of an address, and the conversions between netmask and prefix length.
  The functions of \<open>arpa/inet.h\<close> are the parameter \<open>lib\<close>; the branch of the
  preprocessor is the one for Linux.
\<close>

section \<open>The data and operations\<close>

record Ipv4Address =
  address :: string
  netmask :: string

definition equal4 :: "Ipv4Address \<Rightarrow> Ipv4Address \<Rightarrow> bool" where
  "equal4 self op = (if address self = address op \<and> netmask self = netmask op then True else False)"

definition operator_eq :: "Ipv4Address \<Rightarrow> Ipv4Address \<Rightarrow> bool" where
  "operator_eq self op = equal4 self op"

definition isApipaAddress :: "inet_lib \<Rightarrow> string \<Rightarrow> bool" where
  "isApipaAddress lib addr =
     (if count_list addr (CHR ''.'') \<noteq> 3 then False
      else case inet_aton lib addr of
        None \<Rightarrow> False
      | Some _ \<Rightarrow> (if str_find addr ''169.254'' 0 = Some 0 then True else False))"

definition isValidManualAddress :: "inet_lib \<Rightarrow> string \<Rightarrow> bool" where
  "isValidManualAddress lib ip =
     (if count_list ip (CHR ''.'') \<noteq> 3 then False
      else case inet_aton lib ip of
        None \<Rightarrow> False
      | Some s_addr \<Rightarrow>
          (let bigAddress = htonl lib s_addr in
           if bigAddress = 0 then True
           else let upperMost = (ucast (drop_bit 24 bigAddress) :: 8 word) in
             if upperMost = 0 then False
             else if upperMost = 127 then False
             else if 224 \<le> upperMost then False
             else if isApipaAddress lib ip then False
             else True))"

definition isValidNetmask :: "inet_lib \<Rightarrow> string \<Rightarrow> bool" where
  "isValidNetmask lib ip =
     (if count_list ip (CHR ''.'') \<noteq> 3 then False
      else case inet_aton lib ip of
        None \<Rightarrow> False
      | Some s_addr \<Rightarrow>
          (let bigAddress = htonl lib s_addr in
           if bigAddress = 0 then False
           else if bigAddress = 0xffffffff then False
           else True))"

text \<open>
  The loop of \<open>getSubnet\<close> over the four parts. \<open>std::stoul\<close> yields 64 bits that the
  assignment to \<open>unsigned int\<close> cuts to 32; every part is followed by a dot and the last
  dot is removed at the end. Returning the empty string ends the loop early.
\<close>

fun getSubnet_loop ::
  "tokens \<Rightarrow> tokens \<Rightarrow> nat list \<Rightarrow> string \<Rightarrow> cxx_exception + string" where
  "getSubnet_loop addressParts netmaskParts [] subnet = Inr (butlast subnet)"
| "getSubnet_loop addressParts netmaskParts (index # rest) subnet =
     (case stoul (addressParts ! index) of
        Inl ex \<Rightarrow> Inl ex
      | Inr addressLong \<Rightarrow>
          (case stoul (netmaskParts ! index) of
             Inl ex \<Rightarrow> Inl ex
           | Inr netmaskLong \<Rightarrow>
               (let addressByte = (ucast addressLong :: 32 word);
                    netmaskByte = (ucast netmaskLong :: 32 word) in
                if 255 < addressByte \<or> 255 < netmaskByte then Inr []
                else let subnetByte = addressByte AND netmaskByte in
                  getSubnet_loop addressParts netmaskParts rest
                    (subnet @ to_string (unat subnetByte) @ ''.''))))"

definition getSubnet :: "Ipv4Address \<Rightarrow> cxx_exception + string" where
  "getSubnet self =
     (case split_char (address self) (CHR ''.'') of
        Inl ex \<Rightarrow> Inl ex
      | Inr addressParts \<Rightarrow>
          (case split_char (netmask self) (CHR ''.'') of
             Inl ex \<Rightarrow> Inl ex
           | Inr netmaskParts \<Rightarrow>
               if length addressParts \<noteq> 4 \<or> length netmaskParts \<noteq> 4 then Inr []
               else getSubnet_loop addressParts netmaskParts [0, 1, 2, 3] []))"

fun netmask_loop :: "nat \<Rightarrow> 32 word \<Rightarrow> 32 word \<Rightarrow> 32 word" where
  "netmask_loop 0 subnet pfx = subnet"
| "netmask_loop (Suc n) subnet pfx =
     (let subnet = push_bit 1 subnet in
      if pfx \<noteq> 0 then netmask_loop n (subnet OR 1) (pfx - 1)
      else netmask_loop n subnet pfx)"

definition getNetmaskFromPrefix :: "inet_lib \<Rightarrow> 32 word \<Rightarrow> string" where
  "getNetmaskFromPrefix lib pfx =
     (if 32 < pfx then []
      else inet_ntoa lib (htonl lib (netmask_loop 32 0 pfx)))"

text \<open>The \<open>do\<close> loop that counts the leading ones, with the mask it leaves behind.\<close>

function prefix_loop :: "32 word \<Rightarrow> 32 word \<Rightarrow> nat \<Rightarrow> 32 word \<times> nat" where
  "prefix_loop ipv4Subnetmask msk pfx =
     (if ipv4Subnetmask AND msk \<noteq> 0
      then (let msk = drop_bit 1 msk; pfx = pfx + 1 in
            if msk \<noteq> 0 then prefix_loop ipv4Subnetmask msk pfx else (msk, pfx))
      else (msk, pfx))"
  by pat_completeness auto
termination
proof (relation "measure (\<lambda>(a, m, p). unat m)", goal_cases)
  case (2 ipv4Subnetmask msk pfx m' p')
  then have "0 < unat msk" by (auto simp: unat_gt_0)
  then have "unat msk div 2 < unat msk" by simp
  with 2 show ?case by (simp add: drop_bit_eq_div unat_div)
qed simp

declare prefix_loop.simps [simp del]

text \<open>The \<open>for\<close> loop over the remaining bits: the mask is shifted before each test.\<close>

fun gap_loop :: "nat \<Rightarrow> 32 word \<Rightarrow> 32 word \<Rightarrow> bool" where
  "gap_loop 0 ipv4Subnetmask msk = False"
| "gap_loop (Suc n) ipv4Subnetmask msk =
     (let msk = drop_bit 1 msk in
      if ipv4Subnetmask AND msk \<noteq> 0 then True else gap_loop n ipv4Subnetmask msk)"

definition getPrefixFromNetmask :: "inet_lib \<Rightarrow> string \<Rightarrow> int" where
  "getPrefixFromNetmask lib nm =
     (let addr = inet_addr lib nm in
      if addr = INADDR_NONE \<and> nm \<noteq> ''255.255.255.255'' then - 1
      else let ipv4Subnetmask = ntohl lib addr;
               (msk, pfx) = prefix_loop ipv4Subnetmask 0x80000000 0 in
        if gap_loop (32 - (pfx + 1)) ipv4Subnetmask msk then - 1 else int pfx)"

section \<open>The subnet\<close>

lemma getSubnet_loop_octets:
  assumes "\<forall>i < 4. addressParts ! i = octet_text (3 - i) a \<and> netmaskParts ! i = octet_text (3 - i) m"
    and "\<forall>i \<in> set idx. i < 4"
  shows "getSubnet_loop addressParts netmaskParts idx subnet =
           Inr (butlast (subnet @ concat (map (\<lambda>i. octet_text (3 - i) (a AND m) @ ''.'') idx)))"
  using assms
proof (induction idx arbitrary: subnet)
  case Nil
  then show ?case by simp
next
  case (Cons i idx)
  have "\<not> 255 < octet k w" for k w
    using octet_le [of k w] by (simp add: word_less_nat_alt)
  then show ?case
    using Cons by (simp add: stoul_octet_text ucast_octet octet_and [symmetric] octet_text_def [symmetric] Let_def)
qed

lemma getSubnet_dotted:
  "getSubnet \<lparr>address = dotted a, netmask = dotted m\<rparr> = Inr (dotted (a AND m))"
proof -
  have "getSubnet \<lparr>address = dotted a, netmask = dotted m\<rparr> =
      Inr (butlast (concat (map (\<lambda>i. octet_text (3 - i) (a AND m) @ ''.'') [0, 1, 2, 3])))"
    using getSubnet_loop_octets [of "[octet_text 3 a, octet_text 2 a, octet_text 1 a, octet_text 0 a]" a
        "[octet_text 3 m, octet_text 2 m, octet_text 1 m, octet_text 0 m]" m "[0, 1, 2, 3]" "[]"]
    by (simp add: getSubnet_def split_dotted numeral_eq_Suc less_Suc_eq)
  then show ?thesis by (simp add: dotted_def butlast_append)
qed

section \<open>Reserved ranges\<close>

lemma str_find_at_start: "str_find text needle 0 = Some 0 \<longleftrightarrow> prefix needle text"
  using find_sub_SomeD(3) [of needle "text" 0] find_sub_prefix [of needle "text"]
  by (auto simp: str_find_def)

lemma apipa_text: "prefix ''169.254'' (dotted a) \<longleftrightarrow> octet 3 a = 169 \<and> octet 2 a = 254"
proof -
  have small: "unat (octet k a) < 1000" for k using octet_le [of k a] by simp
  have three: "to_string 169 = ''169''" "to_string 254 = ''254''" by code_simp+
  have "prefix ''169.254'' (dotted a) \<longleftrightarrow>
      octet_text 3 a = ''169'' \<and> prefix ''254'' (octet_text 2 a @ CHR ''.'' # octet_text 1 a @ CHR ''.'' # octet_text 0 a)"
  proof
    assume p: "prefix ''169.254'' (dotted a)"
    then have "prefix ''169'' (dotted a)" by (rule prefix_order.trans [rotated]) simp
    then have t: "octet_text 3 a = ''169''"
      using to_string_3_prefix [OF small, of "''169''"] by (simp add: dotted_def octet_text_def)
    with p show "octet_text 3 a = ''169'' \<and> prefix ''254'' (octet_text 2 a @ CHR ''.'' # octet_text 1 a @ CHR ''.'' # octet_text 0 a)"
      by (simp add: dotted_def)
  qed (auto simp: dotted_def)
  also have "\<dots> \<longleftrightarrow> octet_text 3 a = to_string 169 \<and> octet_text 2 a = to_string 254"
    using to_string_3_prefix [OF small, of "''254''"] three by (simp add: octet_text_def)
  also have "\<dots> \<longleftrightarrow> octet 3 a = 169 \<and> octet 2 a = 254"
    by (simp add: octet_text_def to_string_inject word_unat_eq_iff)
  finally show ?thesis .
qed

lemma isApipaAddress_dotted:
  "inet_laws lib \<Longrightarrow> isApipaAddress lib (dotted a) \<longleftrightarrow> octet 3 a = 169 \<and> octet 2 a = 254"
  by (simp add: isApipaAddress_def count_dotted inet_lawsD str_find_at_start apipa_text)

lemma upperMost_octet: "(ucast (drop_bit 24 a :: 32 word) :: 8 word) = ucast (octet 3 a)"
  by (rule bit_word_eqI) (auto simp: bit_ucast_iff bit_drop_bit_eq bit_octet)

lemma upperMost_eq: "n < 256 \<Longrightarrow>
    (ucast (drop_bit 24 a :: 32 word) :: 8 word) = of_nat n \<longleftrightarrow> octet 3 a = of_nat n"
  using octet_le [of 3 a]
  by (simp add: upperMost_octet word_unat_eq_iff unsigned_ucast_eq unat_of_nat_small take_bit_nat_eq_self)

lemma upperMost_le:
  "224 \<le> (ucast (drop_bit 24 a :: 32 word) :: 8 word) \<longleftrightarrow> 224 \<le> octet 3 a"
  using octet_le [of 3 a]
  by (simp add: upperMost_octet word_le_nat_alt unsigned_ucast_eq take_bit_nat_eq_self)

section \<open>Netmask and prefix length\<close>

text \<open>The netmask of a prefix length: that many leading ones.\<close>

definition mask_word :: "nat \<Rightarrow> 32 word" where
  "mask_word p = push_bit (32 - p) (mask p)"

lemma bit_mask_word: "p \<le> 32 \<Longrightarrow> bit (mask_word p) i \<longleftrightarrow> 32 - p \<le> i \<and> i < 32"
  by (auto simp: mask_word_def bit_simps)

lemma netmask_loop_eq:
  "netmask_loop n s (of_nat p) =
     (if n \<le> p then push_bit n s OR mask n else push_bit n s OR push_bit (n - p) (mask p))"
  if "p \<le> 32"
  using that
proof (induction n arbitrary: s p)
  case 0
  then show ?case by simp
next
  case (Suc n)
  show ?case
  proof (cases p)
    case 0
    then show ?thesis using Suc.IH [of 0 "push_bit 1 s"] by (simp add: push_bit_push_bit Let_def)
  next
    case (Suc q)
    have "unat (of_nat p :: 32 word) = p"
      using Suc.prems by (simp add: unat_of_nat_small)
    with Suc have "(of_nat p :: 32 word) \<noteq> 0" and q: "(of_nat p :: 32 word) - 1 = of_nat q"
      by auto
    then have "netmask_loop (Suc n) s (of_nat p) = netmask_loop n (push_bit 1 s OR 1) (of_nat q)"
      by (simp add: Let_def)
    also have "\<dots> = (if n \<le> q then push_bit n (push_bit 1 s OR 1) OR mask n
        else push_bit n (push_bit 1 s OR 1) OR push_bit (n - q) (mask q))"
      using Suc.IH [of q] Suc.prems \<open>p = Suc q\<close> by simp
    also have "\<dots> = (if Suc n \<le> p then push_bit (Suc n) s OR mask (Suc n)
        else push_bit (Suc n) s OR push_bit (Suc n - p) (mask p))"
      using \<open>p = Suc q\<close> by (auto intro!: bit_word_eqI simp: bit_simps push_bit_push_bit not_le
          less_Suc_eq bit_1_iff)
    finally show ?thesis .
  qed
qed


text \<open>The mask of the do loop after \<open>k\<close> shifts.\<close>

definition top_bit :: "nat \<Rightarrow> 32 word" where
  "top_bit k = (if k < 32 then 2 ^ (31 - k) else 0)"

lemma top_bit_0: "top_bit 0 = 0x80000000"
  by (simp add: top_bit_def)

lemma drop_bit_top_bit: "k < 32 \<Longrightarrow> drop_bit 1 (top_bit k) = top_bit (Suc k)"
  by (rule bit_word_eqI) (auto simp: top_bit_def bit_drop_bit_eq bit_exp_iff)

lemma and_top_bit: "k < 32 \<Longrightarrow> w AND top_bit k \<noteq> 0 \<longleftrightarrow> bit w (31 - k)"
  by (simp add: top_bit_def and_exp_eq_0_iff_not_bit)

lemma top_bit_nonzero: "top_bit k \<noteq> 0 \<longleftrightarrow> k < 32"
proof -
  have "bit (2 ^ (31 - k) :: 32 word) (31 - k)" by (simp add: bit_exp_iff)
  then show ?thesis by (auto simp: top_bit_def)
qed

lemma prefix_loop_ones:
  assumes "k < 32"
  shows "\<exists>p. prefix_loop w (top_bit k) k = (top_bit p, p) \<and> k \<le> p \<and> p \<le> 32 \<and>
           (\<forall>i. k \<le> i \<and> i < p \<longrightarrow> bit w (31 - i)) \<and> (p < 32 \<longrightarrow> \<not> bit w (31 - p))"
  using assms
proof (induction "32 - k" arbitrary: k rule: less_induct)
  case less
  show ?case
  proof (cases "bit w (31 - k)")
    case False
    then show ?thesis
      using less.prems by (intro exI [of _ k]) (auto simp: prefix_loop.simps [of w] and_top_bit)
  next
    case bit: True
    then have step: "prefix_loop w (top_bit k) k =
        (if Suc k < 32 then prefix_loop w (top_bit (Suc k)) (Suc k) else (top_bit (Suc k), Suc k))"
      using less.prems
      by (simp add: prefix_loop.simps [of w "top_bit k"] and_top_bit drop_bit_top_bit
          top_bit_nonzero Let_def Suc_eq_plus1 [symmetric] del: One_nat_def Suc_eq_plus1)
    show ?thesis
    proof (cases "Suc k < 32")
      case False
      then have "Suc k = 32" using less.prems by simp
      then show ?thesis
        using less.prems bit step by (intro exI [of _ 32]) (auto simp: less_Suc_eq_le le_Suc_eq)
    next
      case True
      then have "32 - Suc k < 32 - k" by linarith
      with True obtain p where p: "prefix_loop w (top_bit (Suc k)) (Suc k) = (top_bit p, p)"
          "Suc k \<le> p" "p \<le> 32" "\<forall>i. Suc k \<le> i \<and> i < p \<longrightarrow> bit w (31 - i)"
          "p < 32 \<longrightarrow> \<not> bit w (31 - p)"
        using less.hyps [of "Suc k"] by blast
      then show ?thesis
        using True bit step
        by (intro exI [of _ p]) (auto simp: Suc_le_eq, (metis le_neq_implies_less)+)
    qed
  qed
qed

lemma gap_loop_eq: "n < 32 \<Longrightarrow> gap_loop n w (2 ^ n) \<longleftrightarrow> (\<exists>i < n. bit w i)"
proof (induction n)
  case (Suc n)
  have "drop_bit 1 (2 ^ Suc n :: 32 word) = 2 ^ n"
    using Suc.prems by (auto intro!: bit_word_eqI simp: bit_drop_bit_eq bit_exp_iff simp del: power_Suc)
  then show ?case
    using Suc by (auto simp: Let_def and_exp_eq_0_iff_not_bit less_Suc_eq simp del: power_Suc)
qed simp

lemma mask_word_eq_iff:
  assumes "p \<le> 32"
  shows "w = mask_word p \<longleftrightarrow>
    (\<forall>i < p. bit w (31 - i)) \<and> (\<forall>i < 32 - p. \<not> bit w i)"
proof
  assume "(\<forall>i < p. bit w (31 - i)) \<and> (\<forall>i < 32 - p. \<not> bit w i)"
  then show "w = mask_word p"
  proof (intro bit_word_eqI)
    fix n assume *: "(\<forall>i < p. bit w (31 - i)) \<and> (\<forall>i < 32 - p. \<not> bit w i)" "n < LENGTH(32)"
    then have "bit w n" if "32 - p \<le> n"
      using that spec [OF conjunct1 [OF *(1)], of "31 - n"] by auto
    moreover have "\<not> bit w n" if "n < 32 - p" using that * by blast
    ultimately show "bit w n = bit (mask_word p) n"
      using assms *(2) by (cases "32 - p \<le> n") (simp_all add: bit_mask_word)
  qed
qed (use assms in \<open>auto simp: bit_mask_word\<close>)

lemma mask_word_inject: "p \<le> 32 \<Longrightarrow> q \<le> 32 \<Longrightarrow> mask_word p = mask_word q \<longleftrightarrow> p = q"
proof
  assume *: "p \<le> 32" "q \<le> 32" "mask_word p = mask_word q"
  then have "\<forall>i < 32. 32 - p \<le> i \<longleftrightarrow> 32 - q \<le> i" by (metis bit_mask_word)
  from this [rule_format, of "32 - p"] this [rule_format, of "32 - q"] *(1,2)
  show "p = q" by (cases "p = 0"; cases "q = 0") auto
qed simp

lemma loops_on_mask:
  "\<exists>p \<le> 32. prefix_loop w 0x80000000 0 = (top_bit p, p) \<and>
     (\<not> gap_loop (32 - (p + 1)) w (top_bit p) \<longleftrightarrow> w = mask_word p) \<and>
     (\<forall>q \<le> 32. w = mask_word q \<longrightarrow> p = q)"
proof -
  obtain p where p: "prefix_loop w (top_bit 0) 0 = (top_bit p, p)" "p \<le> 32"
      "\<forall>i < p. bit w (31 - i)" "p < 32 \<longrightarrow> \<not> bit w (31 - p)"
    using prefix_loop_ones [of 0 w] by auto
  have "\<not> gap_loop (32 - (p + 1)) w (top_bit p) \<longleftrightarrow> w = mask_word p"
  proof (cases "p < 32")
    case True
    then have "\<not> gap_loop (32 - (p + 1)) w (top_bit p) \<longleftrightarrow> (\<forall>i < 31 - p. \<not> bit w i)"
      using gap_loop_eq [of "31 - p" w] by (auto simp: top_bit_def)
    moreover have "(\<forall>i < 32 - p. \<not> bit w i) \<longleftrightarrow> (\<forall>i < 31 - p. \<not> bit w i) \<and> \<not> bit w (31 - p)"
      using True Suc_diff_le [of p 31] by (auto simp: less_Suc_eq)
    ultimately show ?thesis using p mask_word_eq_iff [of p w] True by simp
  next
    case False
    then show ?thesis using p mask_word_eq_iff [of p w] by simp
  qed
  moreover have "p = q" if "q \<le> 32" "w = mask_word q" for q
  proof (rule linorder_cases [of p q])
    assume "p < q" then show ?thesis using that p(4) by (auto simp: bit_mask_word)
  next
    assume "q < p"
    then have "bit w (31 - q)" using p(3) by simp
    then have "32 - q \<le> 31 - q" using that by (simp add: bit_mask_word)
    with \<open>q < p\<close> p(2) show ?thesis by linarith
  qed simp
  ultimately show ?thesis using p by (auto simp: top_bit_0)
qed

lemma netmask_loop_mask_word: "p \<le> 32 \<Longrightarrow> netmask_loop 32 0 (of_nat p) = mask_word p"
proof (cases "p = 32")
  case False
  moreover assume "p \<le> 32"
  ultimately have "\<not> 32 \<le> p" by linarith
  then show ?thesis
    by (simp only: netmask_loop_eq [OF \<open>p \<le> 32\<close>] mask_word_def push_bit_of_0 or.left_neutral if_False)
qed (simp only: netmask_loop_eq [OF order_refl] mask_word_def push_bit_of_0 or.left_neutral
      diff_self_eq_0 push_bit_0_id id_apply order_refl if_True)

lemma getNetmaskFromPrefix_eq:
  "inet_laws lib \<Longrightarrow> p \<le> 32 \<Longrightarrow> getNetmaskFromPrefix lib (of_nat p) = dotted (mask_word p)"
  by (simp add: getNetmaskFromPrefix_def inet_lawsD netmask_loop_mask_word word_less_nat_alt
      unat_of_nat_small)

lemma getPrefixFromNetmask_loops:
  assumes "inet_laws lib" and "prefix_loop m 0x80000000 0 = (msk, p)"
  shows "getPrefixFromNetmask lib (dotted m) = (if gap_loop (32 - (p + 1)) m msk then - 1 else int p)"
proof -
  have "dotted 0xffffffff = ''255.255.255.255''" by code_simp
  then have "\<not> (htonl lib m = INADDR_NONE \<and> dotted m \<noteq> ''255.255.255.255'')"
    using inet_lawsD [OF assms(1)] by (metis INADDR_NONE_def)
  then show ?thesis
    using assms(2)
    by (simp only: getPrefixFromNetmask_def inet_lawsD [OF assms(1)] Let_def if_False prod.case)
qed

lemma getPrefixFromNetmask_dotted:
  assumes "inet_laws lib"
  shows "p \<le> 32 \<Longrightarrow> getPrefixFromNetmask lib (dotted (mask_word p)) = int p"
    and "\<forall>p \<le> 32. m \<noteq> mask_word p \<Longrightarrow> getPrefixFromNetmask lib (dotted m) = - 1"
proof -
  assume p: "p \<le> 32"
  obtain k where "prefix_loop (mask_word p) 0x80000000 0 = (top_bit k, k)"
      "\<not> gap_loop (32 - (k + 1)) (mask_word p) (top_bit k) \<longleftrightarrow> mask_word p = mask_word k" "k = p"
    using loops_on_mask [of "mask_word p"] p by blast
  then show "getPrefixFromNetmask lib (dotted (mask_word p)) = int p"
    by (simp only: getPrefixFromNetmask_loops [OF assms]) simp
next
  assume m: "\<forall>p \<le> 32. m \<noteq> mask_word p"
  obtain k where "prefix_loop m 0x80000000 0 = (top_bit k, k)" "gap_loop (32 - (k + 1)) m (top_bit k)"
    using loops_on_mask [of m] m by blast
  then show "getPrefixFromNetmask lib (dotted m) = - 1"
    by (simp only: getPrefixFromNetmask_loops [OF assms] if_True)
qed

section \<open>Properties\<close>

lemma of_nat_unat_ucast_cut: "(ucast (of_nat (2 ^ 32 + unat a) :: 64 word) :: 32 word) = a"
  for a :: "32 word"
proof -
  have "unat (of_nat (2 ^ 32 + unat a) :: 64 word) = 2 ^ 32 + unat a"
    using unsigned_less [of a, where ?'a = nat] by (intro unat_of_nat_small) simp
  then show ?thesis
    using unsigned_less [of a, where ?'a = nat] by (simp only: word_unat_eq_iff unsigned_ucast_eq take_bit_nat_def) simp
qed

text \<open>
  Claim C39: for an address and a netmask in canonical dotted-decimal form, \<open>getSubnet\<close>
  never throws and returns the dotted-decimal form of the bitwise conjunction of both words.
\<close>

theorem getSubnet_correct:
  "getSubnet \<lparr>address = dotted a, netmask = dotted m\<rparr> = Inr (dotted (a AND m))"
  by (rule getSubnet_dotted)

lemma getSubnet_first_part:
  assumes "stoul t = Inr v" and "ucast v = octet 3 a" and "CHR ''.'' \<notin> set t"
  shows "getSubnet \<lparr>address = t @ CHR ''.'' # octet_text 2 a @ CHR ''.'' # octet_text 1 a @ CHR ''.'' #
           octet_text 0 a, netmask = dotted m\<rparr> = Inr (dotted (a AND m))"
proof -
  let ?as = "[t, octet_text 2 a, octet_text 1 a, octet_text 0 a]"
  let ?ms = "[octet_text 3 m, octet_text 2 m, octet_text 1 m, octet_text 0 m]"
  have split: "split_char (t @ CHR ''.'' # octet_text 2 a @ CHR ''.'' # octet_text 1 a @ CHR ''.'' #
      octet_text 0 a) (CHR ''.'') = Inr ?as"
    using assms(3) by (intro splitter.split_four) simp_all
  have le: "\<not> 255 < octet k w" for k w
    using octet_le [of k w] by (simp add: word_less_nat_alt)
  have "getSubnet_loop ?as ?ms [1, 2, 3] s =
      Inr (butlast (s @ concat (map (\<lambda>i. octet_text (3 - i) (a AND m) @ ''.'') [1, 2, 3])))" for s
    by (simp add: stoul_octet_text ucast_octet octet_and [symmetric] le
        octet_text_def [symmetric] Let_def)
  then have loop: "getSubnet_loop ?as ?ms [0, 1, 2, 3] [] =
      Inr (butlast (concat (map (\<lambda>i. octet_text (3 - i) (a AND m) @ ''.'') [0, 1, 2, 3])))"
    using assms(1,2) le by (simp add: stoul_octet_text ucast_octet octet_and [symmetric]
        octet_text_def [symmetric] Let_def)
  have "getSubnet \<lparr>address = t @ CHR ''.'' # octet_text 2 a @ CHR ''.'' # octet_text 1 a @ CHR ''.'' #
      octet_text 0 a, netmask = dotted m\<rparr> = getSubnet_loop ?as ?ms [0, 1, 2, 3] []"
    by (simp only: getSubnet_def Ipv4Address.simps split split_dotted sum.case) simp
  then show ?thesis unfolding loop by (simp add: dotted_def butlast_append)
qed

text \<open>
  The range check of \<open>getSubnet\<close> comes after the value of a part was cut to 32
  bits, so a part that exceeds 32 bits is not rejected: for all canonical addresses, adding
  \<open>2 ^ 32\<close> to the first part gives the same subnet as before.
\<close>

theorem getSubnet_wraps:
  "getSubnet \<lparr>address = to_string (2 ^ 32 + unat (octet 3 a)) @ CHR ''.'' # octet_text 2 a @ CHR ''.'' #
      octet_text 1 a @ CHR ''.'' # octet_text 0 a, netmask = dotted m\<rparr> = Inr (dotted (a AND m))"
proof -
  have "stoul (to_string (2 ^ 32 + unat (octet 3 a))) = Inr (of_nat (2 ^ 32 + unat (octet 3 a)))"
    using octet_le [of 3 a] by (intro stoul_to_string) simp
  then show ?thesis
    by (rule getSubnet_first_part [OF _ _ dot_notin_to_string]) (rule of_nat_unat_ucast_cut)
qed

text \<open>
  \<open>isValidManualAddress\<close> accepts a canonical address exactly when it is 0.0.0.0 or its
  first byte is neither 0 nor 127 nor in the multicast or reserved range (224 and above)
  and the address is not link-local (169.254).
\<close>

theorem isValidManualAddress_correct:
  assumes "inet_laws lib"
  shows "isValidManualAddress lib (dotted a) \<longleftrightarrow>
    a = 0 \<or> octet 3 a \<noteq> 0 \<and> octet 3 a \<noteq> 127 \<and> octet 3 a < 224 \<and>
      (octet 3 a, octet 2 a) \<noteq> (169, 254)"
proof -
  have 0: "(ucast (drop_bit 24 a) :: 8 word) = 0 \<longleftrightarrow> octet 3 a = 0"
    using upperMost_eq [of 0 a] by simp
  have 127: "(ucast (drop_bit 24 a) :: 8 word) = 127 \<longleftrightarrow> octet 3 a = 127"
    using upperMost_eq [of 127 a] by simp
  have 224: "224 \<le> (ucast (drop_bit 24 a) :: 8 word) \<longleftrightarrow> \<not> octet 3 a < 224"
    using upperMost_le by (simp only: not_less)
  show ?thesis
    by (auto simp: isValidManualAddress_def count_dotted inet_lawsD [OF assms] Let_def 0 127 224
        isApipaAddress_dotted [OF assms])
qed

theorem isValidManualAddress_correct_witness:
  "isValidManualAddress le_inet (dotted 0xC0A80001) \<and> \<not> isValidManualAddress le_inet (dotted 0xA9FE0001)"
  unfolding isValidManualAddress_correct [OF le_inet_laws] by code_simp

text \<open>
  \<open>isValidNetmask\<close> accepts every canonical text except 0.0.0.0 and 255.255.255.255,
  whether or not the ones of the mask are contiguous.
\<close>

theorem isValidNetmask_accepts:
  assumes "inet_laws lib"
  shows "isValidNetmask lib (dotted m) \<longleftrightarrow> m \<noteq> 0 \<and> m \<noteq> 0xffffffff"
  by (simp add: isValidNetmask_def count_dotted inet_lawsD [OF assms] Let_def)

theorem isValidNetmask_accepts_witness:
  "isValidNetmask le_inet (dotted 0xFF00FF00)"
  unfolding isValidNetmask_accepts [OF le_inet_laws] by code_simp

text \<open>
  \<open>getPrefixFromNetmask\<close> recognises exactly the contiguous masks: for a canonical text
  it returns p when the mask has the p upper bits set and no other, and -1 for every mask with a gap.
\<close>

theorem getPrefixFromNetmask_correct:
  assumes "inet_laws lib" and "p \<le> 32"
  shows "getPrefixFromNetmask lib (dotted m) = int p \<longleftrightarrow> m = mask_word p"
proof (cases "\<exists>q \<le> 32. m = mask_word q")
  case True
  then show ?thesis
    using getPrefixFromNetmask_dotted(1) [OF assms(1)] assms(2) mask_word_inject by auto
next
  case False
  then show ?thesis
    using getPrefixFromNetmask_dotted(2) [OF assms(1), of m] assms(2) by auto
qed

theorem getPrefixFromNetmask_correct_witness:
  "getPrefixFromNetmask le_inet (dotted 0xFFFFFF00) = int 24 \<and>
   getPrefixFromNetmask le_inet (dotted 0xFF00FF00) \<noteq> int 8"
proof -
  have "0xFFFFFF00 = mask_word 24" and "0xFF00FF00 \<noteq> mask_word 8" by code_simp+
  then show ?thesis
    using getPrefixFromNetmask_correct [OF le_inet_laws, of 24 "0xFFFFFF00"]
      getPrefixFromNetmask_correct [OF le_inet_laws, of 8 "0xFF00FF00"] by simp
qed

text \<open>
  Prefix length to netmask and back is the identity for every prefix of at most 32
  bits, and every larger argument gives the empty text.
\<close>

theorem prefix_netmask_roundtrip:
  assumes "inet_laws lib"
  shows "if pfx \<le> 32 then getPrefixFromNetmask lib (getNetmaskFromPrefix lib pfx) = int (unat pfx)
         else getNetmaskFromPrefix lib pfx = []"
proof (cases "pfx \<le> 32")
  case True
  then have "unat pfx \<le> 32" by (simp add: word_le_nat_alt)
  then show ?thesis
    using True getNetmaskFromPrefix_eq [OF assms, of "unat pfx"]
      getPrefixFromNetmask_dotted(1) [OF assms, of "unat pfx"] by simp
qed (auto simp: getNetmaskFromPrefix_def not_le)

theorem prefix_netmask_roundtrip_witness:
  "getPrefixFromNetmask le_inet (getNetmaskFromPrefix le_inet 20) = int (unat (20 :: 32 word))"
proof -
  have "(20 :: 32 word) \<le> 32" by code_simp
  then show ?thesis using prefix_netmask_roundtrip [OF le_inet_laws, of 20] by simp
qed

end
