(* ===== verification/Ipv6Address.thy ===== *)
theory Ipv6Address
  imports Ipv4Address
begin

text \<open>
  \<open>lib/communication/ipv6address.cpp\<close>: the IPv6 address with its prefix length, the
  recognition of link-local addresses and of IPv4 addresses mapped into IPv6.
\<close>

section \<open>The data and operations\<close>

record Ipv6Address =
  address6 :: string
  prefix6 :: "32 word"

definition Ipv6Address_ctor :: Ipv6Address where
  "Ipv6Address_ctor = \<lparr>address6 = [], prefix6 = 0\<rparr>"

definition equal6 :: "Ipv6Address \<Rightarrow> Ipv6Address \<Rightarrow> bool" where
  "equal6 self op = (if address6 self = address6 op \<and> prefix6 self = prefix6 op then True else False)"

definition getIpv4MappedAddress :: "inet_lib \<Rightarrow> string \<Rightarrow> cxx_exception + string" where
  "getIpv4MappedAddress lib addr =
     (let hybridIpv4AddressPrefix = ''::ffff:'' in
      case str_substr addr 0 (Some (length hybridIpv4AddressPrefix)) of
        Inl ex \<Rightarrow> Inl ex
      | Inr addressPrefix \<Rightarrow>
          if addressPrefix \<noteq> hybridIpv4AddressPrefix then Inr []
          else case str_substr addr (length hybridIpv4AddressPrefix) None of
            Inl ex \<Rightarrow> Inl ex
          | Inr ipv4Address \<Rightarrow>
              if count_list ipv4Address (CHR ''.'') \<noteq> 3 then Inr []
              else if inet_aton lib ipv4Address = None then Inr []
              else Inr ipv4Address)"

text \<open>\<open>::tolower\<close> in the C locale.\<close>

definition tolower :: "char \<Rightarrow> char" where
  "tolower c = (if 65 \<le> (of_char c :: nat) \<and> (of_char c :: nat) \<le> 90 then char_of ((of_char c :: nat) + 32) else c)"

definition isLinkLocalAddress :: "inet_lib \<Rightarrow> string \<Rightarrow> cxx_exception + bool" where
  "isLinkLocalAddress lib addr =
     (let ipv6LinkLocalNet = ''fe80::'' in
      if \<not> inet_pton6 lib addr then Inr False
      else case str_substr addr 0 (Some (length ipv6LinkLocalNet)) of
        Inl ex \<Rightarrow> Inl ex
      | Inr pfx \<Rightarrow> if map tolower pfx \<noteq> ipv6LinkLocalNet then Inr False else Inr True)"

text \<open>
  The replacement of \<open>inet_pton\<close> on old versions of Windows: \<open>wsa\<close> is \<open>WSAStringToAddress\<close>, which gives the address
  of the family when it accepts the text, \<open>dst\<close> the destination, which stays as it is when it does not.
\<close>

definition INET6_ADDRSTRLEN :: nat where "INET6_ADDRSTRLEN = 65"

definition WIN_AF_INET :: nat where "WIN_AF_INET = 2"

definition WIN_AF_INET6 :: nat where "WIN_AF_INET6 = 23"

definition inet_pton_forWindowsxp :: "(string \<Rightarrow> nat \<Rightarrow> 'a option) \<Rightarrow> nat \<Rightarrow> string \<Rightarrow> 'a \<Rightarrow> int \<times> 'a" where
  "inet_pton_forWindowsxp wsa af src dst =
     (let src_copy = take INET6_ADDRSTRLEN src in
      case wsa src_copy af of
        None \<Rightarrow> (0, dst)
      | Some a \<Rightarrow> if af = WIN_AF_INET then (1, a) else if af = WIN_AF_INET6 then (1, a) else (0, dst))"

text \<open>It accepts what \<open>WSAStringToAddress\<close> accepts, as long as the text is not longer than an address can be.\<close>

lemma inet_pton_forWindowsxp_accepts:
  assumes "length src \<le> INET6_ADDRSTRLEN" and "af = WIN_AF_INET \<or> af = WIN_AF_INET6"
  shows "fst (inet_pton_forWindowsxp wsa af src dst) = (if wsa src af \<noteq> None then 1 else 0)"
  using assms by (auto simp: inet_pton_forWindowsxp_def split: option.splits)

section \<open>Properties\<close>

text \<open>
  \<open>getIpv4MappedAddress\<close> never throws; it returns a non-empty text exactly for an address
  that is \<open>::ffff:\<close> followed by that text, where the text has three dots and is accepted by
  \<open>inet_aton\<close>.
\<close>

theorem getIpv4MappedAddress_correct:
  "\<exists>r. getIpv4MappedAddress lib addr = Inr r \<and>
     (r \<noteq> [] \<longleftrightarrow> (\<exists>v4. addr = ''::ffff:'' @ v4 \<and> count_list v4 (CHR ''.'') = 3 \<and>
                         inet_aton lib v4 \<noteq> None \<and> r = v4))"
proof (cases "take 7 addr = ''::ffff:''")
  case True
  then obtain v4 where v4: "addr = ''::ffff:'' @ v4"
    by (metis append_take_drop_id)
  have "v4 \<noteq> []" if "count_list v4 (CHR ''.'') = 3" using that by auto
  then show ?thesis
    by (auto simp: v4 getIpv4MappedAddress_def str_substr_def Let_def)
next
  case False
  then show ?thesis
    by (simp add: getIpv4MappedAddress_def str_substr_def Let_def numeral_eq_Suc)
qed

text \<open>The link-local test ignores case and never throws.\<close>

lemma isLinkLocalAddress_correct:
  "isLinkLocalAddress lib addr =
     Inr (inet_pton6 lib addr \<and> map tolower (take 6 addr) = ''fe80::'')"
  by (simp add: isLinkLocalAddress_def str_substr_def Let_def numeral_eq_Suc)

lemma getIpv4MappedAddress_dotted:
  "inet_laws lib \<Longrightarrow> getIpv4MappedAddress lib (''::ffff:'' @ dotted a) = Inr (dotted a)"
  by (simp add: getIpv4MappedAddress_def str_substr_def Let_def count_dotted inet_lawsD)

end
