(* ===== verification/Netadapter.thy ===== *)
theory Netadapter
  imports Ipv6Address
begin

text \<open>
  \<open>lib/communication/linux/netadapter.cpp\<close>: the record of a network adapter and the search
  for the default gateway in \<open>/proc/net/route\<close>. The file is a parameter: opening it, skipping
  its first line and one \<open>fscanf\<close> of a row, on an abstract file state \<open>'f\<close>.
\<close>

section \<open>The data and operations\<close>

record Netadapter =
  m_name :: string
  m_ipv4Addresses :: "Ipv4Address list"
  m_ipv6Addresses :: "Ipv6Address list"
  m_macAddress :: string
  m_fwGuid :: "64 word"
  m_index :: "32 word"

definition Netadapter_ctor :: Netadapter where
  "Netadapter_ctor = \<lparr>m_name = [], m_ipv4Addresses = [], m_ipv6Addresses = [],
     m_macAddress = [], m_fwGuid = 0, m_index = 0\<rparr>"

definition isFirewireAdapter :: "Netadapter \<Rightarrow> bool" where
  "isFirewireAdapter self = (if m_fwGuid self \<noteq> 0 then True else False)"

text \<open>
  One \<open>fscanf\<close> of a row: its result (the number of conversions, negative for EOF or an error), the
  end-of-file indicator, and the values stored into the three variables the code reads. A
  variable whose conversion was not reached keeps its old value (\<open>None\<close>).
\<close>

record row_scan =
  scan_result :: int
  scan_feof :: bool
  scan_destination :: "64 word option"
  scan_gateway :: "64 word option"
  scan_flags :: "32 word option"

record 'f route_file =
  route_fopen :: "'f option"
  route_skip_line :: "'f \<Rightarrow> int \<times> 'f"
  route_fscanf :: "'f \<Rightarrow> row_scan \<times> 'f"

definition ROUTE_GW :: "32 word" where "ROUTE_GW = 0x0002"

definition ROUTE_UP :: "32 word" where "ROUTE_UP = 0x0001"

text \<open>
  The endless loop: only EOF without any conversion or the default gateway end it. The
  result 11 of a complete row and any other result are treated alike.
\<close>

partial_function (option) route_loop ::
  "inet_lib \<Rightarrow> 'f route_file \<Rightarrow> 'f \<Rightarrow> 64 word \<Rightarrow> 64 word \<Rightarrow> 32 word \<Rightarrow> string option" where
  "route_loop lib file fp destination gateway flags =
     (let (scan, fp) = route_fscanf file fp;
          destination = case_option destination id (scan_destination scan);
          gateway = case_option gateway id (scan_gateway scan);
          flags = case_option flags id (scan_flags scan)
      in if scan_result scan \<noteq> 11 \<and> scan_result scan < 0 \<and> scan_feof scan then Some []
         else if flags AND ROUTE_GW \<noteq> 0 \<and> flags AND ROUTE_UP \<noteq> 0 \<and> destination = 0
         then Some (inet_ntoa lib (ucast gateway))
         else route_loop lib file fp destination gateway flags)"

text \<open>The three variables start without a value: their contents are arguments.\<close>

definition getIpv4DefaultGateway ::
  "inet_lib \<Rightarrow> 'f route_file \<Rightarrow> 64 word \<times> 64 word \<times> 32 word \<Rightarrow> string option" where
  "getIpv4DefaultGateway lib file uninit =
     (case route_fopen file of
        None \<Rightarrow> Some []
      | Some fp \<Rightarrow>
          (let (result, fp) = route_skip_line file fp in
           if result < 0 then Some []
           else (case uninit of (destination, gateway, flags) \<Rightarrow>
                   route_loop lib file fp destination gateway flags)))"

section \<open>The gateway of a well-formed table\<close>

text \<open>A table whose rows are all complete, as a file: the rows not read yet.\<close>

type_synonym route_row = "64 word \<times> 64 word \<times> 32 word"

fun scan_rows :: "route_row list \<Rightarrow> row_scan \<times> route_row list" where
  "scan_rows [] = (\<lparr>scan_result = - 1, scan_feof = True, scan_destination = None,
     scan_gateway = None, scan_flags = None\<rparr>, [])"
| "scan_rows ((d, g, f) # rows) = (\<lparr>scan_result = 11, scan_feof = False, scan_destination = Some d,
     scan_gateway = Some g, scan_flags = Some f\<rparr>, rows)"

definition route_table :: "route_row list \<Rightarrow> route_row list route_file" where
  "route_table rows = \<lparr>route_fopen = Some rows, route_skip_line = (\<lambda>fp. (0, fp)),
     route_fscanf = scan_rows\<rparr>"

fun default_route :: "route_row \<Rightarrow> bool" where
  "default_route (d, g, f) \<longleftrightarrow> bit f 1 \<and> bit f 0 \<and> d = 0"

lemma flag_bits:
  "flags AND ROUTE_GW \<noteq> 0 \<longleftrightarrow> bit flags 1" "flags AND ROUTE_UP \<noteq> 0 \<longleftrightarrow> bit flags 0"
  using and_exp_eq_0_iff_not_bit [of flags 1] and_exp_eq_0_iff_not_bit [of flags 0]
  by (simp_all add: ROUTE_GW_def ROUTE_UP_def)

lemma route_loop_table:
  "route_loop lib (route_table rows0) rows d g f =
     Some (case List.find default_route rows of
             None \<Rightarrow> [] | Some (_, gateway, _) \<Rightarrow> inet_ntoa lib (ucast gateway))"
proof (induction rows arbitrary: d g f)
  case Nil
  show ?case by (simp add: route_loop.simps [of _ _ "[]"] route_table_def)
next
  case (Cons row rows)
  obtain d' g' f' where row: "row = (d', g', f')" by (cases row)
  have "route_loop lib (route_table rows0) (row # rows) d g f =
      (if bit f' 1 \<and> bit f' 0 \<and> d' = 0 then Some (inet_ntoa lib (ucast g'))
       else route_loop lib (route_table rows0) rows d' g' f')"
    by (subst route_loop.simps)
      (simp add: route_table_def row flag_bits [unfolded not_not] Let_def del: One_nat_def)
  then show ?case using Cons.IH by (simp add: row)
qed

text \<open>
  A read error: \<open>fscanf\<close> returns EOF without the end-of-file indicator and the position stays, so the
  loop reads again and again.
\<close>

lemma route_loop_stuck:
  assumes "\<And>fp. fp = fp0 \<Longrightarrow> route_fscanf file fp = (scan, fp0)"
    and "\<not> scan_feof scan"
    and "scan_destination scan = None" and "scan_gateway scan = None" and "scan_flags scan = None"
    and "\<not> default_route (d, g, f)"
  shows "route_loop lib file fp0 d g f = None"
proof (rule ccontr)
  assume "route_loop lib file fp0 d g f \<noteq> None"
  then obtain r where "route_loop lib file fp0 d g f = Some r" by blast
  then have "\<not> (lib = lib \<and> file = file \<and> fp0 = fp0 \<and> (d, g, f) = (d, g, f))"
  proof (rule route_loop.raw_induct [where P = "\<lambda>lib' file' fp' d' g' f' r.
      \<not> (lib' = lib \<and> file' = file \<and> fp' = fp0 \<and> (d', g', f') = (d, g, f))", rotated])
    fix h lib' file' fp' d' g' f' r
    assume IH: "\<And>lib' file' fp' d' g' f' r. h lib' file' fp' d' g' f' = Some r \<Longrightarrow>
        \<not> (lib' = lib \<and> file' = file \<and> fp' = fp0 \<and> (d', g', f') = (d, g, f))"
      and eq: "(let (scan, fp) = route_fscanf file' fp';
          destination = case_option d' id (scan_destination scan);
          gateway = case_option g' id (scan_gateway scan);
          flags = case_option f' id (scan_flags scan)
        in if scan_result scan \<noteq> 11 \<and> scan_result scan < 0 \<and> scan_feof scan then Some []
           else if flags AND ROUTE_GW \<noteq> 0 \<and> flags AND ROUTE_UP \<noteq> 0 \<and> destination = 0
           then Some (inet_ntoa lib' (ucast gateway))
           else h lib' file' fp destination gateway flags) = Some r"
    show "\<not> (lib' = lib \<and> file' = file \<and> fp' = fp0 \<and> (d', g', f') = (d, g, f))"
    proof
      assume *: "lib' = lib \<and> file' = file \<and> fp' = fp0 \<and> (d', g', f') = (d, g, f)"
      with eq assms have "h lib file fp0 d g f = Some r"
        by (simp add: flag_bits Let_def del: One_nat_def split: if_splits)
      then show False using IH by blast
    qed
  qed
  then show False by simp
qed

section \<open>Properties\<close>

text \<open>
  On a table of complete rows the search ends and returns the gateway of the first
  row that is a gateway, is up and has destination 0.0.0.0, or the empty text when there is none,
  whatever the uninitialised variables held.
\<close>

theorem getIpv4DefaultGateway_table:
  "getIpv4DefaultGateway lib (route_table rows) uninit =
     Some (case List.find default_route rows of
             None \<Rightarrow> [] | Some (_, gateway, _) \<Rightarrow> inet_ntoa lib (ucast gateway))"
proof -
  obtain d g f where "uninit = (d, g, f)" by (cases uninit)
  then show ?thesis
    using route_loop_table [of lib rows rows d g f]
    by (simp add: getIpv4DefaultGateway_def) (simp add: route_table_def)
qed

text \<open>
  When reading the rows fails with an error that is not the end of the file, and keeps
  failing, the search never returns, unless the uninitialised variables happen to look like a default route.
\<close>

theorem getIpv4DefaultGateway_stuck:
  assumes "route_fopen file = Some fp" and "route_skip_line file fp = (n, fp')" and "n \<ge> 0"
    and "route_fscanf file fp' = (\<lparr>scan_result = - 1, scan_feof = False, scan_destination = None,
           scan_gateway = None, scan_flags = None\<rparr>, fp')"
    and "\<not> default_route uninit"
  shows "getIpv4DefaultGateway lib file uninit = None"
proof -
  obtain d g f where u: "uninit = (d, g, f)" by (cases uninit)
  have "route_loop lib file fp' d g f = None"
    using assms(4,5) by (intro route_loop_stuck) (auto simp: u)
  then show ?thesis using assms(1-3) by (simp add: getIpv4DefaultGateway_def u)
qed

theorem getIpv4DefaultGateway_stuck_witness:
  "getIpv4DefaultGateway le_inet
     \<lparr>route_fopen = Some (), route_skip_line = (\<lambda>fp. (0, fp)),
      route_fscanf = (\<lambda>fp. (\<lparr>scan_result = - 1, scan_feof = False, scan_destination = None,
        scan_gateway = None, scan_flags = None\<rparr>, fp))\<rparr> (1, 0, 0) = None"
  by (rule getIpv4DefaultGateway_stuck) auto

end
