(* ===== verification/StdMap.thy ===== *)
theory StdMap
  imports HbmPrelude
begin

text \<open>
  \<open>std::map\<close> as an association list sorted by key: \<open>smap_find\<close> is \<open>find\<close>, \<open>smap_update\<close> is
  \<open>operator[]\<close> followed by an assignment through the reference (a missing key is inserted with a
  default value first), \<open>smap_erase\<close> is \<open>erase(key)\<close>. Iterating over the map is iterating over the list.
\<close>

type_synonym ('k, 'v) smap = "('k \<times> 'v) list"

definition smap_ok :: "('k :: linorder, 'v) smap \<Rightarrow> bool" where
  "smap_ok m \<longleftrightarrow> sorted_wrt (<) (map fst m)"

definition smap_find :: "('k, 'v) smap \<Rightarrow> 'k \<Rightarrow> 'v option" where
  "smap_find m k = map_of m k"

fun smap_update :: "'k :: linorder \<Rightarrow> 'v \<Rightarrow> ('v \<Rightarrow> 'v) \<Rightarrow> ('k, 'v) smap \<Rightarrow> ('k, 'v) smap" where
  "smap_update k dflt f [] = [(k, f dflt)]"
| "smap_update k dflt f ((k', v) # m) =
     (if k < k' then (k, f dflt) # (k', v) # m
      else if k = k' then (k', f v) # m
      else (k', v) # smap_update k dflt f m)"

definition smap_erase :: "'k \<Rightarrow> ('k, 'v) smap \<Rightarrow> ('k, 'v) smap" where
  "smap_erase k m = filter (\<lambda>(k', _). k' \<noteq> k) m"

lemma smap_ok_Nil [simp, intro]: "smap_ok []"
  by (simp add: smap_ok_def)

lemma smap_ok_Cons: "smap_ok ((k, v) # m) \<longleftrightarrow> (\<forall>k' \<in> fst ` set m. k < k') \<and> smap_ok m"
  by (simp add: smap_ok_def)

lemma smap_ok_distinct: "smap_ok m \<Longrightarrow> distinct (map fst m)"
  by (auto simp: smap_ok_def strict_sorted_iff)

lemma keys_smap_update: "fst ` set (smap_update k dflt f m) = insert k (fst ` set m)"
  by (induction k dflt f m rule: smap_update.induct) (auto simp: insert_commute)

lemma smap_ok_update [intro]: "smap_ok m \<Longrightarrow> smap_ok (smap_update k dflt f m)"
proof (induction m)
  case (Cons e m)
  obtain k' v where e: "e = (k', v)" by (cases e)
  have IH: "smap_ok (smap_update k dflt f m)" using Cons by (auto simp: e smap_ok_Cons)
  then show ?case
    using Cons.prems by (simp add: e smap_ok_Cons keys_smap_update) fastforce
qed (simp add: smap_ok_Cons)

lemma smap_find_update:
  "smap_ok m \<Longrightarrow> smap_find (smap_update k dflt f m) k' =
     (if k' = k then Some (f (case smap_find m k of None \<Rightarrow> dflt | Some v \<Rightarrow> v)) else smap_find m k')"
proof (induction m)
  case (Cons e m)
  obtain a v where e: "e = (a, v)" by (cases e)
  have "map_of m k = None" if "k < a"
    using Cons.prems that by (force simp: e smap_ok_Cons map_of_eq_None_iff)
  then show ?case using Cons by (auto simp: e smap_ok_Cons smap_find_def)
qed (simp add: smap_find_def)

lemma smap_ok_erase [intro]: "smap_ok m \<Longrightarrow> smap_ok (smap_erase k m)"
  by (induction m) (auto simp: smap_erase_def smap_ok_Cons)

lemma smap_find_erase: "smap_find (smap_erase k m) k' = (if k' = k then None else smap_find m k')"
  by (induction m) (auto simp: smap_erase_def smap_find_def)

lemma smap_find_iff: "smap_ok m \<Longrightarrow> smap_find m k = Some v \<longleftrightarrow> (k, v) \<in> set m"
  by (simp add: smap_find_def smap_ok_distinct map_of_eq_Some_iff)

lemma smap_find_SomeD: "smap_find m k = Some v \<Longrightarrow> (k, v) \<in> set m"
  by (simp add: smap_find_def map_of_SomeD)

lemma set_smap_update: "smap_ok m \<Longrightarrow> set (smap_update k dflt f m) \<subseteq>
    insert (k, f (case smap_find m k of None \<Rightarrow> dflt | Some v \<Rightarrow> v)) (set m)"
proof
  fix e assume "smap_ok m" and e: "e \<in> set (smap_update k dflt f m)"
  then have "smap_find (smap_update k dflt f m) (fst e) = Some (snd e)"
    by (simp add: smap_find_iff smap_ok_update)
  then show "e \<in> insert (k, f (case smap_find m k of None \<Rightarrow> dflt | Some v \<Rightarrow> v)) (set m)"
    using \<open>smap_ok m\<close> by (cases e) (auto simp: smap_find_update smap_find_iff split: if_splits)
qed

end
