(* ===== verification/NetadapterList.thy ===== *)
theory NetadapterList
  imports Netadapter StdMap
begin

text \<open>
  \<open>lib/communication/linux/netadapterlist.cpp\<close>: the list of network adapters. \<open>update\<close> rebuilds it
  from the interface addresses of the system, the queries search it. The system calls are the
  parameter \<open>net_env\<close>. The mutex around the map is not modelled: each operation is one step.
\<close>

section \<open>The hardware of an interface\<close>

text \<open>
  The bytes of \<open>ifr_hwaddr\<close>: the family, and the memory from \<open>sa_data\<close> on. The array has 14
  bytes, the code reads up to 16; those past the array lie in the same union of \<open>struct ifreq\<close>.
\<close>

record hwaddr =
  hw_family :: "16 word"
  hw_data :: "nat \<Rightarrow> 8 word"

text \<open>
  \<open>ifa_addr\<close> and \<open>ifa_netmask\<close> as the code reads them: \<open>sin_addr\<close> and \<open>sin6_addr\<close> are different
  bytes of the storage, so both views of one address exist side by side.
\<close>

record sockaddr =
  sa_family :: nat
  sin_addr :: "32 word"
  sin6_addr :: "8 word list"

record ifaddrs =
  ifa_name :: string
  ifa_flags :: "32 word"
  ifa_addr :: "sockaddr option"
  ifa_netmask :: "sockaddr option"

record net_env =
  env_socket :: int
  env_ioctl :: "string \<Rightarrow> int \<times> hwaddr"
  env_getifaddrs :: "ifaddrs list option"
  env_if_nametoindex :: "string \<Rightarrow> 32 word"
  env_inet_ntop4 :: "32 word \<Rightarrow> string option"
  env_inet_ntop6 :: "8 word list \<Rightarrow> string option"

record hardwareInfo_t =
  hwAddrString :: string
  fwGuid :: "64 word"
  isHardware :: bool

definition hardwareInfo_ctor :: hardwareInfo_t where
  "hardwareInfo_ctor = \<lparr>hwAddrString = [], fwGuid = 0, isHardware = False\<rparr>"

definition ARPHRD_ETHER :: "16 word" where "ARPHRD_ETHER = 1"

definition ARPHRD_IEEE1394 :: "16 word" where "ARPHRD_IEEE1394 = 24"

definition AF_INET :: nat where "AF_INET = 2"

definition AF_INET6 :: nat where "AF_INET6 = 10"

definition IFF_MULTICAST :: "32 word" where "IFF_MULTICAST = 0x1000"

text \<open>\<open>sa_data\<close> has the type \<open>char\<close>, which is signed: the byte is sign-extended before the OR.\<close>

fun guid_loop :: "8 word list \<Rightarrow> 64 word \<Rightarrow> 64 word" where
  "guid_loop [] guid = guid"
| "guid_loop (b # bs) guid = guid_loop bs (push_bit 8 guid OR scast b)"

definition hex_digit :: "nat \<Rightarrow> char" where
  "hex_digit d = (if d < 10 then char_of (48 + d) else char_of (55 + d))"

definition hex_byte :: "8 word \<Rightarrow> string" where
  "hex_byte b = [hex_digit (unat b div 16), hex_digit (unat b mod 16)]"

fun mac_loop :: "8 word list \<Rightarrow> nat \<Rightarrow> string" where
  "mac_loop [] i = []"
| "mac_loop (b # bs) i = (if i > 0 then '':'' else []) @ hex_byte b @ mac_loop bs (i + 1)"

text \<open>The interface name is cut to the 15 characters that fit into \<open>ifr_name\<close>.\<close>

definition getHardwareInfo :: "net_env \<Rightarrow> string \<Rightarrow> hardwareInfo_t" where
  "getHardwareInfo env interfaceName =
     (let result = hardwareInfo_ctor in
      if env_socket env = - 1 then result
      else let (rc, ifr) = env_ioctl env (take 15 interfaceName) in
        if rc = 1 then result
        else let (macLen, result) =
            (if hw_family ifr = ARPHRD_ETHER then (6, result\<lparr>isHardware := True\<rparr>)
             else if hw_family ifr = ARPHRD_IEEE1394
             then (16, result\<lparr>isHardware := True, fwGuid := guid_loop (map (hw_data ifr) [0..<8]) 0\<rparr>)
             else (0, result))
          in result\<lparr>hwAddrString := mac_loop (map (hw_data ifr) [0..<macLen]) 0\<rparr>)"

section \<open>The update of the list\<close>

fun bit_loop :: "nat \<Rightarrow> 8 word \<Rightarrow> 8 word \<Rightarrow> nat \<Rightarrow> nat" where
  "bit_loop 0 byte msk bitCount = bitCount"
| "bit_loop (Suc n) byte msk bitCount =
     bit_loop n byte (push_bit 1 msk) (if byte AND msk \<noteq> 0 then bitCount + 1 else bitCount)"

fun byte_loop :: "8 word list \<Rightarrow> nat \<Rightarrow> nat" where
  "byte_loop [] bitCount = bitCount"
| "byte_loop (byte # bytes) bitCount =
     (if byte = 0 then bitCount else byte_loop bytes (bit_loop 8 byte 1 bitCount))"

type_synonym adapters = "(32 word, Netadapter) smap"

text \<open>
  The part of \<open>update\<close> for one address of a hardware interface. A missing netmask is a null pointer
  that \<open>memcpy\<close> reads.
\<close>

definition add_address :: "net_env \<Rightarrow> inet_lib \<Rightarrow> sockaddr \<Rightarrow> sockaddr option \<Rightarrow> Netadapter \<Rightarrow>
    cxx_exception + Netadapter" where
  "add_address env lib addr mask_addr Adapt =
     (if sa_family addr = AF_INET then
        (let addressWithNetmask = \<lparr>address = case_option [] id (env_inet_ntop4 env (sin_addr addr)),
               netmask = []\<rparr> in
         case mask_addr of
           None \<Rightarrow> Inl UndefinedBehaviour
         | Some nm \<Rightarrow>
             (let addressWithNetmask = addressWithNetmask
                    \<lparr>netmask := case_option [] id (env_inet_ntop4 env (sin_addr nm))\<rparr> in
              if isApipaAddress lib (address addressWithNetmask)
              then Inr (Adapt\<lparr>m_ipv4Addresses := m_ipv4Addresses Adapt @ [addressWithNetmask]\<rparr>)
              else Inr (Adapt\<lparr>m_ipv4Addresses := addressWithNetmask # m_ipv4Addresses Adapt\<rparr>)))
      else if sa_family addr = AF_INET6 then
        (let addr6 = Ipv6Address_ctor\<lparr>address6 := case_option [] id (env_inet_ntop6 env (sin6_addr addr))\<rparr> in
         case mask_addr of
           None \<Rightarrow> Inl UndefinedBehaviour
         | Some nm \<Rightarrow>
             (let bitCount = byte_loop (take 16 (sin6_addr nm)) 0;
                  addr6 = addr6\<lparr>prefix6 := of_nat bitCount\<rparr> in
              Inr (Adapt\<lparr>m_ipv6Addresses := m_ipv6Addresses Adapt @ [addr6]\<rparr>)))
      else Inr Adapt)"

definition identify :: "32 word \<Rightarrow> string \<Rightarrow> hardwareInfo_t \<Rightarrow> Netadapter \<Rightarrow> Netadapter" where
  "identify interfaceIndex name hw Adapt =
     (if m_macAddress Adapt = []
      then Adapt\<lparr>m_index := interfaceIndex, m_name := name,
                 m_macAddress := hwAddrString hw, m_fwGuid := fwGuid hw\<rparr>
      else Adapt)"

fun update_loop :: "net_env \<Rightarrow> inet_lib \<Rightarrow> ifaddrs list \<Rightarrow> adapters \<Rightarrow> cxx_exception + adapters" where
  "update_loop env lib [] adapterMap = Inr adapterMap"
| "update_loop env lib (ifa # rest) adapterMap =
     (case ifa_addr ifa of
        None \<Rightarrow> update_loop env lib rest adapterMap
      | Some addr \<Rightarrow>
          if ifa_flags ifa AND IFF_MULTICAST = 0 then update_loop env lib rest adapterMap
          else let hardwareInfo = getHardwareInfo env (ifa_name ifa) in
            if \<not> isHardware hardwareInfo then update_loop env lib rest adapterMap
            else let interfaceIndex = env_if_nametoindex env (ifa_name ifa);
                     Adapt = case_option Netadapter_ctor id (smap_find adapterMap interfaceIndex);
                     Adapt = identify interfaceIndex (ifa_name ifa) hardwareInfo Adapt in
              (case add_address env lib addr (ifa_netmask ifa) Adapt of
                 Inl ex \<Rightarrow> Inl ex
               | Inr Adapt \<Rightarrow>
                   update_loop env lib rest
                     (smap_update interfaceIndex Netadapter_ctor (\<lambda>_. Adapt) adapterMap)))"

record NetadapterList =
  m_adapters :: adapters

definition update :: "net_env \<Rightarrow> inet_lib \<Rightarrow> NetadapterList \<Rightarrow> cxx_exception + NetadapterList" where
  "update env lib self =
     (case env_getifaddrs env of
        None \<Rightarrow> Inr self
      | Some interfaces \<Rightarrow>
          (case update_loop env lib interfaces [] of
             Inl ex \<Rightarrow> Inl ex
           | Inr adapterMap \<Rightarrow> Inr (self\<lparr>m_adapters := adapterMap\<rparr>)))"

definition NetadapterList_ctor :: "net_env \<Rightarrow> inet_lib \<Rightarrow> cxx_exception + NetadapterList" where
  "NetadapterList_ctor env lib = update env lib \<lparr>m_adapters = []\<rparr>"

section \<open>The queries\<close>

definition get_adapters :: "NetadapterList \<Rightarrow> adapters" where
  "get_adapters self = m_adapters self"

definition getArray :: "NetadapterList \<Rightarrow> Netadapter list" where
  "getArray self = foldl (\<lambda>result iter. result @ [snd iter]) [] (m_adapters self)"

fun name_loop :: "string \<Rightarrow> adapters \<Rightarrow> cxx_exception + Netadapter" where
  "name_loop adapterName [] = Inl (HbmException ''invalid interface'')"
| "name_loop adapterName (iter # rest) =
     (if m_name (snd iter) = adapterName then Inr (snd iter) else name_loop adapterName rest)"

definition getAdapterByName :: "NetadapterList \<Rightarrow> string \<Rightarrow> cxx_exception + Netadapter" where
  "getAdapterByName self adapterName = name_loop adapterName (m_adapters self)"

definition getAdapterByInterfaceIndex :: "NetadapterList \<Rightarrow> 32 word \<Rightarrow> cxx_exception + Netadapter" where
  "getAdapterByInterfaceIndex self interfaceIndex =
     (case smap_find (m_adapters self) interfaceIndex of
        None \<Rightarrow> Inl (HbmException ''invalid interface'')
      | Some iter \<Rightarrow> Inr iter)"

fun subnet_loop :: "string \<Rightarrow> Ipv4Address list \<Rightarrow> cxx_exception + bool" where
  "subnet_loop requestedSubnet [] = Inr False"
| "subnet_loop requestedSubnet (addr # rest) =
     (case getSubnet addr of
        Inl ex \<Rightarrow> Inl ex
      | Inr subnet \<Rightarrow> if requestedSubnet = subnet then Inr True else subnet_loop requestedSubnet rest)"

fun checkSubnet_loop :: "string \<Rightarrow> string \<Rightarrow> adapters \<Rightarrow> cxx_exception + string" where
  "checkSubnet_loop excludeAdapterName requestedSubnet [] = Inr []"
| "checkSubnet_loop excludeAdapterName requestedSubnet (adapterIter # rest) =
     (let adapter = snd adapterIter in
      if excludeAdapterName \<noteq> m_name adapter then
        (case subnet_loop requestedSubnet (m_ipv4Addresses adapter) of
           Inl ex \<Rightarrow> Inl ex
         | Inr found \<Rightarrow>
             if found then Inr (m_name adapter)
             else checkSubnet_loop excludeAdapterName requestedSubnet rest)
      else checkSubnet_loop excludeAdapterName requestedSubnet rest)"

definition checkSubnet ::
  "NetadapterList \<Rightarrow> string \<Rightarrow> Ipv4Address \<Rightarrow> cxx_exception + string" where
  "checkSubnet self excludeAdapterName requestedAddress =
     (case getSubnet requestedAddress of
        Inl ex \<Rightarrow> Inl ex
      | Inr requestedSubnet \<Rightarrow> checkSubnet_loop excludeAdapterName requestedSubnet (m_adapters self))"

section \<open>The invariant of the list\<close>

text \<open>
  Every entry is stored under its own interface index, has a MAC address, and lists the addresses of the
  net 169.254 behind all others.
\<close>

definition apipa_last :: "inet_lib \<Rightarrow> Ipv4Address list \<Rightarrow> bool" where
  "apipa_last lib =
     sorted_wrt (\<lambda>a b. isApipaAddress lib (address a) \<longrightarrow> isApipaAddress lib (address b))"

definition adapter_ok :: "inet_lib \<Rightarrow> 32 word \<Rightarrow> Netadapter \<Rightarrow> bool" where
  "adapter_ok lib k a \<longleftrightarrow> m_index a = k \<and> m_macAddress a \<noteq> [] \<and> apipa_last lib (m_ipv4Addresses a)"

definition adapters_ok :: "inet_lib \<Rightarrow> adapters \<Rightarrow> bool" where
  "adapters_ok lib m \<longleftrightarrow> smap_ok m \<and> (\<forall>(k, a) \<in> set m. adapter_ok lib k a)"

text \<open>What the queries rely on: the keys are sorted, and every adapter is stored under its index.\<close>

definition indexed :: "adapters \<Rightarrow> bool" where
  "indexed m \<longleftrightarrow> smap_ok m \<and> (\<forall>(k, a) \<in> set m. m_index a = k)"

lemma adapters_ok_indexed: "adapters_ok lib m \<Longrightarrow> indexed m"
  by (auto simp: adapters_ok_def adapter_ok_def indexed_def)

lemma apipa_last_intros:
  "apipa_last lib []"
  "\<not> isApipaAddress lib (address a) \<Longrightarrow> apipa_last lib as \<Longrightarrow> apipa_last lib (a # as)"
  "isApipaAddress lib (address a) \<Longrightarrow> apipa_last lib as \<Longrightarrow> apipa_last lib (as @ [a])"
  by (simp_all add: apipa_last_def sorted_wrt_append)

lemma hardware_mac: "isHardware (getHardwareInfo env name) \<Longrightarrow> hwAddrString (getHardwareInfo env name) \<noteq> []"
proof -
  have "mac_loop (map f [0..<n]) 0 \<noteq> []" if "0 < n" for f n
    using that by (simp only: upt_conv_Cons list.map mac_loop.simps hex_byte_def) simp
  then show "isHardware (getHardwareInfo env name) \<Longrightarrow> hwAddrString (getHardwareInfo env name) \<noteq> []"
    unfolding getHardwareInfo_def Let_def
    by (cases "env_ioctl env (take 15 name)") (simp add: hardwareInfo_ctor_def split: if_splits)
qed

lemma identify_ok:
  assumes "isHardware (getHardwareInfo env name)"
    and "\<And>a. smap_find m k = Some a \<Longrightarrow> adapter_ok lib k a"
  shows "adapter_ok lib k (identify k name (getHardwareInfo env name) (case_option Netadapter_ctor id (smap_find m k)))"
  using assms hardware_mac [OF assms(1)]
  by (cases "smap_find m k") (auto simp: identify_def adapter_ok_def Netadapter_ctor_def apipa_last_intros)

lemma add_address_ok:
  "add_address env lib addr nm A = Inr A' \<Longrightarrow> adapter_ok lib k A \<Longrightarrow> adapter_ok lib k A'"
  by (auto simp: add_address_def adapter_ok_def Let_def apipa_last_intros
      split: if_splits option.splits)

lemma adapters_ok_update:
  assumes "adapters_ok lib m" and "adapter_ok lib k a"
  shows "adapters_ok lib (smap_update k d (\<lambda>_. a) m)"
  using assms set_smap_update [of m k d "\<lambda>_. a"] by (auto simp: adapters_ok_def)

text \<open>The addresses that \<open>update\<close> takes into account, and the adapter it adds one to.\<close>

definition eligible :: "net_env \<Rightarrow> ifaddrs \<Rightarrow> bool" where
  "eligible env ifa \<longleftrightarrow> ifa_addr ifa \<noteq> None \<and> ifa_flags ifa AND IFF_MULTICAST \<noteq> 0 \<and>
     isHardware (getHardwareInfo env (ifa_name ifa))"

definition known_adapter :: "net_env \<Rightarrow> ifaddrs \<Rightarrow> adapters \<Rightarrow> Netadapter" where
  "known_adapter env ifa m =
     (let k = env_if_nametoindex env (ifa_name ifa) in
      identify k (ifa_name ifa) (getHardwareInfo env (ifa_name ifa))
        (case_option Netadapter_ctor id (smap_find m k)))"

lemma update_loop_Cons:
  "\<not> eligible env ifa \<Longrightarrow> update_loop env lib (ifa # rest) m = update_loop env lib rest m"
  "eligible env ifa \<Longrightarrow> update_loop env lib (ifa # rest) m =
     (case add_address env lib (the (ifa_addr ifa)) (ifa_netmask ifa) (known_adapter env ifa m) of
        Inl ex \<Rightarrow> Inl ex
      | Inr A \<Rightarrow> update_loop env lib rest
          (smap_update (env_if_nametoindex env (ifa_name ifa)) Netadapter_ctor (\<lambda>_. A) m))"
  by (auto simp: eligible_def known_adapter_def Let_def split: option.splits)

lemma known_adapter_ok:
  "eligible env ifa \<Longrightarrow> adapters_ok lib m \<Longrightarrow>
     adapter_ok lib (env_if_nametoindex env (ifa_name ifa)) (known_adapter env ifa m)"
  unfolding known_adapter_def Let_def
  by (rule identify_ok) (auto simp: eligible_def adapters_ok_def dest: smap_find_SomeD)

lemma update_loop_ok:
  "update_loop env lib ifs m = Inr m' \<Longrightarrow> adapters_ok lib m \<Longrightarrow> adapters_ok lib m'"
proof (induction ifs arbitrary: m)
  case (Cons ifa rest)
  show ?case
  proof (cases "eligible env ifa")
    case True
    then obtain A where
        A: "add_address env lib (the (ifa_addr ifa)) (ifa_netmask ifa) (known_adapter env ifa m) = Inr A"
      and rest: "update_loop env lib rest
          (smap_update (env_if_nametoindex env (ifa_name ifa)) Netadapter_ctor (\<lambda>_. A) m) = Inr m'"
      using Cons.prems(1) by (auto simp only: update_loop_Cons split: sum.splits)
    then show ?thesis
      using Cons.IH [OF rest] Cons.prems(2) True known_adapter_ok add_address_ok adapters_ok_update
      by blast
  next
    case False
    then show ?thesis using Cons update_loop_Cons(1) [OF False] by metis
  qed
qed simp

lemma add_address_total: "nm \<noteq> None \<Longrightarrow> \<exists>A'. add_address env lib addr nm A = Inr A'"
  by (auto simp: add_address_def Let_def)

lemma update_loop_keys:
  "(\<forall>ifa \<in> set ifs. ifa_netmask ifa \<noteq> None) \<Longrightarrow>
   \<exists>m'. update_loop env lib ifs m = Inr m' \<and>
     fst ` set m' = fst ` set m \<union> (env_if_nametoindex env \<circ> ifa_name) ` {ifa \<in> set ifs. eligible env ifa}"
proof (induction ifs arbitrary: m)
  case (Cons ifa rest)
  show ?case
  proof (cases "eligible env ifa")
    case False
    then have "{x \<in> set (ifa # rest). eligible env x} = {x \<in> set rest. eligible env x}" by auto
    with Cons show ?thesis by (simp only: update_loop_Cons(1) [OF False]) simp
  next
    case True
    obtain A where
        A: "add_address env lib (the (ifa_addr ifa)) (ifa_netmask ifa) (known_adapter env ifa m) = Inr A"
      using add_address_total Cons.prems by (metis list.set_intros(1))
    have "{x \<in> set (ifa # rest). eligible env x} = insert ifa {x \<in> set rest. eligible env x}"
      using True by auto
    with Cons.IH [of "smap_update (env_if_nametoindex env (ifa_name ifa)) Netadapter_ctor (\<lambda>_. A) m"]
      Cons.prems show ?thesis
      by (simp only: update_loop_Cons(2) [OF True] A sum.case) (simp add: keys_smap_update)
  qed
qed simp

section \<open>Prefix lengths and GUIDs\<close>

definition part_mask :: "nat \<Rightarrow> 8 word" where
  "part_mask r = push_bit (8 - r) (mask r)"

definition netmask6 :: "nat \<Rightarrow> 8 word list" where
  "netmask6 p = take 16 (replicate (p div 8) 0xff @ part_mask (p mod 8) # replicate 15 0)"

lemma bit_loop_acc: "bit_loop n b m (c + d) = c + bit_loop n b m d"
  by (induction n b m d rule: bit_loop.induct) (auto simp: add.assoc)

lemma bit_loop_part: "r \<le> 8 \<Longrightarrow> bit_loop 8 (part_mask r) 1 0 = r"
proof -
  have "\<forall>r \<in> set [0, 1, 2, 3, 4, 5, 6, 7, 8]. bit_loop 8 (part_mask r) 1 0 = r" by code_simp
  moreover assume "r \<le> 8"
  then have "r \<in> set [0, 1, 2, 3, 4, 5, 6, 7, 8]" by (simp add: le_Suc_eq numeral_eq_Suc)
  ultimately show ?thesis by blast
qed

lemma byte_loop_ones: "byte_loop (replicate q 0xff @ bs) c = byte_loop bs (8 * q + c)"
proof (induction q arbitrary: c)
  case (Suc q)
  have "part_mask 8 = 0xff" and ff: "(0xff :: 8 word) \<noteq> 0" by code_simp+
  then have "bit_loop 8 0xff 1 c = c + 8"
    using bit_loop_acc [of 8 "0xff" 1 c 0] bit_loop_part [of 8] by simp
  with ff show ?case
    by (simp only: replicate_Suc append_Cons byte_loop.simps if_False Suc)
      (simp add: algebra_simps)
qed simp

lemma byte_loop_netmask6:
  assumes "p \<le> 128"
  shows "byte_loop (netmask6 p) 0 = p"
proof (cases "p div 8 < 16")
  case True
  have "byte_loop (part_mask (p mod 8) # replicate (15 - p div 8) 0) (8 * (p div 8)) = p"
  proof (cases "p mod 8 = 0")
    case True
    then show ?thesis by (simp add: part_mask_def) (metis mult_div_mod_eq add.right_neutral)
  next
    case False
    have "part_mask (p mod 8) \<noteq> 0"
    proof
      assume "part_mask (p mod 8) = 0"
      then have "bit_loop 8 (0 :: 8 word) 1 0 = p mod 8" using bit_loop_part [of "p mod 8"] by simp
      moreover have "bit_loop 8 (0 :: 8 word) 1 0 = 0" by code_simp
      ultimately show False using False by simp
    qed
    moreover have "byte_loop (replicate n 0) c = c" for n c by (cases n) simp_all
    ultimately show ?thesis
      using bit_loop_acc [of 8 "part_mask (p mod 8)" 1 "8 * (p div 8)" 0] bit_loop_part [of "p mod 8"]
      by simp
  qed
  with True show ?thesis
    by (simp add: netmask6_def byte_loop_ones Suc_diff_le take_Cons')
next
  case False
  then have "p = 128" using assms by simp
  then show ?thesis using byte_loop_ones [of 16 "[]" 0] by (simp add: netmask6_def)
qed

lemma guid_loop_snoc: "guid_loop (bs @ [b]) g = push_bit 8 (guid_loop bs g) OR scast b"
  by (induction bs arbitrary: g) auto

lemma bit_scast_byte: "bit (scast (b :: 8 word) :: 64 word) n \<longleftrightarrow> n < 64 \<and> bit b (min n 7)"
  by (auto simp: bit_simps min_def)

lemma bit_guid_loop:
  "n < 64 \<Longrightarrow> n < 8 * length bs \<Longrightarrow> bit (guid_loop bs 0) n \<longleftrightarrow>
     bit (bs ! (length bs - 1 - n div 8)) (n mod 8) \<or>
     (\<exists>j < length bs. length bs - 1 - n div 8 < j \<and> bit (bs ! j) 7)"
proof (induction bs arbitrary: n rule: rev_induct)
  case (snoc b bs)
  show ?case
  proof (cases "n < 8")
    case True
    then have "bit (guid_loop (bs @ [b]) 0) n \<longleftrightarrow> bit b n"
      by (simp add: guid_loop_snoc bit_or_iff bit_push_bit_iff bit_scast_byte min_def)
    moreover have "n div 8 = 0" and "n mod 8 = n" using True by simp_all
    ultimately show ?thesis by (auto simp: nth_append)
  next
    case False
    then have "8 \<le> n" by simp
    then have n8: "n div 8 = Suc ((n - 8) div 8)" "n mod 8 = (n - 8) mod 8"
      using le_div_geq [of 8 n] le_mod_geq [of 8 n] by auto
    have pos: "0 < length bs" using snoc.prems(2) \<open>8 \<le> n\<close> by (cases bs) simp_all
    define K where "K = length bs - 1 - (n - 8) div 8"
    have K2: "K < length bs" unfolding K_def using pos by linarith
    have K3: "length (bs @ [b]) - 1 - n div 8 = K" unfolding K_def n8(1) by simp
    have "n - 8 < 64" and "n - 8 < 8 * length bs" using snoc.prems \<open>8 \<le> n\<close> by simp_all
    from snoc.IH [OF this] have "bit (guid_loop bs 0) (n - 8) \<longleftrightarrow>
        bit (bs ! K) (n mod 8) \<or> (\<exists>j < length bs. K < j \<and> bit (bs ! j) 7)"
      unfolding K_def n8(2) .
    moreover have "bit (guid_loop (bs @ [b]) 0) n \<longleftrightarrow> bit (guid_loop bs 0) (n - 8) \<or> bit b 7"
      using snoc.prems False \<open>8 \<le> n\<close>
      by (simp add: guid_loop_snoc bit_or_iff bit_push_bit_iff bit_scast_byte min_def)
    moreover have "(\<exists>j < length (bs @ [b]). K < j \<and> bit ((bs @ [b]) ! j) 7) \<longleftrightarrow>
        (\<exists>j < length bs. K < j \<and> bit (bs ! j) 7) \<or> bit b 7"
      using K2 by (simp add: less_Suc_eq conj_disj_distribR ex_disj_distrib nth_append cong: conj_cong)
    moreover have "(bs @ [b]) ! K = bs ! K" using K2 by (simp add: nth_append)
    ultimately show ?thesis unfolding K3 by (simp only:) blast
  qed
qed simp

section \<open>Searching\<close>

lemma name_loop_find: "name_loop name m =
    (case List.find (\<lambda>(k, a). m_name a = name) m of
       None \<Rightarrow> Inl (HbmException ''invalid interface'') | Some (k, a) \<Rightarrow> Inr a)"
  by (induction m) auto

lemma subnet_loop_any:
  "(\<forall>a \<in> set as. \<exists>t. getSubnet a = Inr t) \<Longrightarrow>
     subnet_loop s as = Inr (\<exists>a \<in> set as. getSubnet a = Inr s)"
  by (induction as) auto

lemma checkSubnet_loop_find:
  "(\<forall>(k, ad) \<in> set m. \<forall>a \<in> set (m_ipv4Addresses ad). \<exists>t. getSubnet a = Inr t) \<Longrightarrow>
   checkSubnet_loop excl s m =
     Inr (case List.find (\<lambda>(k, ad). m_name ad \<noteq> excl \<and> (\<exists>a \<in> set (m_ipv4Addresses ad). getSubnet a = Inr s)) m
          of None \<Rightarrow> [] | Some (k, ad) \<Rightarrow> m_name ad)"
  by (induction m) (auto simp: subnet_loop_any split_beta Let_def)

section \<open>Properties\<close>

text \<open>
  Claim C12: \<open>update\<close> keeps the invariant of the list: afterwards every adapter is stored under its own
  interface index, has a MAC address, and its addresses in 169.254.0.0/16 stand behind all others.
\<close>

theorem update_invariant:
  assumes "update env lib self = Inr self'" and "adapters_ok lib (m_adapters self)"
  shows "adapters_ok lib (m_adapters self')"
proof -
  have "adapters_ok lib []" by (simp add: adapters_ok_def)
  with assms show ?thesis
    by (auto simp: update_def dest: update_loop_ok split: option.splits sum.splits)
qed

text \<open>A system with one Ethernet interface that has an APIPA address and a static address.\<close>

definition eth_env :: net_env where
  "eth_env = \<lparr>env_socket = 3, env_ioctl = (\<lambda>_. (0, \<lparr>hw_family = ARPHRD_ETHER, hw_data = of_nat\<rparr>)),
     env_getifaddrs = Some
       [\<lparr>ifa_name = ''eth0'', ifa_flags = 0x1043,
         ifa_addr = Some \<lparr>sa_family = 2, sin_addr = bswap32 0xA9FE0101, sin6_addr = []\<rparr>,
         ifa_netmask = Some \<lparr>sa_family = 2, sin_addr = bswap32 0xFFFF0000, sin6_addr = []\<rparr>\<rparr>,
        \<lparr>ifa_name = ''eth0'', ifa_flags = 0x1043,
         ifa_addr = Some \<lparr>sa_family = 2, sin_addr = bswap32 0xC0A80001, sin6_addr = []\<rparr>,
         ifa_netmask = Some \<lparr>sa_family = 2, sin_addr = bswap32 0xFFFFFF00, sin6_addr = []\<rparr>\<rparr>],
     env_if_nametoindex = (\<lambda>_. 2), env_inet_ntop4 = (\<lambda>v. Some (dotted (bswap32 v))),
     env_inet_ntop6 = (\<lambda>_. None)\<rparr>"

lemma eth_env_facts:
  "env_getifaddrs eth_env = Some (the (env_getifaddrs eth_env))"
  "\<forall>ifa \<in> set (the (env_getifaddrs eth_env)). ifa_netmask ifa \<noteq> None"
  "{env_if_nametoindex eth_env (ifa_name ifa) | ifa.
      ifa \<in> set (the (env_getifaddrs eth_env)) \<and> eligible eth_env ifa} = {2}"
proof -
  have hw: "isHardware (getHardwareInfo eth_env ''eth0'')"
    by (simp add: eth_env_def getHardwareInfo_def hardwareInfo_ctor_def)
  have "(0x1043 :: 32 word) AND IFF_MULTICAST \<noteq> 0" by code_simp
  then have "\<forall>ifa \<in> set (the (env_getifaddrs eth_env)). eligible eth_env ifa"
    using hw by (simp add: eligible_def) (simp add: eth_env_def)
  then show "{env_if_nametoindex eth_env (ifa_name ifa) | ifa.
      ifa \<in> set (the (env_getifaddrs eth_env)) \<and> eligible eth_env ifa} = {2}"
    by (auto simp: eth_env_def)
qed (simp_all add: eth_env_def)

theorem update_invariant_witness:
  "\<exists>self'. update eth_env le_inet \<lparr>m_adapters = []\<rparr> = Inr self' \<and>
     adapters_ok le_inet (m_adapters self') \<and> m_adapters self' \<noteq> []"
proof -
  obtain m where m: "update_loop eth_env le_inet (the (env_getifaddrs eth_env)) [] = Inr m"
      "fst ` set m = (env_if_nametoindex eth_env \<circ> ifa_name) `
        {ifa \<in> set (the (env_getifaddrs eth_env)). eligible eth_env ifa}"
    using update_loop_keys [OF eth_env_facts(2), where env = eth_env and lib = le_inet and m = "[]"] by auto
  then have "fst ` set m = {2}" using eth_env_facts(3) by (auto simp: image_def)
  then have "m \<noteq> []" by auto
  moreover have u: "update eth_env le_inet \<lparr>m_adapters = []\<rparr> = Inr \<lparr>m_adapters = m\<rparr>"
    by (subst update_def, subst eth_env_facts(1)) (simp add: m(1))
  moreover have "adapters_ok le_inet (m_adapters \<lparr>m_adapters = []\<rparr>)" by (simp add: adapters_ok_def)
  ultimately show ?thesis using update_invariant [OF u] by auto
qed

text \<open>
  When every interface address has a netmask, \<open>update\<close> succeeds and the list holds exactly one
  adapter for each interface index that occurs among the addresses of multicast capable hardware interfaces.
\<close>

theorem update_complete:
  assumes "env_getifaddrs env = Some ifs" and "\<forall>ifa \<in> set ifs. ifa_netmask ifa \<noteq> None"
  shows "\<exists>self'. update env lib self = Inr self' \<and> distinct (map fst (m_adapters self')) \<and>
     set (map fst (m_adapters self')) =
       {env_if_nametoindex env (ifa_name ifa) | ifa. ifa \<in> set ifs \<and> eligible env ifa}"
proof -
  obtain m where m: "update_loop env lib ifs [] = Inr m"
      "fst ` set m = (env_if_nametoindex env \<circ> ifa_name) ` {ifa \<in> set ifs. eligible env ifa}"
    using update_loop_keys [OF assms(2), where env = env and lib = lib and m = "[]"] by auto
  have "distinct (map fst m)"
    using update_loop_ok [OF m(1)] smap_ok_distinct by (auto simp: adapters_ok_def)
  with m assms(1) show ?thesis by (auto simp: update_def)
qed

theorem update_complete_witness:
  "\<exists>self'. update eth_env le_inet \<lparr>m_adapters = []\<rparr> = Inr self' \<and> set (map fst (m_adapters self')) = {2}"
  using update_complete [OF eth_env_facts(1,2), of le_inet "\<lparr>m_adapters = []\<rparr>"]
  unfolding eth_env_facts(3) by blast

text \<open>
  An IPv6 address whose netmask consists of p leading ones (p at most 128) is appended to the
  adapter with prefix length p.
\<close>

theorem ipv6_prefix_correct:
  assumes "p \<le> 128" and "sa_family addr = AF_INET6" and "sin6_addr nm = netmask6 p"
    and "env_inet_ntop6 env (sin6_addr addr) = Some t"
  shows "add_address env lib addr (Some nm) A =
    Inr (A\<lparr>m_ipv6Addresses := m_ipv6Addresses A @ [\<lparr>address6 = t, prefix6 = of_nat p\<rparr>]\<rparr>)"
proof -
  have "take 16 (netmask6 p) = netmask6 p" unfolding netmask6_def by (simp only: take_take min.idem)
  then show ?thesis
    using assms byte_loop_netmask6 [OF assms(1)]
    by (simp add: add_address_def AF_INET_def AF_INET6_def Ipv6Address_ctor_def Let_def)
qed

theorem ipv6_prefix_correct_witness:
  "add_address (eth_env\<lparr>env_inet_ntop6 := \<lambda>_. Some ''fe80::1''\<rparr>) le_inet
     \<lparr>sa_family = AF_INET6, sin_addr = 0, sin6_addr = []\<rparr>
     (Some \<lparr>sa_family = AF_INET6, sin_addr = 0, sin6_addr = netmask6 64\<rparr>) Netadapter_ctor =
   Inr (Netadapter_ctor\<lparr>m_ipv6Addresses := [\<lparr>address6 = ''fe80::1'', prefix6 = 64\<rparr>]\<rparr>)"
  by (subst ipv6_prefix_correct [of 64]) (simp_all add: Netadapter_ctor_def)

text \<open>
  The GUID of a FireWire interface: bit n of the GUID is set when the corresponding bit of
  the hardware address is set, and also when any later byte has its top bit set, because each byte is
  sign-extended before it is combined. Such a byte hides all bytes in front of it.
\<close>

theorem firewire_guid_bits:
  assumes "env_socket env \<noteq> - 1" and "env_ioctl env (take 15 name) = (0, hw)"
    and "hw_family hw = ARPHRD_IEEE1394" and "n < 64"
  shows "bit (fwGuid (getHardwareInfo env name)) n \<longleftrightarrow>
     bit (hw_data hw (7 - n div 8)) (n mod 8) \<or> (\<exists>j \<in> {7 - n div 8 <.. 7}. bit (hw_data hw j) 7)"
proof -
  have "fwGuid (getHardwareInfo env name) = guid_loop (map (hw_data hw) [0..<8]) 0"
    using assms(1-3) by (simp add: getHardwareInfo_def ARPHRD_ETHER_def ARPHRD_IEEE1394_def Let_def
        hardwareInfo_ctor_def del: upt_rec_numeral)
  moreover have "7 - n div 8 < 8" by simp
  ultimately show ?thesis
    using bit_guid_loop [of n "map (hw_data hw) [0..<8]"] assms(4)
    by (auto simp: less_Suc_eq_le simp del: upt_rec_numeral)
qed

theorem firewire_guid_bits_witness:
  "\<not> bit (hw_data \<lparr>hw_family = ARPHRD_IEEE1394, hw_data = (\<lambda>j. if j = 7 then 0x80 else 0)\<rparr> 0) 7 \<and>
   bit (fwGuid (getHardwareInfo (eth_env\<lparr>env_ioctl := (\<lambda>_. (0,
     \<lparr>hw_family = ARPHRD_IEEE1394, hw_data = (\<lambda>j. if j = 7 then 0x80 else 0)\<rparr>))\<rparr>) ''fw0'')) 63"
proof -
  have "bit (0x80 :: 8 word) 7" by code_simp
  then show ?thesis
    by (subst firewire_guid_bits [of _ _ "\<lparr>hw_family = ARPHRD_IEEE1394, hw_data = (\<lambda>j. if j = 7 then 0x80 else 0)\<rparr>"])
      (auto simp: eth_env_def)
qed

text \<open>
  Claim C25: when no address makes \<open>getSubnet\<close> throw, \<open>checkSubnet\<close> returns the name of the first
  adapter, in the order of the interface indexes, that is not excluded and has an address in the
  requested subnet, and the empty text when there is none.
\<close>

theorem checkSubnet_correct:
  assumes "getSubnet requested = Inr s"
    and "\<forall>(k, ad) \<in> set (m_adapters self). \<forall>a \<in> set (m_ipv4Addresses ad). \<not> isl (getSubnet a)"
  shows "checkSubnet self excl requested =
     Inr (case List.find (\<lambda>(k, ad). m_name ad \<noteq> excl \<and>
                 (\<exists>a \<in> set (m_ipv4Addresses ad). getSubnet a = getSubnet requested)) (m_adapters self)
          of None \<Rightarrow> [] | Some (k, ad) \<Rightarrow> m_name ad)"
proof -
  have "\<forall>(k, ad) \<in> set (m_adapters self). \<forall>a \<in> set (m_ipv4Addresses ad). \<exists>t. getSubnet a = Inr t"
    using assms(2) unfolding not_isl_iff .
  then show ?thesis
    using checkSubnet_loop_find [of "m_adapters self" excl s] assms(1) by (simp add: checkSubnet_def)
qed

theorem checkSubnet_correct_witness:
  "checkSubnet \<lparr>m_adapters = [(2, Netadapter_ctor\<lparr>m_name := ''eth0'', m_ipv4Addresses :=
       [\<lparr>address = dotted 0xC0A80001, netmask = dotted 0xFFFFFF00\<rparr>]\<rparr>)]\<rparr> ''eth1''
     \<lparr>address = dotted 0xC0A80063, netmask = dotted 0xFFFFFF00\<rparr> = Inr ''eth0''"
  by (subst checkSubnet_correct [OF getSubnet_dotted])
    (simp_all add: getSubnet_dotted Netadapter_ctor_def)

end
