(* ===== verification/SocketNonblocking.thy ===== *)
theory SocketNonblocking
  imports LoopClient SocketIO NetadapterList
begin

text \<open>
  \<open>lib/communication/linux/socketnonblocking.cpp\<close>: the life of a connection. The object holds the
  descriptor, the buffered reader and the two callbacks; it lives in the world of the event loop. The system calls are
  the record \<open>socket_os\<close>. \<open>bind\<close> makes the handler \<open>std::bind(dataCb, std::ref(*this))\<close>, \<open>None\<close> is an empty
  \<open>std::function\<close>.
\<close>

section \<open>The data\<close>

record sock_addr =
  addr_family :: nat
  addr_data :: bytes

datatype sockopt =
    TCP_NODELAY | TCP_KEEPIDLE | TCP_KEEPINTVL | TCP_KEEPCNT | SO_KEEPALIVE | SO_REUSEADDR

text \<open>
  \<open>so_getaddrinfo\<close> returns the first entry of the result, \<open>so_error\<close> the value \<open>getsockopt(SO_ERROR)\<close> stores,
  \<open>so_hwaddr\<close> the hardware type that \<open>ioctl(SIOCGIFHWADDR)\<close> stores, \<open>so_getnameinfo\<close> numeric host and service.
\<close>

record 'w socket_os =
  so_socket :: "nat \<Rightarrow> 'w \<Rightarrow> int \<times> 'w"
  so_fcntl_nonblock :: "int \<Rightarrow> 'w \<Rightarrow> int \<times> 'w"
  so_getsockname :: "int \<Rightarrow> 'w \<Rightarrow> nat option \<times> 'w"
  so_setsockopt :: "int \<Rightarrow> sockopt \<Rightarrow> int \<Rightarrow> 'w \<Rightarrow> int \<times> 'w"
  so_getaddrinfo :: "string \<Rightarrow> string \<Rightarrow> 'w \<Rightarrow> (nat \<times> sock_addr) option \<times> 'w"
  so_connect :: "int \<Rightarrow> sock_addr \<Rightarrow> 'w \<Rightarrow> (errno + unit) \<times> 'w"
  so_error :: "int \<Rightarrow> 'w \<Rightarrow> int \<times> 'w"
  so_close :: "int \<Rightarrow> 'w \<Rightarrow> int \<times> 'w"
  so_getpeername :: "int \<Rightarrow> 'w \<Rightarrow> sock_addr option \<times> 'w"
  so_getnameinfo :: "sock_addr \<Rightarrow> 'w \<Rightarrow> (string \<times> string) option \<times> 'w"
  so_hwaddr :: "int \<Rightarrow> 'w \<Rightarrow> 16 word option \<times> 'w"
  so_io :: "'w sock_io"

record 'd SocketNonblocking =
  m_event :: int
  m_bufferedReader :: BufferedReader
  m_inDataHandler :: "'d option"
  m_outDataHandler :: "'d option"

definition AF_UNIX :: nat where "AF_UNIX = 1"

definition TIMEOUT_CONNECT_S :: int where "TIMEOUT_CONNECT_S = 5"

section \<open>Construction and callbacks\<close>

definition SocketNonblocking_ctor :: "bytes \<Rightarrow> 'd SocketNonblocking" where
  "SocketNonblocking_ctor uninit =
     \<lparr>m_event = - 1, m_bufferedReader = BufferedReader_ctor uninit, m_inDataHandler = None, m_outDataHandler = None\<rparr>"

text \<open>Options are set in order until one fails.\<close>

fun set_options :: "'w socket_os \<Rightarrow> int \<Rightarrow> (sockopt \<times> int) list \<Rightarrow> 'w \<Rightarrow> int \<times> 'w" where
  "set_options so fd [] w = (0, w)"
| "set_options so fd ((name, opt) # rest) w =
     (case so_setsockopt so fd name opt w of
        (r, w) \<Rightarrow> if r = - 1 then (- 1, w) else set_options so fd rest w)"

definition setSocketOptions :: "'w socket_os \<Rightarrow> int \<Rightarrow> 'w \<Rightarrow> int \<times> 'w" where
  "setSocketOptions so fd w =
     (case so_getsockname so fd w of
        (None, w) \<Rightarrow> (- 1, w)
      | (Some family, w) \<Rightarrow>
          (let (r, w) = (if family = AF_INET \<or> family = AF_INET6
             then set_options so fd [(TCP_NODELAY, 1), (TCP_KEEPIDLE, 12), (TCP_KEEPINTVL, 3), (TCP_KEEPCNT, 2)] w
             else (0, w)) in
           if r = - 1 then (- 1, w) else set_options so fd [(SO_KEEPALIVE, 1)] w))"

text \<open>The constructor for an accepted connection.\<close>

definition SocketNonblocking_ctor_fd :: "'w socket_os \<Rightarrow> bytes \<Rightarrow> int \<Rightarrow> ('w, 'd SocketNonblocking) ref \<Rightarrow>
    ('h, 'w) EventLoop \<Rightarrow> outcome \<times> ('h, 'w) EventLoop" where
  "SocketNonblocking_ctor_fd so uninit fd this s =
     (let s = set_obj this ((SocketNonblocking_ctor uninit)\<lparr>m_event := fd\<rparr>) s in
      if fd = - 1 then (Throw (RuntimeError ''not a valid socket''), s)
      else case sys (so_fcntl_nonblock so fd) s of
        (r, s) \<Rightarrow>
          if r = - 1 then (Throw (RuntimeError ''error setting socket to non-blocking''), s)
          else (case sys (setSocketOptions so fd) s of
            (r, s) \<Rightarrow> if r < 0 then (Throw (RuntimeError ''error setting socket options''), s) else (Ret 0, s)))"

definition setDataCb :: "'w epoll_os \<Rightarrow> ('h, ('h, 'w) EventLoop) runner \<Rightarrow> ('d option \<Rightarrow> 'h) \<Rightarrow> 'd option \<Rightarrow>
    ('w, 'd SocketNonblocking) ref \<Rightarrow> ('h, 'w) EventLoop \<Rightarrow> (outcome \<times> ('h, 'w) EventLoop) option" where
  "setDataCb os run bind dataCb this s =
     (let s = set_obj this ((obj this s)\<lparr>m_inDataHandler := dataCb\<rparr>) s in
      andThen (addEvent os run (m_event (obj this s)) (Some (bind dataCb)) s) (\<lambda>_ s. Some (Ret 0, s)))"

definition clearDataCb :: "'w epoll_os \<Rightarrow> ('w, 'd SocketNonblocking) ref \<Rightarrow> ('h, 'w) EventLoop \<Rightarrow>
    ('h, 'w) EventLoop" where
  "clearDataCb os this s =
     (let s = set_obj this ((obj this s)\<lparr>m_inDataHandler := None\<rparr>) s in
      snd (eraseEvent os (m_event (obj this s)) s))"

definition setOutDataCb :: "'w epoll_os \<Rightarrow> ('h, ('h, 'w) EventLoop) runner \<Rightarrow> ('d option \<Rightarrow> 'h) \<Rightarrow> 'd option \<Rightarrow>
    ('w, 'd SocketNonblocking) ref \<Rightarrow> ('h, 'w) EventLoop \<Rightarrow> (outcome \<times> ('h, 'w) EventLoop) option" where
  "setOutDataCb os run bind dataCb this s =
     (let s = set_obj this ((obj this s)\<lparr>m_outDataHandler := dataCb\<rparr>) s in
      andThen (addOutEvent os run (m_event (obj this s)) (Some (bind dataCb)) s) (\<lambda>_ s. Some (Ret 0, s)))"

text \<open>The code clears the input callback here.\<close>

definition clearOutDataCb :: "'w epoll_os \<Rightarrow> ('w, 'd SocketNonblocking) ref \<Rightarrow> ('h, 'w) EventLoop \<Rightarrow>
    ('h, 'w) EventLoop" where
  "clearOutDataCb os this s =
     (let s = set_obj this ((obj this s)\<lparr>m_inDataHandler := None\<rparr>) s in
      snd (eraseOutEvent os (m_event (obj this s)) s))"

section \<open>Connecting and disconnecting\<close>

definition finish_connect :: "'w socket_os \<Rightarrow> ('w, 'd SocketNonblocking) ref \<Rightarrow> sock_addr \<Rightarrow>
    ('h, 'w) EventLoop \<Rightarrow> (outcome \<times> ('h, 'w) EventLoop) option" where
  "finish_connect so this addr s =
     (case sys (so_connect so (m_event (obj this s)) addr) s of
        (Inr _, s) \<Rightarrow> Some (Ret 0, s)
      | (Inl errno, s) \<Rightarrow>
          if errno \<noteq> EINPROGRESS then Some (Ret (- 1), s)
          else (case waitForWritable (so_io so) (m_event (obj this s)) (TIMEOUT_CONNECT_S * 1000) (world s) of
              None \<Rightarrow> None
            | Some (err, w) \<Rightarrow>
                (let s = s\<lparr>world := w\<rparr> in
                 if err \<noteq> 1 then Some (Ret (- 1), s)
                 else case sys (so_error so (m_event (obj this s))) s of
                   (val, s) \<Rightarrow> if val \<noteq> 0 then Some (Ret (- 1), s) else Some (Ret 0, s))))"

definition connect_sockaddr :: "'w socket_os \<Rightarrow> 'w epoll_os \<Rightarrow> ('h, ('h, 'w) EventLoop) runner \<Rightarrow>
    ('d option \<Rightarrow> 'h) \<Rightarrow> ('w, 'd SocketNonblocking) ref \<Rightarrow> nat \<Rightarrow> sock_addr \<Rightarrow> ('h, 'w) EventLoop \<Rightarrow>
    (outcome \<times> ('h, 'w) EventLoop) option" where
  "connect_sockaddr so os run bind this domain pSockAddr s =
     (case sys (so_socket so domain) s of
        (fd, s) \<Rightarrow>
          (let s = set_obj this ((obj this s)\<lparr>m_event := fd\<rparr>) s in
           if m_event (obj this s) = - 1 then Some (Ret (- 1), s)
           else andThen (if m_inDataHandler (obj this s) \<noteq> None
               then addEvent os run (m_event (obj this s)) (Some (bind (m_inDataHandler (obj this s)))) s
               else Some (Ret 0, s)) (\<lambda>_ s.
             andThen (if m_outDataHandler (obj this s) \<noteq> None
               then addOutEvent os run (m_event (obj this s)) (Some (bind (m_outDataHandler (obj this s)))) s
               else Some (Ret 0, s)) (\<lambda>_ s.
             case sys (setSocketOptions so (m_event (obj this s))) s of
               (r, s) \<Rightarrow> if r < 0 then Some (Ret (- 1), s) else finish_connect so this pSockAddr s))))"

definition connect_host :: "'w socket_os \<Rightarrow> 'w epoll_os \<Rightarrow> ('h, ('h, 'w) EventLoop) runner \<Rightarrow>
    ('d option \<Rightarrow> 'h) \<Rightarrow> ('w, 'd SocketNonblocking) ref \<Rightarrow> string \<Rightarrow> string \<Rightarrow> ('h, 'w) EventLoop \<Rightarrow>
    (outcome \<times> ('h, 'w) EventLoop) option" where
  "connect_host so os run bind this addr port s =
     (case sys (so_getaddrinfo so addr port) s of
        (None, s) \<Rightarrow> Some (Ret (- 1), s)
      | (Some (ai_family, ai_addr), s) \<Rightarrow> connect_sockaddr so os run bind this ai_family ai_addr s)"

text \<open>\<open>strncpy\<close> from \<open>c_str()\<close> into a field of zero bytes of length \<open>n + 1\<close>.\<close>

definition copy_path :: "nat \<Rightarrow> string \<Rightarrow> bytes" where
  "copy_path n path =
     (let t = take n (takeWhile (\<lambda>c. c \<noteq> 0) (map of_char path)) in t @ replicate (n + 1 - length t) 0)"

definition sockaddr_un :: "string \<Rightarrow> sock_addr" where
  "sockaddr_un path = \<lparr>addr_family = AF_UNIX, addr_data = copy_path 107 path\<rparr>"

definition connect_path :: "'w socket_os \<Rightarrow> 'w epoll_os \<Rightarrow> ('h, ('h, 'w) EventLoop) runner \<Rightarrow>
    ('d option \<Rightarrow> 'h) \<Rightarrow> ('w, 'd SocketNonblocking) ref \<Rightarrow> string \<Rightarrow> ('h, 'w) EventLoop \<Rightarrow>
    (outcome \<times> ('h, 'w) EventLoop) option" where
  "connect_path so os run bind this path s =
     connect_sockaddr so os run bind this AF_UNIX (sockaddr_un path) s"

definition disconnect :: "'w socket_os \<Rightarrow> 'w epoll_os \<Rightarrow> ('w, 'd SocketNonblocking) ref \<Rightarrow>
    ('h, 'w) EventLoop \<Rightarrow> ('h, 'w) EventLoop" where
  "disconnect so os this s =
     (let s = (if m_event (obj this s) \<noteq> - 1 then
            (let (_, s) = sys (so_close so (m_event (obj this s))) s;
                 (_, s) = eraseEvent os (m_event (obj this s)) s;
                 (_, s) = eraseOutEvent os (m_event (obj this s)) s in s)
          else s)
      in set_obj this ((obj this s)\<lparr>m_event := - 1\<rparr>) s)"

definition SocketNonblocking_dtor :: "'w socket_os \<Rightarrow> 'w epoll_os \<Rightarrow> ('w, 'd SocketNonblocking) ref \<Rightarrow>
    ('h, 'w) EventLoop \<Rightarrow> ('h, 'w) EventLoop" where
  "SocketNonblocking_dtor so os this s = disconnect so os this s"

section \<open>Using the connection\<close>

definition SocketNonblocking_receive :: "'w socket_os \<Rightarrow> nat \<Rightarrow> ('w, 'd SocketNonblocking) ref \<Rightarrow>
    ('h, 'w) EventLoop \<Rightarrow> (errno + bytes) \<times> ('h, 'w) EventLoop" where
  "SocketNonblocking_receive so n this s =
     (case receive (so_io so) (m_event (obj this s)) n (m_bufferedReader (obj this s), world s) of
        (res, reader, w) \<Rightarrow> (res, set_obj this ((obj this s)\<lparr>m_bufferedReader := reader\<rparr>) (s\<lparr>world := w\<rparr>)))"

text \<open>
  \<open>getpeername\<close> stores at most the 16 bytes of \<open>struct sockaddr\<close>, but reports the full length of the
  address, and \<open>getnameinfo\<close> then reads as many bytes.
\<close>

definition addr_len :: "sock_addr \<Rightarrow> nat" where
  "addr_len addr = 2 + length (addr_data addr)"

definition checkSockAddr :: "'w socket_os \<Rightarrow> int \<Rightarrow> sock_addr \<Rightarrow> 'w \<Rightarrow> (cxx_exception + bool) \<times> 'w" where
  "checkSockAddr so fd pCheckSockAddr w =
     (case so_getnameinfo so pCheckSockAddr w of
        (None, w) \<Rightarrow> (Inr False, w)
      | (Some (checkHost, checkService), w) \<Rightarrow>
          (case so_getpeername so fd w of
             (None, w) \<Rightarrow> (Inr False, w)
           | (Some peer, w) \<Rightarrow>
               if 16 < addr_len peer then (Inl UndefinedBehaviour, w)
               else (case so_getnameinfo so peer w of
                  (None, w) \<Rightarrow> (Inr False, w)
                | (Some (host, service), w) \<Rightarrow> (Inr (host = checkHost \<and> service = checkService), w))))"

definition isFirewire :: "'w socket_os \<Rightarrow> int \<Rightarrow> 'w \<Rightarrow> bool \<times> 'w" where
  "isFirewire so fd w =
     (case so_hwaddr so fd w of
        (None, w) \<Rightarrow> (False, w)
      | (Some family, w) \<Rightarrow> (family = ARPHRD_IEEE1394, w))"

section \<open>Facts\<close>

text \<open>System calls leave the object alone.\<close>

definition socket_keeps :: "'w socket_os \<Rightarrow> ('w, 'o) ref \<Rightarrow> bool" where
  "socket_keeps so this \<longleftrightarrow> ref_laws this \<and>
     (\<forall>domain. keeps this (so_socket so domain)) \<and>
     (\<forall>fd. keeps this (so_fcntl_nonblock so fd)) \<and>
     (\<forall>fd. keeps this (so_getsockname so fd)) \<and>
     (\<forall>fd name opt. keeps this (so_setsockopt so fd name opt)) \<and>
     (\<forall>fd addr. keeps this (so_connect so fd addr)) \<and>
     (\<forall>fd. keeps this (so_error so fd)) \<and>
     (\<forall>fd. keeps this (so_close so fd)) \<and>
     (\<forall>fd t. keeps this (io_poll_out (so_io so) fd t))"

lemma socket_keepsD:
  assumes "socket_keeps so this"
  shows "ref_laws this" "keeps this (so_socket so domain)" "keeps this (so_fcntl_nonblock so fd)"
    "keeps this (so_getsockname so fd)" "keeps this (so_setsockopt so fd name opt)"
    "keeps this (so_connect so fd addr)" "keeps this (so_error so fd)" "keeps this (so_close so fd)"
    "keeps this (io_poll_out (so_io so) fd t)"
  using assms by (simp_all add: socket_keeps_def)

lemmas socket_frame = socket_keepsD(2-) [THEN deref_keeps]

lemma set_options_keeps: "socket_keeps so this \<Longrightarrow> deref this (snd (set_options so fd opts w)) = deref this w"
proof (induction opts arbitrary: w)
  case (Cons opt opts)
  then show ?case by (cases opt) (simp add: split_beta socket_frame)
qed simp

lemma setSocketOptions_keeps:
  assumes "socket_keeps so this"
  shows "keeps this (setSocketOptions so fd)"
  by (auto simp: keeps_def setSocketOptions_def split_beta set_options_keeps [OF assms] socket_frame [OF assms]
      simp del: set_options.simps split: option.split)

lemma wait_keeps:
  assumes "socket_keeps so this" and "waitForWritable (so_io so) fd t w = Some (x, w')"
  shows "deref this w' = deref this w"
  using assms(2) poll_loop_keeps [of "io_poll_out (so_io so) fd t" w x w' "deref this"] socket_frame [OF assms(1)]
  by (simp add: waitForWritable_def)

lemma finish_connect_keeps:
  assumes "socket_keeps so this" and "finish_connect so this addr s = Some (r, s')"
  shows "obj this s' = obj this s \<and> in_handler s' = in_handler s"
proof -
  note frame = obj_sys socket_keepsD [OF assms(1)]
  have set_world: "obj this (t\<lparr>world := w\<rparr>) = obj this t" if "deref this w = deref this (world t)" for t w
    using that by (simp add: obj_def)
  show ?thesis
    using assms(2) wait_keeps [OF assms(1)]
    by (auto simp: finish_connect_def Let_def split_beta frame set_world split: sum.splits if_splits option.splits)
qed

lemma disconnect_obj:
  assumes "socket_keeps so this" and "epoll_keeps os this"
  shows "obj this (disconnect so os this s) = (obj this s)\<lparr>m_event := - 1\<rparr>"
  by (simp add: disconnect_def Let_def split_beta obj_set_obj obj_sys socket_keepsD [OF assms(1)]
      obj_loop_ops [OF assms(2)])

lemma recv_ahead:
  assumes "reader_ok r" and "ahead r \<noteq> []"
  shows "\<exists>r'. recv readv fd n (r, w) = (Inr (take n (ahead r)), r', w)"
proof -
  note len = bytesLeft_ahead [OF assms(1)]
  have "take k (drop (m_alreadyRead r) (m_buffer r)) = take k (ahead r)" if "k \<le> length (ahead r)" for k
    using that by (auto simp: ahead_def)
  then show ?thesis using assms(2) by (cases "n \<le> length (ahead r)") (simp_all add: recv_def len)
qed

lemma connect_obj:
  assumes "socket_keeps so this"
    and "m_inDataHandler (obj this s) = None" and "m_outDataHandler (obj this s) = None"
    and "connect_sockaddr so os run bind this domain addr s = Some (r, s')"
  shows "m_bufferedReader (obj this s') = m_bufferedReader (obj this s)"
proof -
  note frame = obj_sys socket_keepsD [OF assms(1)] obj_set_obj setSocketOptions_keeps [OF assms(1)]
  have fc: "m_bufferedReader (obj this t') = m_bufferedReader (obj this t)"
    if "finish_connect so this addr t = Some (x, t')" for x t t'
    using finish_connect_keeps [OF assms(1) that] by simp
  show ?thesis
    using assms(2-4) by (auto simp: connect_sockaddr_def Let_def split_beta frame andThen_def split: if_splits dest!: fc)
qed

section \<open>A concrete connection\<close>

text \<open>The object and the list of closed descriptors.\<close>

type_synonym socket_world = "unit SocketNonblocking \<times> int list"

definition demo_socket_os :: "socket_world socket_os" where
  "demo_socket_os = \<lparr>so_socket = (\<lambda>domain w. (7, w)), so_fcntl_nonblock = (\<lambda>fd w. (0, w)),
     so_getsockname = (\<lambda>fd w. (Some AF_INET, w)), so_setsockopt = (\<lambda>fd name opt w. (0, w)),
     so_getaddrinfo = (\<lambda>host port w. (Some (AF_INET, \<lparr>addr_family = AF_INET, addr_data = []\<rparr>), w)),
     so_connect = (\<lambda>fd addr w. (Inr (), w)), so_error = (\<lambda>fd w. (0, w)),
     so_close = (\<lambda>fd w. (0, fst w, fd # snd w)),
     so_getpeername = (\<lambda>fd w. (Some \<lparr>addr_family = AF_INET6, addr_data = replicate 26 0\<rparr>, w)),
     so_getnameinfo = (\<lambda>addr w. (Some (''::1'', ''80''), w)), so_hwaddr = (\<lambda>fd w. (None, w)),
     so_io = \<lparr>io_poll_out = (\<lambda>fd t w. (Inr 1, w)), io_poll_in = (\<lambda>fd t w. (Inr 1, w)),
       io_send = (\<lambda>fd b m w. (Inr (length b), w)), io_sendmsg = (\<lambda>fd bs m w. (Inr (length (concat bs)), w)),
       io_readv = (\<lambda>fd n m w. (Inr [], w))\<rparr>\<rparr>"

definition demo_this :: "('o \<times> 'x, 'o) ref" where
  "demo_this = \<lparr>deref = fst, assign = (\<lambda>ob w. (ob, snd w))\<rparr>"

definition plain_epoll :: "'w epoll_os" where
  "plain_epoll = \<lparr>os_alloc = (\<lambda>as. Suc (sum_list as)), os_epoll_create = (\<lambda>w. (Inr 3, w)),
     os_eventfd = (\<lambda>w. (4, w)), os_epoll_ctl = (\<lambda>op fd ev w. (0, w)), os_epoll_wait = (\<lambda>w. (Inr [], w)),
     os_write8 = (\<lambda>fd v w. (8, w)), os_close = (\<lambda>fd w. (0, w)), os_strerror = (\<lambda>w. [])\<rparr>"

definition empty_loop :: "'w \<Rightarrow> ('h, 'w) EventLoop" where
  "empty_loop w = \<lparr>m_events = replicate MAXEVENTS \<lparr>ev_events = 0, ev_ptr = None\<rparr>, m_eventCount = 0,
     m_eventInfos = [], m_epollfd = 3, m_stopFd = 4, world = w\<rparr>"

definition demo_connection :: "unit option \<Rightarrow> socket_world" where
  "demo_connection cb = (\<lparr>m_event = 6,
     m_bufferedReader = \<lparr>m_buffer = replicate BUFFER_SIZE 65, m_fillLevel = 2, m_alreadyRead = 0\<rparr>,
     m_inDataHandler = cb, m_outDataHandler = None\<rparr>, [])"

lemma demo_this_laws: "ref_laws demo_this"
  by (simp add: ref_laws_def demo_this_def)

lemma demo_socket_keeps: "socket_keeps demo_socket_os demo_this"
  by (simp add: socket_keeps_def demo_this_laws keeps_def demo_socket_os_def) (simp add: demo_this_def)

lemma plain_epoll_keeps: "epoll_keeps plain_epoll this"
  by (simp add: epoll_keeps_def keeps_def plain_epoll_def)

section \<open>Properties\<close>

text \<open>
  Claim C24: \<open>disconnect\<close> leaves no handler of the descriptor in the event loop, keeps those of other descriptors, and
  resets the descriptor of the object; everything else in the object stays.
\<close>

theorem disconnect_unregisters:
  assumes "socket_keeps so this" and "epoll_keeps os this" and "m_event (obj this s) = fd" and "fd \<noteq> - 1"
  shows "in_handler (disconnect so os this s) = (in_handler s)(fd := None) \<and>
     out_handler (disconnect so os this s) = (out_handler s)(fd := None) \<and>
     obj this (disconnect so os this s) = (obj this s)\<lparr>m_event := - 1\<rparr>"
proof -
  note frame = obj_sys socket_keepsD [OF assms(1)] obj_loop_ops [OF assms(2)]
  show ?thesis
    using disconnect_obj [OF assms(1,2), of s] assms(3,4)
    by (simp add: disconnect_def Let_def split_beta frame in_handler_ops out_handler_ops other_side_ops)
qed

theorem disconnect_unregisters_witness:
  "in_handler (disconnect demo_socket_os plain_epoll demo_this
     (snd (addEvent_locked plain_epoll 6 () (empty_loop (demo_connection None))))) 6 = None"
proof -
  let ?s = "snd (addEvent_locked plain_epoll 6 () (empty_loop (demo_connection None)))"
  have "m_event (obj demo_this ?s) = 6"
    by (simp add: obj_loop_ops(3) [OF plain_epoll_keeps]) (simp add: obj_def empty_loop_def demo_this_def demo_connection_def)
  from disconnect_unregisters [OF demo_socket_keeps plain_epoll_keeps this] show ?thesis by simp
qed

text \<open>
  Claim C30: \<open>disconnect\<close> and \<open>connect\<close> keep what the old connection left in the reader: after them the first \<open>receive\<close>
  returns bytes of the old connection without reading from the new one.
\<close>

theorem reconnect_delivers_stale_data:
  assumes "socket_keeps so this" and "epoll_keeps os this"
    and "m_inDataHandler (obj this s) = None" and "m_outDataHandler (obj this s) = None"
    and "reader_ok (m_bufferedReader (obj this s))" and "ahead (m_bufferedReader (obj this s)) \<noteq> []"
    and "connect_sockaddr so os run bind this domain addr (disconnect so os this s) = Some (Ret r, s')"
  shows "\<exists>reader. SocketNonblocking_receive so n this s' =
     (Inr (take n (ahead (m_bufferedReader (obj this s)))), set_obj this ((obj this s')\<lparr>m_bufferedReader := reader\<rparr>) s')"
proof -
  have "m_bufferedReader (obj this s') = m_bufferedReader (obj this s)"
    using connect_obj [OF assms(1) _ _ assms(7)] assms(3,4) by (simp add: disconnect_obj [OF assms(1,2)])
  then obtain r' where "recv (io_readv (so_io so)) (m_event (obj this s')) n (m_bufferedReader (obj this s'), world s') =
      (Inr (take n (ahead (m_bufferedReader (obj this s)))), r', world s')"
    using recv_ahead [OF assms(5,6)] by metis
  then show ?thesis by (auto simp: SocketNonblocking_receive_def receive_def)
qed

theorem reconnect_delivers_stale_data_witness:
  "\<exists>s' :: (unit, socket_world) EventLoop. fst (SocketNonblocking_receive demo_socket_os 2 demo_this s') = Inr [65, 65] \<and>
     m_event (obj demo_this s') = 7"
proof -
  let ?s = "empty_loop (demo_connection None) :: (unit, socket_world) EventLoop"
  let ?d = "disconnect demo_socket_os plain_epoll demo_this ?s"
  let ?addr = "\<lparr>addr_family = AF_INET, addr_data = []\<rparr>"
  let ?s' = "set_obj demo_this ((obj demo_this ?d)\<lparr>m_event := 7\<rparr>) ?d"
  have ob: "obj demo_this ?s = fst (demo_connection None)" by (simp add: obj_def empty_loop_def demo_this_def)
  have con: "connect_sockaddr demo_socket_os plain_epoll (\<lambda>h s. (Ret 0, s)) (\<lambda>_. ()) demo_this AF_INET ?addr ?d = Some (Ret 0, ?s')"
    by (simp add: connect_sockaddr_def andThen_def sys_def demo_socket_os_def setSocketOptions_def finish_connect_def
        obj_def set_obj_def demo_this_def disconnect_def empty_loop_def demo_connection_def eraseEvent_def
        eraseOutEvent_def Let_def)
  have ahead: "ahead (m_bufferedReader (obj demo_this ?s)) = [65, 65]"
    unfolding ob by (simp add: demo_connection_def ahead_def BUFFER_SIZE_def numeral_2_eq_2)
  have "\<exists>reader. SocketNonblocking_receive demo_socket_os 2 demo_this ?s' =
      (Inr (take 2 (ahead (m_bufferedReader (obj demo_this ?s)))),
       set_obj demo_this ((obj demo_this ?s')\<lparr>m_bufferedReader := reader\<rparr>) ?s')"
    by (rule reconnect_delivers_stale_data [OF demo_socket_keeps plain_epoll_keeps _ _ _ _ con])
      (simp_all add: ahead, (simp only: ob, simp add: demo_connection_def reader_ok_def BUFFER_SIZE_def)+)
  then have "fst (SocketNonblocking_receive demo_socket_os 2 demo_this ?s') = Inr [65, 65]" using ahead by auto
  moreover have "m_event (obj demo_this ?s') = 7" by (simp add: obj_set_obj demo_this_laws)
  ultimately show ?thesis by blast
qed

text \<open>
  Setting an empty callback does not take the event out of the loop, as the header documents: a handler that
  calls the empty function is registered, and calling it right away makes \<open>setDataCb\<close> throw.
\<close>

theorem setDataCb_empty_throws:
  assumes "ref_laws this" and "epoll_keeps os this" and "m_event (obj this s) = fd" and "fd \<noteq> - 1"
    and "\<forall>op ev w. fst (os_epoll_ctl os op fd ev w) = 0" and "\<forall>t. run (bind None) t = (Throw BadFunctionCall, t)"
  shows "\<exists>s'. setDataCb os run bind None this s = Some (Throw BadFunctionCall, s') \<and>
     in_handler s' fd = Some (bind None)"
proof -
  let ?s = "set_obj this ((obj this s)\<lparr>m_inDataHandler := None\<rparr>) s"
  obtain rc s' where s': "addEvent_locked os fd (bind None) ?s = (rc, s')" by fastforce
  then have "rc = 0" using assms(5)
    by (auto simp: addEvent_locked_def Let_def split_beta split: option.splits if_splits)
  moreover have "drain run (bind None) s' = Some (Throw BadFunctionCall, s')"
    by (subst drain.simps) (simp add: assms(6))
  moreover have "in_handler s' fd = Some (bind None)"
    using in_handler_ops(1) [of os fd "bind None" ?s] s' by simp
  ultimately show ?thesis
    using s' assms(3,4) by (simp add: setDataCb_def Let_def obj_set_obj [OF assms(1)] addEvent_def andThen_def)
qed

theorem setDataCb_empty_throws_witness:
  "\<exists>s'. setDataCb plain_epoll (\<lambda>h s. (Throw BadFunctionCall, s)) id None demo_this (empty_loop (demo_connection None)) =
     Some (Throw BadFunctionCall, s') \<and> in_handler s' 6 = Some None"
  using setDataCb_empty_throws [OF demo_this_laws plain_epoll_keeps, of "empty_loop (demo_connection None)" 6
      "\<lambda>h s. (Throw BadFunctionCall, s)" id]
  by (simp add: plain_epoll_def obj_def empty_loop_def demo_this_def demo_connection_def)

text \<open>
  A data callback set before the connection exists is registered by \<open>connect\<close> for the new descriptor.
\<close>

theorem connect_registers_callback:
  assumes "socket_keeps so this" and "epoll_keeps os this"
    and "m_inDataHandler (obj this s) = Some c" and "m_outDataHandler (obj this s) = None"
    and "\<forall>t. run (bind (Some c)) t = (Ret 0, t)"
    and "connect_sockaddr so os run bind this domain addr s = Some (Ret 0, s')" and "n_fd = m_event (obj this s')"
  shows "n_fd \<noteq> - 1 \<and> in_handler s' n_fd = Some (bind (Some c))"
proof -
  note frame = obj_sys socket_keepsD [OF assms(1)] obj_set_obj obj_loop_ops(3) [OF assms(2)]
    setSocketOptions_keeps [OF assms(1)]
  let ?fd = "fst (sys (so_socket so domain) s)" and ?s1 = "snd (sys (so_socket so domain) s)"
  let ?s2 = "set_obj this ((obj this ?s1)\<lparr>m_event := ?fd\<rparr>) ?s1"
  let ?s3 = "snd (addEvent_locked os ?fd (bind (Some c)) ?s2)"
  have fd: "?fd \<noteq> - 1" using assms(6) by (auto simp: connect_sockaddr_def Let_def split_beta frame)
  have "drain run (bind (Some c)) t = Some (Ret 0, t)" for t by (subst drain.simps) (simp add: assms(5))
  then have add: "\<exists>r. addEvent os run ?fd (Some (bind (Some c))) ?s2 = Some (Ret r, ?s3)"
    using fd by (auto simp: addEvent_def split: prod.split)
  then have "finish_connect so this addr (snd (sys (setSocketOptions so ?fd) ?s3)) = Some (Ret 0, s')"
    using assms(3,4,6) fd
    by (auto simp: connect_sockaddr_def Let_def split_beta frame andThen_def split: if_splits)
  from finish_connect_keeps [OF assms(1) this] show ?thesis
    using assms(7) fd by (simp add: frame in_handler_ops(1))
qed

theorem connect_registers_callback_witness:
  "in_handler (snd (the (connect_sockaddr demo_socket_os plain_epoll (\<lambda>h s. (Ret 0, s)) id demo_this AF_INET
     \<lparr>addr_family = AF_INET, addr_data = []\<rparr> (empty_loop (demo_connection (Some ())))))) 7 = Some (Some ())"
proof -
  let ?s = "empty_loop (demo_connection (Some ()))"
  let ?c = "connect_sockaddr demo_socket_os plain_epoll (\<lambda>h s. (Ret 0, s)) id demo_this AF_INET
     \<lparr>addr_family = AF_INET, addr_data = []\<rparr> ?s"
  have "\<exists>s'. ?c = Some (Ret 0, s') \<and> m_event (obj demo_this s') = 7"
    by (simp add: connect_sockaddr_def andThen_def sys_def demo_socket_os_def setSocketOptions_def finish_connect_def
        obj_def set_obj_def demo_this_def empty_loop_def demo_connection_def addEvent_def addEvent_locked_def
        plain_epoll_def drain.simps Let_def)
  then obtain s' where s': "?c = Some (Ret 0, s')" "m_event (obj demo_this s') = 7" by blast
  have "m_inDataHandler (obj demo_this ?s) = Some ()" "m_outDataHandler (obj demo_this ?s) = None"
    by (simp_all add: obj_def demo_this_def empty_loop_def demo_connection_def)
  from connect_registers_callback [OF demo_socket_keeps plain_epoll_keeps this _ s'(1) refl] show ?thesis
    using s' by simp
qed

text \<open>
  \<open>checkSockAddr\<close> compares numeric host and service with those of the peer, but only for a peer address of
  at most 16 bytes: for a longer one, like that of IPv6, it reads behind the object that received the address.
\<close>

theorem checkSockAddr_only_short:
  assumes "so_getnameinfo so check w = (Some c, w1)" and "so_getpeername so fd w1 = (Some peer, w2)"
    and "so_getnameinfo so peer w2 = (Some p, w3)"
  shows "fst (checkSockAddr so fd check w) = (if addr_len peer \<le> 16 then Inr (p = c) else Inl UndefinedBehaviour)"
  using assms by (auto simp: checkSockAddr_def split: prod.splits)

theorem checkSockAddr_only_short_witness:
  "fst (checkSockAddr demo_socket_os 7 \<lparr>addr_family = AF_INET6, addr_data = replicate 26 0\<rparr> w) = Inl UndefinedBehaviour"
  by (subst checkSockAddr_only_short [of _ _ w "(''::1'', ''80'')" w _
        "\<lparr>addr_family = AF_INET6, addr_data = replicate 26 0\<rparr>" w "(''::1'', ''80'')" w])
    (simp_all add: demo_socket_os_def addr_len_def)

end
