(* ===== verification/TcpServer.thy ===== *)
theory TcpServer
  imports SocketNonblocking
begin

text \<open>
  \<open>lib/communication/linux/tcpserver.cpp\<close>: listening, accepting, stopping. An accepted connection becomes a new
  \<open>SocketNonblocking\<close> object, which \<open>ts_new\<close> places in the world; the user's callback gets the pointer to it.
\<close>

section \<open>The data and operations\<close>

record ('w, 'd) tcp_os =
  ts_socket :: "nat \<Rightarrow> 'w \<Rightarrow> int \<times> 'w"
  ts_setsockopt :: "int \<Rightarrow> sockopt \<Rightarrow> int \<Rightarrow> 'w \<Rightarrow> int \<times> 'w"
  ts_bind :: "int \<Rightarrow> sock_addr \<Rightarrow> 'w \<Rightarrow> int \<times> 'w"
  ts_listen :: "int \<Rightarrow> int \<Rightarrow> 'w \<Rightarrow> int \<times> 'w"
  ts_accept :: "int \<Rightarrow> 'w \<Rightarrow> (errno + int) \<times> 'w"
  ts_close :: "int \<Rightarrow> 'w \<Rightarrow> int \<times> 'w"
  ts_unlink :: "string \<Rightarrow> 'w \<Rightarrow> int \<times> 'w"
  ts_chmod :: "string \<Rightarrow> 'w \<Rightarrow> int \<times> 'w"
  ts_new :: "'w \<Rightarrow> (('w, 'd SocketNonblocking) ref \<times> bytes) \<times> 'w"

record 'c TcpServer =
  m_listeningEvent :: int
  m_acceptCb :: "'c option"
  m_path :: string

type_synonym ('c, 'd, 'h, 'w) accept_cb =
  "'c \<Rightarrow> ('w, 'd SocketNonblocking) ref \<Rightarrow> ('h, 'w) EventLoop \<Rightarrow> outcome \<times> ('h, 'w) EventLoop"

definition TcpServer_ctor :: "'c TcpServer" where
  "TcpServer_ctor = \<lparr>m_listeningEvent = - 1, m_acceptCb = None, m_path = []\<rparr>"

text \<open>\<open>struct sockaddr_in6\<close> behind its family: port in network order, flow label, address, scope.\<close>

definition sockaddr_in6_any :: "16 word \<Rightarrow> sock_addr" where
  "sockaddr_in6_any port = \<lparr>addr_family = AF_INET6,
     addr_data = [ucast (drop_bit 8 port), ucast port] @ replicate 4 0 @ replicate 16 0 @ replicate 4 0\<rparr>"

text \<open>
  The common end of both \<open>start\<close> functions: the callback is stored and the handler registered; \<open>h\<close> is
  \<open>std::bind(&TcpServer::process, this)\<close>.
\<close>

definition start_listening :: "'w epoll_os \<Rightarrow> ('h, ('h, 'w) EventLoop) runner \<Rightarrow> 'h \<Rightarrow> 'c option \<Rightarrow>
    ('w, 'c TcpServer) ref \<Rightarrow> ('h, 'w) EventLoop \<Rightarrow> (outcome \<times> ('h, 'w) EventLoop) option" where
  "start_listening os run h acceptCb this s =
     (let s = set_obj this ((obj this s)\<lparr>m_acceptCb := acceptCb\<rparr>) s in
      andThen (addEvent os run (m_listeningEvent (obj this s)) (Some h) s) (\<lambda>_ s. Some (Ret 0, s)))"

definition TcpServer_start_port :: "('w, 'd) tcp_os \<Rightarrow> 'w epoll_os \<Rightarrow> ('h, ('h, 'w) EventLoop) runner \<Rightarrow> 'h \<Rightarrow>
    16 word \<Rightarrow> int \<Rightarrow> 'c option \<Rightarrow> ('w, 'c TcpServer) ref \<Rightarrow> ('h, 'w) EventLoop \<Rightarrow>
    (outcome \<times> ('h, 'w) EventLoop) option" where
  "TcpServer_start_port ts os run h port backlog acceptCb this s =
     (if acceptCb = None then Some (Ret (- 1), s)
      else let (fd, s) = sys (ts_socket ts AF_INET6) s;
               s = set_obj this ((obj this s)\<lparr>m_listeningEvent := fd\<rparr>) s in
        if fd = - 1 then Some (Ret (- 1), s)
        else let (r, s) = sys (ts_setsockopt ts fd SO_REUSEADDR 1) s in
          if r < 0 then Some (Ret (- 1), s)
          else let (r, s) = sys (ts_bind ts fd (sockaddr_in6_any port)) s in
            if r = - 1 then Some (Ret (- 1), s)
            else let (r, s) = sys (ts_listen ts fd backlog) s in
              if r = - 1 then Some (Ret (- 1), s) else start_listening os run h acceptCb this s)"

definition TcpServer_start_path :: "('w, 'd) tcp_os \<Rightarrow> 'w epoll_os \<Rightarrow> ('h, ('h, 'w) EventLoop) runner \<Rightarrow> 'h \<Rightarrow>
    string \<Rightarrow> int \<Rightarrow> 'c option \<Rightarrow> ('w, 'c TcpServer) ref \<Rightarrow> ('h, 'w) EventLoop \<Rightarrow>
    (outcome \<times> ('h, 'w) EventLoop) option" where
  "TcpServer_start_path ts os run h path backlog acceptCb this s =
     (let (fd, s) = sys (ts_socket ts AF_UNIX) s;
          s = set_obj this ((obj this s)\<lparr>m_listeningEvent := fd\<rparr>) s in
      if fd = - 1 then Some (Ret (- 1), s)
      else let (r, s) = sys (ts_setsockopt ts fd SO_REUSEADDR 1) s in
        if r < 0 then Some (Ret (- 1), s)
        else let (_, s) = sys (ts_unlink ts path) s;
                 (r, s) = sys (ts_bind ts fd (sockaddr_un path)) s in
          if r = - 1 then Some (Ret (- 1), s)
          else let (_, s) = sys (ts_chmod ts path) s;
                   (r, s) = sys (ts_listen ts fd backlog) s in
            if r = - 1 then Some (Ret (- 1), s)
            else start_listening os run h acceptCb this (set_obj this ((obj this s)\<lparr>m_path := path\<rparr>) s))"

definition TcpServer_stop :: "('w, 'd) tcp_os \<Rightarrow> 'w epoll_os \<Rightarrow> ('w, 'c TcpServer) ref \<Rightarrow>
    ('h, 'w) EventLoop \<Rightarrow> ('h, 'w) EventLoop" where
  "TcpServer_stop ts os this s =
     (let (_, s) = eraseEvent os (m_listeningEvent (obj this s)) s;
          (_, s) = sys (ts_close ts (m_listeningEvent (obj this s))) s;
          s = (if m_path (obj this s) \<noteq> [] then snd (sys (ts_unlink ts (m_path (obj this s))) s) else s)
      in set_obj this ((obj this s)\<lparr>m_acceptCb := None\<rparr>) s)"

definition TcpServer_dtor :: "('w, 'd) tcp_os \<Rightarrow> 'w epoll_os \<Rightarrow> ('w, 'c TcpServer) ref \<Rightarrow>
    ('h, 'w) EventLoop \<Rightarrow> ('h, 'w) EventLoop" where
  "TcpServer_dtor ts os this s = TcpServer_stop ts os this s"

text \<open>
  Accepting one client. When the callback is empty, the call throws and the temporary that owns the new
  connection is destroyed. When the constructor throws, its object has no destructor call.
\<close>

definition TcpServer_process :: "('w, 'd) tcp_os \<Rightarrow> 'w socket_os \<Rightarrow> 'w epoll_os \<Rightarrow>
    ('c, 'd, 'h, 'w) accept_cb \<Rightarrow> ('w, 'c TcpServer) ref \<Rightarrow> ('h, 'w) EventLoop \<Rightarrow> outcome \<times> ('h, 'w) EventLoop" where
  "TcpServer_process ts so os user this s =
     (case sys (ts_accept ts (m_listeningEvent (obj this s))) s of
        (Inl errno, s) \<Rightarrow> (Ret (- 1), s)
      | (Inr clientFd, s) \<Rightarrow>
          (let ((client, uninit), s) = sys (ts_new ts) s in
           case SocketNonblocking_ctor_fd so uninit clientFd client s of
             (Throw ex, s) \<Rightarrow> (Throw ex, s)
           | (Ret _, s) \<Rightarrow>
               (case m_acceptCb (obj this s) of
                  None \<Rightarrow> (Throw BadFunctionCall, SocketNonblocking_dtor so os client s)
                | Some c \<Rightarrow>
                    (case user c client s of
                       (Throw ex, s) \<Rightarrow> (Throw ex, s)
                     | (Ret _, s) \<Rightarrow> (Ret 1, s)))))"

section \<open>Accepting\<close>

text \<open>
  What the client relies on: \<open>accept\<close> takes the next connection of the kernel's queue, or it fails, for whatever reason;
  then the queue is as before or has lost a connection that was aborted. Nothing else touches the queue or the
  server, and the user's callback \<open>c\<close> records the descriptor of the client. The system calls on the new
  connection may fail, and the callback may throw.
\<close>

definition accept_env :: "('w, 'd) tcp_os \<Rightarrow> 'w socket_os \<Rightarrow> ('c, 'd, 'h, 'w) accept_cb \<Rightarrow>
    ('w, 'c TcpServer) ref \<Rightarrow> 'c \<Rightarrow> ('w \<Rightarrow> int list) \<Rightarrow> ('w \<Rightarrow> int list) \<Rightarrow> bool" where
  "accept_env ts so user this c queue log \<longleftrightarrow>
     (\<forall>fd w. case fst (ts_accept ts fd w) of
        Inl e \<Rightarrow> queue (snd (ts_accept ts fd w)) = queue w \<or> queue (snd (ts_accept ts fd w)) = tl (queue w)
      | Inr clientFd \<Rightarrow> clientFd \<noteq> - 1 \<and> queue w = clientFd # queue (snd (ts_accept ts fd w))) \<and>
     (\<forall>fd w. deref this (snd (ts_accept ts fd w)) = deref this w \<and> log (snd (ts_accept ts fd w)) = log w) \<and>
     (\<forall>w. socket_keeps so (fst (fst (ts_new ts w))) \<and> queue (snd (ts_new ts w)) = queue w \<and>
        deref this (snd (ts_new ts w)) = deref this w \<and> log (snd (ts_new ts w)) = log w) \<and>
     (\<forall>v w ob. let client = fst (fst (ts_new ts v)) in queue (assign client ob w) = queue w \<and>
        deref this (assign client ob w) = deref this w \<and> log (assign client ob w) = log w) \<and>
     (\<forall>fd w. queue (snd (so_fcntl_nonblock so fd w)) = queue w \<and>
        deref this (snd (so_fcntl_nonblock so fd w)) = deref this w \<and> log (snd (so_fcntl_nonblock so fd w)) = log w) \<and>
     (\<forall>fd w. queue (snd (setSocketOptions so fd w)) = queue w \<and>
        deref this (snd (setSocketOptions so fd w)) = deref this w \<and> log (snd (setSocketOptions so fd w)) = log w) \<and>
     (\<forall>client s. queue (world (snd (user c client s))) = queue (world s) \<and>
        obj this (snd (user c client s)) = obj this s \<and>
        log (world (snd (user c client s))) = log (world s) @ [m_event (obj client s)])"

text \<open>No call fails while there is a connection to accept, and the callback returns.\<close>

definition accept_succeeds :: "('w, 'd) tcp_os \<Rightarrow> 'w socket_os \<Rightarrow> ('c, 'd, 'h, 'w) accept_cb \<Rightarrow> 'c \<Rightarrow>
    ('w \<Rightarrow> int list) \<Rightarrow> bool" where
  "accept_succeeds ts so user c queue \<longleftrightarrow>
     (\<forall>fd w. queue w \<noteq> [] \<longrightarrow> \<not> isl (fst (ts_accept ts fd w))) \<and>
     (\<forall>fd w. fst (so_fcntl_nonblock so fd w) \<noteq> - 1 \<and> 0 \<le> fst (setSocketOptions so fd w)) \<and>
     (\<forall>client s. \<exists>r. fst (user c client s) = Ret r)"

lemma accept_envD:
  assumes "accept_env ts so user this c queue log"
  shows "fst (ts_accept ts fd w) = Inl e \<Longrightarrow>
      queue (snd (ts_accept ts fd w)) = queue w \<or> queue (snd (ts_accept ts fd w)) = tl (queue w)"
    and "fst (ts_accept ts fd w) = Inr clientFd \<Longrightarrow>
      clientFd \<noteq> - 1 \<and> queue w = clientFd # queue (snd (ts_accept ts fd w))"
    and "deref this (snd (ts_accept ts fd w)) = deref this w" "log (snd (ts_accept ts fd w)) = log w"
    and "socket_keeps so (fst (fst (ts_new ts w)))" "queue (snd (ts_new ts w)) = queue w"
      "deref this (snd (ts_new ts w)) = deref this w" "log (snd (ts_new ts w)) = log w"
    and "queue (assign (fst (fst (ts_new ts v))) ob w) = queue w"
      "deref this (assign (fst (fst (ts_new ts v))) ob w) = deref this w"
      "log (assign (fst (fst (ts_new ts v))) ob w) = log w"
    and "queue (snd (so_fcntl_nonblock so fd w)) = queue w"
      "deref this (snd (so_fcntl_nonblock so fd w)) = deref this w" "log (snd (so_fcntl_nonblock so fd w)) = log w"
    and "queue (snd (setSocketOptions so fd w)) = queue w"
      "deref this (snd (setSocketOptions so fd w)) = deref this w" "log (snd (setSocketOptions so fd w)) = log w"
    and "queue (world (snd (user c client s))) = queue (world s)"
      "obj this (snd (user c client s)) = obj this s"
      "log (world (snd (user c client s))) = log (world s) @ [m_event (obj client s)]"
proof -
  have ac: "case fst (ts_accept ts fd w) of
      Inl e \<Rightarrow> queue (snd (ts_accept ts fd w)) = queue w \<or> queue (snd (ts_accept ts fd w)) = tl (queue w)
    | Inr clientFd \<Rightarrow> clientFd \<noteq> - 1 \<and> queue w = clientFd # queue (snd (ts_accept ts fd w))"
    using assms unfolding accept_env_def by blast
  then show "fst (ts_accept ts fd w) = Inl e \<Longrightarrow>
      queue (snd (ts_accept ts fd w)) = queue w \<or> queue (snd (ts_accept ts fd w)) = tl (queue w)"
    and "fst (ts_accept ts fd w) = Inr clientFd \<Longrightarrow>
      clientFd \<noteq> - 1 \<and> queue w = clientFd # queue (snd (ts_accept ts fd w))" by simp_all
qed (use assms in \<open>simp_all add: accept_env_def Let_def\<close>)

lemma process_fails:
  assumes "accept_env ts so user this c queue log"
    and "fst (ts_accept ts (m_listeningEvent (obj this s)) (world s)) = Inl e"
  shows "\<exists>s'. TcpServer_process ts so os user this s = (Ret (- 1), s') \<and> log (world s') = log (world s) \<and>
     (queue (world s') = queue (world s) \<or> queue (world s') = tl (queue (world s)))"
  using accept_envD(1,4) [OF assms(1)] assms(2) by (simp add: TcpServer_process_def sys_def split_beta)

lemma process_one:
  assumes env: "accept_env ts so user this c queue log" and cb: "m_acceptCb (obj this s) = Some c"
    and "fst (ts_accept ts (m_listeningEvent (obj this s)) (world s)) = Inr fd"
  obtains r s' where "TcpServer_process ts so os user this s = (r, s')" "obj this s' = obj this s"
    "queue (world s) = fd # queue (world s')"
    "r = Ret 1 \<and> log (world s') = log (world s) @ [fd] \<or>
     (\<exists>ex. r = Throw ex) \<and> (log (world s') = log (world s) \<or> log (world s') = log (world s) @ [fd])"
    "accept_succeeds ts so user c queue \<Longrightarrow> r = Ret 1"
proof -
  note rules = accept_envD [OF env]
  let ?s1 = "snd (sys (ts_accept ts (m_listeningEvent (obj this s))) s)"
  let ?new = "ts_new ts (world ?s1)"
  let ?client = "fst (fst ?new)"
  let ?t = "snd (sys (ts_new ts) ?s1)"
  let ?ctor = "SocketNonblocking_ctor_fd so (snd (fst ?new)) fd ?client ?t"
  have client: "socket_keeps so ?client" by (rule rules)
  note frame = sys_def split_beta rules set_obj_def obj_def
  have acc: "fd \<noteq> - 1" "queue (world s) = fd # queue (world ?s1)"
    using rules(2) [OF assms(3)] by (simp_all add: sys_def split_beta)
  have ctor: "queue (world (snd ?ctor)) = queue (world ?s1)" "obj this (snd ?ctor) = obj this s"
      "log (world (snd ?ctor)) = log (world s)"
      "fst ?ctor = Ret 0 \<or> (\<exists>ex. fst ?ctor = Throw ex)"
      "accept_succeeds ts so user c queue \<Longrightarrow> fst ?ctor = Ret 0"
    by (auto simp: SocketNonblocking_ctor_fd_def Let_def acc frame accept_succeeds_def not_less)
  have ev: "m_event (obj ?client (snd ?ctor)) = fd"
    by (simp add: SocketNonblocking_ctor_fd_def Let_def split_beta obj_sys setSocketOptions_keeps [OF client]
        socket_keepsD [OF client] obj_set_obj acc(1))
  have run: "TcpServer_process ts so os user this s = (case ?ctor of
       (Throw ex, s) \<Rightarrow> (Throw ex, s)
     | (Ret _, s) \<Rightarrow> (case user c ?client s of (Throw ex, s) \<Rightarrow> (Throw ex, s) | (Ret _, s) \<Rightarrow> (Ret 1, s)))"
    using assms(3) ctor(2) cb
    by (simp add: TcpServer_process_def sys_def split_beta split: outcome.split)
  show thesis
  proof (cases "fst ?ctor")
    case (Throw ex)
    with run have "TcpServer_process ts so os user this s = (Throw ex, snd ?ctor)" by (simp add: split_beta)
    then show thesis by (rule that) (use ctor acc Throw in auto)
  next
    case (Ret r)
    let ?u = "user c ?client (snd ?ctor)"
    have u: "queue (world (snd ?u)) = queue (world ?s1)" "obj this (snd ?u) = obj this s"
        "log (world (snd ?u)) = log (world s) @ [fd]" "accept_succeeds ts so user c queue \<Longrightarrow> \<exists>r. fst ?u = Ret r"
      using rules(18-20) [of ?client "snd ?ctor"] ctor(1-3) ev by (auto simp: accept_succeeds_def)
    have "TcpServer_process ts so os user this s = (case fst ?u of Throw ex \<Rightarrow> Throw ex | Ret _ \<Rightarrow> Ret 1, snd ?u)"
      using run Ret by (simp add: split_beta split: outcome.split)
    then show thesis by (rule that) (use u acc in \<open>auto split: outcome.split\<close>)
  qed
qed

lemma drain_accepts:
  assumes env: "accept_env ts so user this c queue log" and h: "run h = TcpServer_process ts so os user this"
  shows "m_acceptCb (obj this s) = Some c \<Longrightarrow>
    \<exists>r s' n d. drain run h s = Some (r, s') \<and> n \<le> length (queue (world s)) \<and> d \<le> 1 \<and>
      log (world s') = log (world s) @ take n (queue (world s)) \<and>
      queue (world s') = drop (n + d) (queue (world s)) \<and> (r = Ret 0 \<or> (\<exists>ex. r = Throw ex)) \<and>
      (accept_succeeds ts so user c queue \<longrightarrow> r = Ret 0 \<and> n = length (queue (world s)))"
proof (induction "length (queue (world s))" arbitrary: s rule: less_induct)
  case less
  let ?acc = "ts_accept ts (m_listeningEvent (obj this s)) (world s)" and ?q = "queue (world s)"
  show ?case
  proof (cases "fst ?acc")
    case (Inl e)
    obtain s' where s': "TcpServer_process ts so os user this s = (Ret (- 1), s')" "log (world s') = log (world s)"
        "queue (world s') = ?q \<or> queue (world s') = tl ?q"
      using process_fails [OF env Inl] by blast
    then have "drain run h s = Some (Ret 0, s')" by (subst drain.simps) (simp add: h)
    moreover have "\<exists>d \<le> 1. queue (world s') = drop (0 + d) ?q"
      using s'(3) by (auto intro: exI [of _ 0] exI [of _ 1] simp: drop_Suc)
    moreover have "accept_succeeds ts so user c queue \<longrightarrow> 0 = length ?q"
      using Inl by (metis accept_succeeds_def isl_def list.size(3))
    ultimately show ?thesis using s'(2) by (metis append_Nil2 le0 take0)
  next
    case (Inr fd)
    obtain r1 s1 where s1: "TcpServer_process ts so os user this s = (r1, s1)" "obj this s1 = obj this s"
        "?q = fd # queue (world s1)"
        "r1 = Ret 1 \<and> log (world s1) = log (world s) @ [fd] \<or>
         (\<exists>ex. r1 = Throw ex) \<and> (log (world s1) = log (world s) \<or> log (world s1) = log (world s) @ [fd])"
        "accept_succeeds ts so user c queue \<Longrightarrow> r1 = Ret 1"
      using process_one [OF env less.prems Inr] by metis
    show ?thesis
    proof (cases "r1 = Ret 1")
      case True
      then have log1: "log (world s1) = log (world s) @ [fd]" using s1(4) by auto
      have "length (queue (world s1)) < length ?q" using s1(3) by simp
      moreover have "m_acceptCb (obj this s1) = Some c" using less.prems s1(2) by simp
      ultimately obtain r s' n d where IH: "drain run h s1 = Some (r, s')" "n \<le> length (queue (world s1))" "d \<le> 1"
          "log (world s') = log (world s1) @ take n (queue (world s1))"
          "queue (world s') = drop (n + d) (queue (world s1))" "r = Ret 0 \<or> (\<exists>ex. r = Throw ex)"
          "accept_succeeds ts so user c queue \<longrightarrow> r = Ret 0 \<and> n = length (queue (world s1))"
        using less.hyps by blast
      have "drain run h s = Some (r, s')" using s1(1) True IH(1) by (subst drain.simps) (simp add: h)
      then show ?thesis
        using IH log1 s1(3) by (intro exI [of _ r] exI [of _ s'] exI [of _ "Suc n"] exI [of _ d]) simp
    next
      case False
      then obtain ex where ex: "r1 = Throw ex" using s1(4) by blast
      then have "drain run h s = Some (Throw ex, s1)" using s1(1) by (subst drain.simps) (simp add: h)
      moreover have "\<exists>n d. n \<le> length ?q \<and> d \<le> 1 \<and> log (world s1) = log (world s) @ take n ?q \<and>
          queue (world s1) = drop (n + d) ?q"
      proof (cases "log (world s1) = log (world s)")
        case True
        then show ?thesis using s1(3) by (intro exI [of _ 0] exI [of _ 1]) simp
      next
        case False
        then have "log (world s1) = log (world s) @ [fd]" using s1(4) ex by auto
        then show ?thesis using s1(3) by (intro exI [of _ 1] exI [of _ 0]) simp
      qed
      moreover have "\<not> accept_succeeds ts so user c queue" using s1(5) ex by auto
      ultimately show ?thesis by blast
    qed
  qed
qed

section \<open>A concrete server\<close>

text \<open>The server, the client accepted last, the queue of the kernel and the log of the callback.\<close>

type_synonym tcp_world = "unit TcpServer \<times> unit SocketNonblocking \<times> int list \<times> int list"

definition demo_tcp_os :: "(tcp_world, unit) tcp_os" where
  "demo_tcp_os = \<lparr>ts_socket = (\<lambda>domain w. (5, w)), ts_setsockopt = (\<lambda>fd name opt w. (0, w)),
     ts_bind = (\<lambda>fd addr w. (0, w)), ts_listen = (\<lambda>fd n w. (0, w)),
     ts_accept = (\<lambda>fd (srv, cl, q, l). case q of [] \<Rightarrow> (Inl EAGAIN, (srv, cl, [], l)) | x # xs \<Rightarrow>
        (Inr \<bar>x\<bar>, (srv, cl, xs, l))),
     ts_close = (\<lambda>fd (srv, cl, q, l). (0, srv, cl, q, filter (\<lambda>x. x \<noteq> fd) l)),
     ts_unlink = (\<lambda>p w. (0, w)), ts_chmod = (\<lambda>p w. (0, w)),
     ts_new = (\<lambda>w. ((\<lparr>deref = (\<lambda>w. fst (snd w)), assign = (\<lambda>ob (srv, cl, r). (srv, ob, r))\<rparr>, []), w))\<rparr>"

definition quiet_socket_os :: "'w socket_os" where
  "quiet_socket_os = \<lparr>so_socket = (\<lambda>domain w. (7, w)), so_fcntl_nonblock = (\<lambda>fd w. (0, w)),
     so_getsockname = (\<lambda>fd w. (Some AF_UNIX, w)), so_setsockopt = (\<lambda>fd name opt w. (0, w)),
     so_getaddrinfo = (\<lambda>host port w. (None, w)),
     so_connect = (\<lambda>fd addr w. (Inr (), w)), so_error = (\<lambda>fd w. (0, w)), so_close = (\<lambda>fd w. (0, w)),
     so_getpeername = (\<lambda>fd w. (None, w)), so_getnameinfo = (\<lambda>addr w. (None, w)), so_hwaddr = (\<lambda>fd w. (None, w)),
     so_io = \<lparr>io_poll_out = (\<lambda>fd t w. (Inr 1, w)), io_poll_in = (\<lambda>fd t w. (Inr 1, w)),
       io_send = (\<lambda>fd b m w. (Inr (length b), w)), io_sendmsg = (\<lambda>fd bs m w. (Inr (length (concat bs)), w)),
       io_readv = (\<lambda>fd n m w. (Inr [], w))\<rparr>\<rparr>"

definition record_client :: "(unit, unit, unit, tcp_world) accept_cb" where
  "record_client c client s =
     (Ret 0, s\<lparr>world := (case world s of (srv, cl, q, l) \<Rightarrow> (srv, cl, q, l @ [m_event (obj client s)]))\<rparr>)"

definition pending_fds :: "tcp_world \<Rightarrow> int list" where
  "pending_fds w = map abs (fst (snd (snd w)))"

lemma demo_accept_env:
  "accept_env demo_tcp_os quiet_socket_os record_client demo_this () pending_fds (\<lambda>w. snd (snd (snd w)))"
  by (auto simp: accept_env_def demo_tcp_os_def quiet_socket_os_def record_client_def demo_this_def pending_fds_def
      socket_keeps_def ref_laws_def keeps_def setSocketOptions_def obj_def neq_Nil_conv Let_def split_beta
      split: list.split)

lemma demo_accept_succeeds: "accept_succeeds demo_tcp_os quiet_socket_os record_client () pending_fds"
  by (auto simp: accept_succeeds_def demo_tcp_os_def quiet_socket_os_def record_client_def pending_fds_def
      setSocketOptions_def split_beta split: list.split)

section \<open>Properties\<close>

text \<open>
  Claim C7: once registered for the edge triggered loop, the server hands the waiting connections to the callback in
  order, each exactly once, and its handler always returns. It stops at the first failing call: connections behind it stay in
  the queue, and at most one connection, the one whose call failed, is neither handed over nor left in the queue. When
  no call fails and the callback does not throw, every waiting connection is handed over. The callback leaves the server alone.
\<close>

theorem TcpServer_accepts_all:
  assumes "accept_env ts so user this c queue log" and "run h = TcpServer_process ts so os user this"
    and "m_acceptCb (obj this s) = Some c"
  shows "\<exists>r s' n d. drain run h s = Some (r, s') \<and> n \<le> length (queue (world s)) \<and> d \<le> 1 \<and>
     log (world s') = log (world s) @ take n (queue (world s)) \<and>
     queue (world s') = drop (n + d) (queue (world s)) \<and> (r = Ret 0 \<or> (\<exists>ex. r = Throw ex)) \<and>
     (accept_succeeds ts so user c queue \<longrightarrow> r = Ret 0 \<and> n = length (queue (world s)))"
  by (rule drain_accepts [where h = h and run = run, OF assms])

theorem TcpServer_accepts_all_witness:
  "\<exists>s'. drain (\<lambda>h. TcpServer_process demo_tcp_os quiet_socket_os plain_epoll record_client demo_this) ()
     (empty_loop (\<lparr>m_listeningEvent = 5, m_acceptCb = Some (), m_path = []\<rparr>, SocketNonblocking_ctor [], [8, 9], [])) =
     Some (Ret 0, s') \<and> pending_fds (world s') = [] \<and> snd (snd (snd (world s'))) = [8, 9]"
  using TcpServer_accepts_all [OF demo_accept_env,
      of "\<lambda>h. TcpServer_process demo_tcp_os quiet_socket_os plain_epoll record_client demo_this" "()" plain_epoll
        "empty_loop (\<lparr>m_listeningEvent = 5, m_acceptCb = Some (), m_path = []\<rparr>, SocketNonblocking_ctor [], [8, 9], [])"]
  using demo_accept_succeeds
  by (auto simp: obj_def demo_this_def empty_loop_def pending_fds_def)

text \<open>
  \<open>stop\<close> does not forget the descriptor it closed: whatever is open under that number when the server is
  destroyed (or stopped again) is closed, although it belongs to someone else.
\<close>

theorem TcpServer_closes_twice:
  assumes "ref_laws this" and "epoll_keeps os this" and "\<forall>fd. keeps this (ts_close ts fd)"
    and "\<forall>p. keeps this (ts_unlink ts p)" and "m_listeningEvent (obj this s) = fd"
    and "\<forall>w. \<not> is_open (snd (ts_close ts fd w)) fd" and "\<forall>p w. is_open (snd (ts_unlink ts p w)) = is_open w"
    and "\<forall>ob w. is_open (assign this ob w) = is_open w"
    and "obj this s2 = obj this (TcpServer_stop ts os this s)" and "is_open (world s2) fd"
  shows "\<not> is_open (world (TcpServer_dtor ts os this s2)) fd"
proof -
  note frame = obj_sys obj_loop_ops [OF assms(2)] obj_set_obj [OF assms(1)] assms(3-4) [rule_format]
  have "m_listeningEvent (obj this s2) = fd"
    unfolding assms(9) by (simp add: TcpServer_stop_def Let_def split_beta frame assms(5))
  then show ?thesis
    by (simp add: TcpServer_dtor_def TcpServer_stop_def Let_def split_beta frame)
      (simp add: set_obj_def sys_def split_beta assms(6-8))
qed

theorem TcpServer_closes_twice_witness:
  "5 \<notin> set (snd (snd (snd (world (TcpServer_dtor demo_tcp_os plain_epoll demo_this
     (empty_loop (\<lparr>m_listeningEvent = 5, m_acceptCb = None, m_path = []\<rparr>, SocketNonblocking_ctor [], [], [5]) ::
        (unit, tcp_world) EventLoop))))))"
  by (rule TcpServer_closes_twice [where is_open = "\<lambda>w fd. fd \<in> set (snd (snd (snd w)))" and this = demo_this and
        s = "empty_loop (\<lparr>m_listeningEvent = 5, m_acceptCb = Some (), m_path = []\<rparr>, SocketNonblocking_ctor [], [], []) ::
          (unit, tcp_world) EventLoop", OF demo_this_laws plain_epoll_keeps])
    (auto simp: keeps_def demo_tcp_os_def demo_this_def empty_loop_def obj_def TcpServer_stop_def eraseEvent_def
        set_obj_def sys_def split_beta)

end
