(* ===== verification/Netlink.thy ===== *)
theory Netlink
  imports LoopClient NetadapterList
begin

text \<open>
  \<open>lib/communication/linux/netlink.cpp\<close>: notifications of the kernel about interfaces and addresses. A telegram
  is read into a buffer of 65536 bytes and walked message by message with the macros of \<open>linux/netlink.h\<close> and
  \<open>linux/rtnetlink.h\<close>. Pointers into the buffer are offsets; a read behind its end is \<open>UndefinedBehaviour\<close>. Numbers in
  messages have host order, which is taken as little endian.
\<close>

section \<open>The buffer\<close>

definition rd8 :: "8 word list \<Rightarrow> nat \<Rightarrow> 8 word option" where
  "rd8 buf i = (if i < length buf then Some (buf ! i) else None)"

definition rd16 :: "8 word list \<Rightarrow> nat \<Rightarrow> 16 word option" where
  "rd16 buf i =
     (if i + 1 < length buf then Some (ucast (buf ! i) OR push_bit 8 (ucast (buf ! (i + 1)))) else None)"

definition rd32 :: "8 word list \<Rightarrow> nat \<Rightarrow> 32 word option" where
  "rd32 buf i =
     (if i + 3 < length buf
      then Some (ucast (buf ! i) OR push_bit 8 (ucast (buf ! (i + 1))) OR
                 push_bit 16 (ucast (buf ! (i + 2))) OR push_bit 24 (ucast (buf ! (i + 3))))
      else None)"

text \<open>An \<open>in_addr\<close>, whose bytes are in network order.\<close>

definition rd_in_addr :: "8 word list \<Rightarrow> nat \<Rightarrow> 32 word option" where
  "rd_in_addr buf i =
     (if i + 3 < length buf
      then Some (push_bit 24 (ucast (buf ! i)) OR push_bit 16 (ucast (buf ! (i + 1))) OR
                 push_bit 8 (ucast (buf ! (i + 2))) OR ucast (buf ! (i + 3)))
      else None)"

definition MAX_DATAGRAM_SIZE :: nat where "MAX_DATAGRAM_SIZE = 65536"

text \<open>\<open>NLMSG_ALIGN\<close> and \<open>RTA_ALIGN\<close>.\<close>

definition NLMSG_ALIGN :: "32 word \<Rightarrow> 32 word" where
  "NLMSG_ALIGN len = (len + 3) AND NOT 3"

definition NLMSG_ERROR :: "16 word" where "NLMSG_ERROR = 2"
definition NLMSG_DONE :: "16 word" where "NLMSG_DONE = 3"
definition RTM_NEWLINK :: "16 word" where "RTM_NEWLINK = 16"
definition RTM_DELLINK :: "16 word" where "RTM_DELLINK = 17"
definition RTM_NEWADDR :: "16 word" where "RTM_NEWADDR = 20"
definition RTM_DELADDR :: "16 word" where "RTM_DELADDR = 21"
definition IFA_LOCAL :: "16 word" where "IFA_LOCAL = 2"
definition IFF_UP :: "32 word" where "IFF_UP = 1"

lemma NLMSG_ALIGN_value:
  assumes "unat len + 3 < 2 ^ 32"
  shows "unat (NLMSG_ALIGN len) = (unat len + 3) div 4 * 4"
proof -
  have "NLMSG_ALIGN len = push_bit 2 (drop_bit 2 (len + 3))"
  proof (rule bit_word_eqI)
    have three: "(3 :: 32 word) = mask 2" by (simp add: mask_eq_exp_minus_1)
    have bits: "bit (3 :: 32 word) k \<longleftrightarrow> k < 2" for k unfolding three bit_mask_iff by auto
    fix n assume "n < LENGTH(32)"
    then show "bit (NLMSG_ALIGN len) n \<longleftrightarrow> bit (push_bit 2 (drop_bit 2 (len + 3))) n"
      by (cases n; cases "n - 1") (auto simp: NLMSG_ALIGN_def bit_and_iff bit_not_iff bits bit_push_bit_iff bit_drop_bit_eq)
  qed
  moreover have "take_bit 32 (unat (len + 3)) = unat (len + 3)"
    by (rule take_bit_nat_eq_self) (use unsigned_less [of "len + 3"] in simp)
  ultimately have "unat (NLMSG_ALIGN len) = take_bit 32 (push_bit 2 (drop_bit 2 (unat (len + 3))))"
    by (simp only: unsigned_push_bit_eq unsigned_drop_bit_eq) simp
  moreover have "unat (len + 3) = unat len + 3"
    using assms by (subst unat_add_lem [THEN iffD1]) simp_all
  moreover have "(unat len + 3) div 4 * 4 < 2 ^ 32" using assms by simp
  ultimately show ?thesis by (simp add: push_bit_eq_mult drop_bit_eq_div take_bit_nat_eq_self)
qed

lemmas netlink_constants = NLMSG_ERROR_def NLMSG_DONE_def RTM_NEWLINK_def RTM_DELLINK_def RTM_NEWADDR_def
  RTM_DELADDR_def IFA_LOCAL_def IFF_UP_def

section \<open>The data\<close>

datatype event_t = LINK_ADDED | LINK_REMOVED | ADDRESS_ADDED | ADDRESS_REMOVED | COMPLETE

text \<open>
  \<open>nl_recv\<close> is \<open>recvmsg\<close> with the size of the buffer, \<open>nl_env\<close> the state of the interfaces when
  \<open>NetadapterList::update\<close> asks for it, \<open>nl_list\<close> the reference to the list.
\<close>

record 'w netlink_os =
  nl_socket :: "'w \<Rightarrow> int \<times> 'w"
  nl_setsockopt :: "int \<Rightarrow> 'w \<Rightarrow> int \<times> 'w"
  nl_bind :: "int \<Rightarrow> 'w \<Rightarrow> int \<times> 'w"
  nl_recv :: "int \<Rightarrow> nat \<Rightarrow> 'w \<Rightarrow> (errno + 8 word list) \<times> 'w"
  nl_close :: "int \<Rightarrow> 'w \<Rightarrow> int \<times> 'w"
  nl_strerror :: "'w \<Rightarrow> string"
  nl_env :: "'w \<Rightarrow> net_env \<times> 'w"
  nl_lib :: inet_lib
  nl_list :: "('w, NetadapterList) ref"

record 'c Netlink =
  netlink_event :: int
  m_interfaceAddressEventHandler :: "'c option"

type_synonym ('c, 's) interfaceAddressCb_t = "'c \<Rightarrow> event_t \<Rightarrow> 32 word \<Rightarrow> string \<Rightarrow> 's \<Rightarrow> outcome \<times> 's"

text \<open>The call in front of another, and a read of the buffer in front of a call.\<close>

definition seq :: "outcome \<times> 's \<Rightarrow> ('s \<Rightarrow> outcome \<times> 's) \<Rightarrow> outcome \<times> 's" where
  "seq m k = (case m of (Throw ex, s) \<Rightarrow> (Throw ex, s) | (Ret _, s) \<Rightarrow> k s)"

definition reading :: "'a option \<Rightarrow> ('a \<Rightarrow> 's \<Rightarrow> outcome \<times> 's) \<Rightarrow> 's \<Rightarrow> outcome \<times> 's" where
  "reading x k s = (case x of None \<Rightarrow> (Throw UndefinedBehaviour, s) | Some v \<Rightarrow> k v s)"

lemma seq_cong [fundef_cong]:
  "m = m' \<Longrightarrow> (\<And>r s. m' = (Ret r, s) \<Longrightarrow> k s = k' s) \<Longrightarrow> seq m k = seq m' k'"
  by (auto simp: seq_def split: prod.split outcome.split)

lemma reading_cong [fundef_cong]:
  "x = x' \<Longrightarrow> s = s' \<Longrightarrow> (\<And>v. x' = Some v \<Longrightarrow> k v s' = k' v s') \<Longrightarrow> reading x k s = reading x' k' s'"
  by (auto simp: reading_def split: option.split)

definition Netlink_ctor :: "'w netlink_os \<Rightarrow> ('w, 'c Netlink) ref \<Rightarrow> ('h, 'w) EventLoop \<Rightarrow>
    outcome \<times> ('h, 'w) EventLoop" where
  "Netlink_ctor nl this s =
     (let (fd, s) = sys (nl_socket nl) s;
          s = set_obj this \<lparr>netlink_event = fd, m_interfaceAddressEventHandler = None\<rparr> s in
      if fd < 0 then (Throw (HbmException ''could not open netlink socket''), s)
      else let (r, s) = sys (nl_setsockopt nl fd) s in
        if r < 0 then (Throw (HbmException ''Could not set SO_REUSEADDR!''), s)
        else let (r, s) = sys (nl_bind nl fd) s in
          if r < 0
          then (Throw (HbmException (''could not bind netlink socket '' @ [char_of (39::nat)] @
                   nl_strerror nl (world s) @ [char_of (39::nat)])), s)
          else (Ret 0, s))"

section \<open>One message\<close>

text \<open>
  The callback is called, and its arguments are read, only when there is one: \<open>pos\<close> is the offset of the
  \<open>ifinfomsg\<close> or \<open>ifaddrmsg\<close>, \<open>data\<close> that of the address.
\<close>

definition notify_link :: "('c, ('h, 'w) EventLoop) interfaceAddressCb_t \<Rightarrow> ('w, 'c Netlink) ref \<Rightarrow>
    event_t \<Rightarrow> 8 word list \<Rightarrow> nat \<Rightarrow> ('h, 'w) EventLoop \<Rightarrow> outcome \<times> ('h, 'w) EventLoop" where
  "notify_link user this ev buf pos s =
     (case m_interfaceAddressEventHandler (obj this s) of
        None \<Rightarrow> (Ret 0, s)
      | Some c \<Rightarrow> reading (rd32 buf (pos + 4)) (\<lambda>ifi_index s.
          seq (user c ev ifi_index [] s) (\<lambda>s. (Ret 0, s))) s)"

definition notify_address :: "('c, ('h, 'w) EventLoop) interfaceAddressCb_t \<Rightarrow> ('w, 'c Netlink) ref \<Rightarrow>
    event_t \<Rightarrow> 8 word list \<Rightarrow> nat \<Rightarrow> nat \<Rightarrow> ('h, 'w) EventLoop \<Rightarrow> outcome \<times> ('h, 'w) EventLoop" where
  "notify_address user this ev buf pos data s =
     (case m_interfaceAddressEventHandler (obj this s) of
        None \<Rightarrow> (Ret 0, s)
      | Some c \<Rightarrow> reading (rd_in_addr buf data) (\<lambda>a.
          reading (rd32 buf (pos + 4)) (\<lambda>ifa_index. user c ev ifa_index (dotted a))) s)"

definition refresh_list :: "'w netlink_os \<Rightarrow> ('h, 'w) EventLoop \<Rightarrow> outcome \<times> ('h, 'w) EventLoop" where
  "refresh_list nl s =
     (let (env, s) = sys (nl_env nl) s in
      case update env (nl_lib nl) (obj (nl_list nl) s) of
        Inl ex \<Rightarrow> (Throw ex, s)
      | Inr l \<Rightarrow> (Ret 0, set_obj (nl_list nl) l s))"

text \<open>
  The loop over the attributes of an address message, \<open>rth\<close> and \<open>rtl\<close> as in the code. \<open>RTA_NEXT\<close> may leave \<open>rtl\<close>
  negative, which \<open>RTA_OK\<close> refuses.
\<close>

function attribute_loop :: "(nat \<Rightarrow> 's \<Rightarrow> outcome \<times> 's) \<Rightarrow> 8 word list \<Rightarrow> nat \<Rightarrow> int \<Rightarrow> 's \<Rightarrow> outcome \<times> 's" where
  "attribute_loop call buf rth rtl s =
     (if rtl = 0 \<or> rtl < 4 then (Ret 0, s)
      else reading (rd16 buf rth) (\<lambda>rta_len s.
        if rta_len < 4 \<or> rtl < int (unat rta_len) then (Ret 0, s)
        else reading (rd16 buf (rth + 2)) (\<lambda>rta_type s.
          seq (if rta_type = IFA_LOCAL then call (rth + 4) s else (Ret 0, s)) (\<lambda>s.
            attribute_loop call buf (rth + unat (NLMSG_ALIGN (ucast rta_len)))
              (rtl - int (unat (NLMSG_ALIGN (ucast rta_len)))) s)) s) s)"
  by pat_completeness auto
termination
proof (relation "measure (\<lambda>(call, buf, rth, rtl, s). nat rtl)", goal_cases)
  case (2 call buf rth rtl s rta_len rta_type r s')
  have "unat (ucast rta_len :: 32 word) = unat rta_len" by (rule unat_ucast_wider) simp
  moreover have "unat rta_len < 2 ^ 16" using unsigned_less [of rta_len] by simp
  moreover have "4 \<le> unat rta_len" using 2 by (simp add: word_le_nat_alt not_less)
  ultimately have "4 \<le> unat (NLMSG_ALIGN (ucast rta_len))" by (subst NLMSG_ALIGN_value) simp_all
  then have "0 < int (unat (NLMSG_ALIGN (ucast rta_len)))" by linarith
  then show ?case using 2 by simp
qed simp

declare attribute_loop.simps [simp del]

text \<open>The \<open>switch\<close> over the type; \<open>nh\<close> is the offset of the message.\<close>

definition process_message :: "('c, ('h, 'w) EventLoop) interfaceAddressCb_t \<Rightarrow> ('w, 'c Netlink) ref \<Rightarrow>
    8 word list \<Rightarrow> nat \<Rightarrow> 32 word \<Rightarrow> 16 word \<Rightarrow> ('h, 'w) EventLoop \<Rightarrow> outcome \<times> ('h, 'w) EventLoop" where
  "process_message user this buf nh nlmsg_len nlmsg_type s =
     (let data = nh + 16 in
      if nlmsg_type = RTM_NEWLINK then
        reading (rd32 buf (data + 12)) (\<lambda>ifi_change s.
          if ifi_change \<noteq> 0 then
            reading (rd32 buf (data + 8)) (\<lambda>ifi_flags.
              notify_link user this (if IFF_UP AND ifi_flags \<noteq> 0 then LINK_ADDED else LINK_REMOVED) buf data) s
          else (Ret 0, s)) s
      else if nlmsg_type = RTM_DELLINK then
        reading (rd32 buf (data + 8)) (\<lambda>ifi_flags s.
          if IFF_UP AND ifi_flags = 0 then notify_link user this LINK_REMOVED buf data s else (Ret 0, s)) s
      else if nlmsg_type = RTM_NEWADDR \<or> nlmsg_type = RTM_DELADDR then
        reading (rd8 buf data) (\<lambda>ifa_family s.
          if ifa_family = of_nat AF_INET then
            attribute_loop (notify_address user this
                (if nlmsg_type = RTM_NEWADDR then ADDRESS_ADDED else ADDRESS_REMOVED) buf data)
              buf (data + 8) (sint (nlmsg_len - 24)) s
          else (Ret 0, s)) s
      else (Ret 0, s))"

section \<open>Telegrams\<close>

text \<open>
  The loop over the messages. \<open>bufferSize\<close> is a \<open>size_t\<close>, from which \<open>NLMSG_NEXT\<close> subtracts the aligned
  length. The loop need not end: an aligned length may be zero.
\<close>

partial_function (option) telegram_loop :: "'w netlink_os \<Rightarrow>
    ('c, ('h, 'w) EventLoop) interfaceAddressCb_t \<Rightarrow> ('w, 'c Netlink) ref \<Rightarrow> 8 word list \<Rightarrow> nat \<Rightarrow>
    64 word \<Rightarrow> ('h, 'w) EventLoop \<Rightarrow> (outcome \<times> ('h, 'w) EventLoop) option" where
  "telegram_loop nl user this buf nh bufferSize s =
     (if bufferSize < 16 then Some (Ret 0, s)
      else case rd32 buf nh of
        None \<Rightarrow> Some (Throw UndefinedBehaviour, s)
      | Some nlmsg_len \<Rightarrow>
          if nlmsg_len < 16 \<or> bufferSize < ucast nlmsg_len then Some (Ret 0, s)
          else (case rd16 buf (nh + 4) of
             None \<Rightarrow> Some (Throw UndefinedBehaviour, s)
           | Some nlmsg_type \<Rightarrow>
               if nlmsg_type = NLMSG_DONE \<or> nlmsg_type = NLMSG_ERROR then Some (Ret 0, s)
               else (case seq (refresh_list nl s) (process_message user this buf nh nlmsg_len nlmsg_type) of
                  (Throw ex, s) \<Rightarrow> Some (Throw ex, s)
                | (Ret _, s) \<Rightarrow>
                    telegram_loop nl user this buf (nh + unat (NLMSG_ALIGN nlmsg_len))
                      (bufferSize - ucast (NLMSG_ALIGN nlmsg_len)) s)))"

definition processNetlinkTelegram :: "'w netlink_os \<Rightarrow> ('c, ('h, 'w) EventLoop) interfaceAddressCb_t \<Rightarrow>
    ('w, 'c Netlink) ref \<Rightarrow> 8 word list \<Rightarrow> nat \<Rightarrow> ('h, 'w) EventLoop \<Rightarrow> (outcome \<times> ('h, 'w) EventLoop) option" where
  "processNetlinkTelegram nl user this pReadBuffer bufferSize s =
     telegram_loop nl user this pReadBuffer 0 (of_nat bufferSize) s"

text \<open>
  \<open>process\<close>: the buffer on the stack holds the telegram and behind it what was there before (\<open>uninit\<close>).
\<close>

definition Netlink_receive :: "'w netlink_os \<Rightarrow> ('w, 'c Netlink) ref \<Rightarrow> nat \<Rightarrow> ('h, 'w) EventLoop \<Rightarrow>
    (errno + 8 word list) \<times> ('h, 'w) EventLoop" where
  "Netlink_receive nl this bufferSize s = sys (nl_recv nl (netlink_event (obj this s)) bufferSize) s"

definition Netlink_process :: "'w netlink_os \<Rightarrow> ('c, ('h, 'w) EventLoop) interfaceAddressCb_t \<Rightarrow>
    ('w, 'c Netlink) ref \<Rightarrow> 8 word list \<Rightarrow> ('h, 'w) EventLoop \<Rightarrow> (outcome \<times> ('h, 'w) EventLoop) option" where
  "Netlink_process nl user this uninit s =
     (case Netlink_receive nl this MAX_DATAGRAM_SIZE s of
        (Inl e, s) \<Rightarrow> Some (Ret (- 1), s)
      | (Inr telegram, s) \<Rightarrow>
          if telegram \<noteq> [] then
            andThen (processNetlinkTelegram nl user this (telegram @ drop (length telegram) uninit)
                (length telegram) s)
              (\<lambda>_ s. Some (Ret (int (length telegram)), s))
          else Some (Ret 0, s))"

definition Netlink_start :: "'w epoll_os \<Rightarrow> ('h, ('h, 'w) EventLoop) runner \<Rightarrow> 'h \<Rightarrow>
    ('c, ('h, 'w) EventLoop) interfaceAddressCb_t \<Rightarrow> 'c option \<Rightarrow> ('w, 'c Netlink) ref \<Rightarrow> ('h, 'w) EventLoop \<Rightarrow>
    (outcome \<times> ('h, 'w) EventLoop) option" where
  "Netlink_start os run h user cb this s =
     (let s = set_obj this ((obj this s)\<lparr>m_interfaceAddressEventHandler := cb\<rparr>) s in
      andThen (Some (case m_interfaceAddressEventHandler (obj this s) of
          None \<Rightarrow> (Ret 0, s)
        | Some c \<Rightarrow> user c COMPLETE 0 [] s)) (\<lambda>_ s.
      andThen (addEvent os run (netlink_event (obj this s)) (Some h) s) (\<lambda>_ s. Some (Ret 0, s))))"

definition Netlink_stop :: "'w netlink_os \<Rightarrow> 'w epoll_os \<Rightarrow> ('w, 'c Netlink) ref \<Rightarrow> ('h, 'w) EventLoop \<Rightarrow>
    int \<times> ('h, 'w) EventLoop" where
  "Netlink_stop nl os this s =
     (let (_, s) = eraseEvent os (netlink_event (obj this s)) s in
      sys (nl_close nl (netlink_event (obj this s))) s)"

definition Netlink_dtor :: "'w netlink_os \<Rightarrow> 'w epoll_os \<Rightarrow> ('w, 'c Netlink) ref \<Rightarrow> ('h, 'w) EventLoop \<Rightarrow>
    ('h, 'w) EventLoop" where
  "Netlink_dtor nl os this s = snd (Netlink_stop nl os this s)"

end
