(* ===== verification/NetlinkTelegrams.thy ===== *)
theory NetlinkTelegrams
  imports Netlink
begin

text \<open>
  Telegrams as the kernel builds them: messages as a datatype, their encoding as bytes, the events they stand for,
  and the correctness of \<open>processNetlinkTelegram\<close> against them.
\<close>

section \<open>Bytes in the buffer\<close>

definition le16 :: "16 word \<Rightarrow> 8 word list" where
  "le16 w = [ucast w, ucast (drop_bit 8 w)]"

definition le32 :: "32 word \<Rightarrow> 8 word list" where
  "le32 w = [ucast w, ucast (drop_bit 8 w), ucast (drop_bit 16 w), ucast (drop_bit 24 w)]"

definition be32 :: "32 word \<Rightarrow> 8 word list" where
  "be32 w = rev (le32 w)"

definition holds_at :: "8 word list \<Rightarrow> nat \<Rightarrow> 8 word list \<Rightarrow> bool" where
  "holds_at buf i bs \<longleftrightarrow> take (length bs) (drop i buf) = bs"

lemma length_encodings [simp]: "length (le16 v) = 2" "length (le32 w) = 4" "length (be32 w) = 4"
  by (simp_all add: le16_def le32_def be32_def)

lemma holds_at_append: "holds_at buf i (xs @ ys) \<longleftrightarrow> holds_at buf i xs \<and> holds_at buf (i + length xs) ys"
proof -
  have "take (length (xs @ ys)) (drop i buf) = take (length xs) (drop i buf) @ take (length ys) (drop (i + length xs) buf)"
    by (simp add: take_add add.commute)
  then show ?thesis by (auto simp: holds_at_def append_eq_append_conv_if min_def split: if_splits)
qed

lemma holds_at_nth:
  assumes "holds_at buf i bs" and "n < length bs"
  shows "i + n < length buf \<and> buf ! (i + n) = bs ! n"
proof -
  have eq: "take (length bs) (drop i buf) = bs" using assms(1) by (simp add: holds_at_def)
  then have "min (length bs) (length buf - i) = length bs" by (metis length_drop length_take min.commute)
  moreover have "bs ! n = drop i buf ! n" using eq assms(2) by (metis nth_take)
  ultimately show ?thesis using assms(2) by simp
qed

lemma combine16: "ucast (ucast w :: 8 word) OR push_bit 8 (ucast (ucast (drop_bit 8 w) :: 8 word)) = (w :: 16 word)"
  by (rule bit_word_eqI) (auto simp: bit_simps)

lemma combine32: "ucast (ucast w :: 8 word) OR push_bit 8 (ucast (ucast (drop_bit 8 w) :: 8 word)) OR
    push_bit 16 (ucast (ucast (drop_bit 16 w) :: 8 word)) OR
    push_bit 24 (ucast (ucast (drop_bit 24 w) :: 8 word)) = (w :: 32 word)"
proof (rule bit_word_eqI)
  fix n assume "n < LENGTH(32)"
  then show "bit (ucast (ucast w :: 8 word) OR push_bit 8 (ucast (ucast (drop_bit 8 w) :: 8 word)) OR
      push_bit 16 (ucast (ucast (drop_bit 16 w) :: 8 word)) OR
      push_bit 24 (ucast (ucast (drop_bit 24 w) :: 8 word)) :: 32 word) n \<longleftrightarrow> bit w n"
    by (cases "n < 8"; cases "n < 16"; cases "n < 24") (auto simp: bit_simps)
qed

lemma read_back:
  "holds_at buf i (le16 v) \<Longrightarrow> rd16 buf i = Some v"
  "holds_at buf i (le32 w) \<Longrightarrow> rd32 buf i = Some w"
  "holds_at buf i (be32 w) \<Longrightarrow> rd_in_addr buf i = Some w"
  "holds_at buf i [b] \<Longrightarrow> rd8 buf i = Some b"
proof -
  show "rd16 buf i = Some v" if "holds_at buf i (le16 v)"
    using holds_at_nth [OF that, of 0] holds_at_nth [OF that, of 1]
    by (simp add: rd16_def le16_def combine16)
  show "rd32 buf i = Some w" if "holds_at buf i (le32 w)"
    using holds_at_nth [OF that, of 0] holds_at_nth [OF that, of 1] holds_at_nth [OF that, of 2]
      holds_at_nth [OF that, of 3]
    by (simp add: rd32_def le32_def combine32)
  show "rd_in_addr buf i = Some w" if "holds_at buf i (be32 w)"
    using holds_at_nth [OF that, of 0] holds_at_nth [OF that, of 1] holds_at_nth [OF that, of 2]
      holds_at_nth [OF that, of 3] combine32 [of w]
    by (simp add: rd_in_addr_def be32_def le32_def or.commute or.left_commute)
  show "rd8 buf i = Some b" if "holds_at buf i [b]"
    using holds_at_nth [OF that, of 0] by (simp add: rd8_def)
qed

section \<open>Messages\<close>

text \<open>
  The headers with all their members, those that the code ignores included; \<open>nlmsg_len\<close> and \<open>nlmsg_type\<close> follow from
  the message.
\<close>

record nlmsg_header =
  nlmsg_flags :: "16 word"
  nlmsg_seq :: "32 word"
  nlmsg_pid :: "32 word"

record ifinfo_header =
  ifi_family :: "8 word"
  ifi_pad :: "8 word"
  ifi_type :: "16 word"
  ifi_index :: "32 word"
  ifi_flags :: "32 word"
  ifi_change :: "32 word"

record ifaddr_header =
  ifa_family :: "8 word"
  ifa_prefixlen :: "8 word"
  ifa_addr_flags :: "8 word"
  ifa_scope :: "8 word"
  ifa_index :: "32 word"

type_synonym attribute = "16 word \<times> 8 word list"

datatype message =
    NewLink nlmsg_header ifinfo_header "attribute list"
  | DelLink nlmsg_header ifinfo_header "attribute list"
  | NewAddr nlmsg_header ifaddr_header "attribute list"
  | DelAddr nlmsg_header ifaddr_header "attribute list"
  | Other nlmsg_header "16 word" "8 word list"

definition encode_attribute :: "attribute \<Rightarrow> 8 word list" where
  "encode_attribute a = (case a of (t, v) \<Rightarrow> le16 (of_nat (4 + length v)) @ le16 t @ v @
     replicate ((length v + 3) div 4 * 4 - length v) 0)"

definition encode_ifinfo :: "ifinfo_header \<Rightarrow> 8 word list" where
  "encode_ifinfo l = [ifi_family l, ifi_pad l] @ le16 (ifi_type l) @ le32 (ifi_index l) @ le32 (ifi_flags l) @
     le32 (ifi_change l)"

definition encode_ifaddr :: "ifaddr_header \<Rightarrow> 8 word list" where
  "encode_ifaddr d = [ifa_family d] @ [ifa_prefixlen d, ifa_addr_flags d, ifa_scope d] @ le32 (ifa_index d)"

fun message_header :: "message \<Rightarrow> nlmsg_header" where
  "message_header (NewLink h l attrs) = h"
| "message_header (DelLink h l attrs) = h"
| "message_header (NewAddr h d attrs) = h"
| "message_header (DelAddr h d attrs) = h"
| "message_header (Other h t body) = h"

fun message_type :: "message \<Rightarrow> 16 word" where
  "message_type (NewLink h l attrs) = RTM_NEWLINK"
| "message_type (DelLink h l attrs) = RTM_DELLINK"
| "message_type (NewAddr h d attrs) = RTM_NEWADDR"
| "message_type (DelAddr h d attrs) = RTM_DELADDR"
| "message_type (Other h t body) = t"

fun message_body :: "message \<Rightarrow> 8 word list" where
  "message_body (NewLink h l attrs) = encode_ifinfo l @ concat (map encode_attribute attrs)"
| "message_body (DelLink h l attrs) = encode_ifinfo l @ concat (map encode_attribute attrs)"
| "message_body (NewAddr h d attrs) = encode_ifaddr d @ concat (map encode_attribute attrs)"
| "message_body (DelAddr h d attrs) = encode_ifaddr d @ concat (map encode_attribute attrs)"
| "message_body (Other h t body) = body"

definition encode_message :: "message \<Rightarrow> 8 word list" where
  "encode_message m =
     le32 (of_nat (16 + length (message_body m))) @ le16 (message_type m) @
     le16 (nlmsg_flags (message_header m)) @ le32 (nlmsg_seq (message_header m)) @
     le32 (nlmsg_pid (message_header m)) @ message_body m"

text \<open>
  What the kernel promises: the length of an attribute fits its field, the local address of an IPv4 message has four bytes,
  and the body of every other message is padded.
\<close>

definition attribute_ok :: "attribute \<Rightarrow> bool" where
  "attribute_ok a \<longleftrightarrow> 4 + length (snd a) < 2 ^ 16 \<and> (fst a = IFA_LOCAL \<longrightarrow> (\<exists>ip. snd a = be32 ip))"

fun message_ok :: "message \<Rightarrow> bool" where
  "message_ok (NewAddr h d attrs) \<longleftrightarrow> (ifa_family d = of_nat AF_INET \<longrightarrow> list_all attribute_ok attrs)"
| "message_ok (DelAddr h d attrs) \<longleftrightarrow> (ifa_family d = of_nat AF_INET \<longrightarrow> list_all attribute_ok attrs)"
| "message_ok (Other h t body) \<longleftrightarrow> t \<notin> {RTM_NEWLINK, RTM_DELLINK, RTM_NEWADDR, RTM_DELADDR} \<and> length body mod 4 = 0"
| "message_ok m \<longleftrightarrow> True"

section \<open>What the messages mean\<close>

text \<open>The events of a message, in the order of its attributes.\<close>

definition local_addresses :: "event_t \<Rightarrow> 8 word \<Rightarrow> 32 word \<Rightarrow> attribute list \<Rightarrow> (event_t \<times> 32 word \<times> string) list" where
  "local_addresses ev fam i attrs =
     (if fam = of_nat AF_INET
      then map (\<lambda>(t, v). (ev, i, dotted (the (rd_in_addr v 0)))) (filter (\<lambda>(t, v). t = IFA_LOCAL) attrs) else [])"

fun message_events :: "message \<Rightarrow> (event_t \<times> 32 word \<times> string) list" where
  "message_events (NewLink h l attrs) =
     (if ifi_change l \<noteq> 0
      then [(if IFF_UP AND ifi_flags l \<noteq> 0 then LINK_ADDED else LINK_REMOVED, ifi_index l, [])] else [])"
| "message_events (DelLink h l attrs) =
     (if IFF_UP AND ifi_flags l = 0 then [(LINK_REMOVED, ifi_index l, [])] else [])"
| "message_events (NewAddr h d attrs) = local_addresses ADDRESS_ADDED (ifa_family d) (ifa_index d) attrs"
| "message_events (DelAddr h d attrs) = local_addresses ADDRESS_REMOVED (ifa_family d) (ifa_index d) attrs"
| "message_events (Other h t body) = []"

fun deliver :: "('c, ('h, 'w) EventLoop) interfaceAddressCb_t \<Rightarrow> ('w, 'c Netlink) ref \<Rightarrow>
    (event_t \<times> 32 word \<times> string) list \<Rightarrow> ('h, 'w) EventLoop \<Rightarrow> outcome \<times> ('h, 'w) EventLoop" where
  "deliver user this [] s = (Ret 0, s)"
| "deliver user this ((ev, i, a) # evs) s =
     seq (case m_interfaceAddressEventHandler (obj this s) of None \<Rightarrow> (Ret 0, s) | Some c \<Rightarrow> user c ev i a s)
       (deliver user this evs)"

text \<open>
  The specification of a telegram: for each message up to the first \<open>NLMSG_DONE\<close> or \<open>NLMSG_ERROR\<close> the list of
  adapters is updated and the events are delivered; an exception ends the telegram.
\<close>

fun telegram_spec :: "'w netlink_os \<Rightarrow> ('c, ('h, 'w) EventLoop) interfaceAddressCb_t \<Rightarrow>
    ('w, 'c Netlink) ref \<Rightarrow> message list \<Rightarrow> ('h, 'w) EventLoop \<Rightarrow> outcome \<times> ('h, 'w) EventLoop" where
  "telegram_spec nl user this [] s = (Ret 0, s)"
| "telegram_spec nl user this (m # ms) s =
     (if message_type m = NLMSG_DONE \<or> message_type m = NLMSG_ERROR then (Ret 0, s)
      else seq (seq (refresh_list nl s) (deliver user this (message_events m))) (telegram_spec nl user this ms))"

lemma seq_Ret [simp]: "seq (Ret r, s) k = k s"
  by (simp add: seq_def)

lemma deliver_Nil [simp]: "deliver user this [] = (\<lambda>s. (Ret 0, s))"
  by (rule ext) simp

section \<open>Attributes\<close>

lemma encode_attribute_length: "length (encode_attribute a) = 4 + (length (snd a) + 3) div 4 * 4"
  by (cases a) (simp add: encode_attribute_def)

lemma rta_align: "n < 2 ^ 16 \<Longrightarrow> unat (NLMSG_ALIGN (ucast (of_nat n :: 16 word))) = (n + 3) div 4 * 4"
  by (subst NLMSG_ALIGN_value) (simp_all add: unat_ucast_wider unat_of_nat_small)

lemma attribute_step:
  assumes "rd16 buf rth = Some len" and "rd16 buf (rth + 2) = Some t" and "unat len = n" and "4 \<le> n"
    and "unat (NLMSG_ALIGN (ucast len)) = k" and "n \<le> k"
  shows "attribute_loop call buf rth (int (k + rest)) s =
    seq (if t = IFA_LOCAL then call (rth + 4) s else (Ret 0, s)) (attribute_loop call buf (rth + k) (int rest))"
proof -
  have "\<not> len < 4" using assms(3,4) by (simp add: word_less_nat_alt)
  moreover have "uint len = int n" "uint (NLMSG_ALIGN (ucast len)) = int k" using assms(3,5) by (simp_all add: uint_nat)
  ultimately show ?thesis using assms by (subst attribute_loop.simps) (simp add: reading_def)
qed

lemma attribute_loop_encoded:
  assumes "rd32 buf (pos + 4) = Some i" and "list_all attribute_ok attrs"
    and "holds_at buf rth (concat (map encode_attribute attrs))"
  shows "attribute_loop (notify_address user this ev buf pos) buf rth
      (int (length (concat (map encode_attribute attrs)))) s =
    deliver user this (local_addresses ev (of_nat AF_INET) i attrs) s"
  using assms(2,3)
proof (induction attrs arbitrary: rth s)
  case Nil
  then show ?case by (subst attribute_loop.simps) (simp add: local_addresses_def)
next
  case (Cons a attrs)
  obtain t v where a: "a = (t, v)" by fastforce
  let ?rest = "concat (map encode_attribute attrs)" and ?n = "4 + length v"
  have ok: "?n < 2 ^ 16" "t = IFA_LOCAL \<Longrightarrow> \<exists>ip. v = be32 ip"
    using Cons.prems(1) a by (simp_all add: attribute_ok_def)
  have parts: "holds_at buf rth (encode_attribute a)" "holds_at buf (rth + length (encode_attribute a)) ?rest"
    using Cons.prems(2) by (simp_all only: list.map concat.simps holds_at_append)
  have four: "rth + 2 + 2 = rth + 4" by simp
  have at: "holds_at buf rth (le16 (of_nat ?n))" "holds_at buf (rth + 2) (le16 t)" "holds_at buf (rth + 4) v"
    using parts(1) unfolding a encode_attribute_def prod.case holds_at_append length_encodings four by blast+
  have un: "unat (of_nat ?n :: 16 word) = ?n" by (rule unat_of_nat_small) (use ok in simp)
  have al: "unat (NLMSG_ALIGN (ucast (of_nat ?n :: 16 word))) = length (encode_attribute a)"
  proof -
    have "(?n + 3) div 4 * 4 = 4 + (length v + 3) div 4 * 4" by presburger
    then show ?thesis using ok(1) by (subst rta_align) (simp_all only: encode_attribute_length a snd_conv)
  qed
  have le: "?n \<le> length (encode_attribute a)" by (simp add: encode_attribute_length a)
  let ?call = "notify_address user this ev buf pos"
  have "attribute_loop ?call buf rth (int (length (encode_attribute a @ ?rest))) s =
      seq (if t = IFA_LOCAL then ?call (rth + 4) s else (Ret 0, s))
        (attribute_loop ?call buf (rth + length (encode_attribute a)) (int (length ?rest)))"
    unfolding length_append
    by (rule attribute_step [OF read_back(1) [OF at(1)] read_back(1) [OF at(2)] un _ al le]) simp
  also have "\<dots> = seq (if t = IFA_LOCAL then ?call (rth + 4) s else (Ret 0, s))
      (deliver user this (local_addresses ev (of_nat AF_INET) i attrs))"
  proof -
    have "attribute_loop ?call buf (rth + length (encode_attribute a)) (int (length ?rest)) =
        deliver user this (local_addresses ev (of_nat AF_INET) i attrs)"
      by (rule ext, rule Cons.IH [OF _ parts(2)]) (use Cons.prems(1) in simp)
    then show ?thesis by (simp only:)
  qed
  also have "\<dots> = deliver user this (local_addresses ev (of_nat AF_INET) i (a # attrs)) s"
  proof (cases "t = IFA_LOCAL")
    case True
    then obtain ip where ip: "v = be32 ip" using ok(2) by blast
    then have "rd_in_addr buf (rth + 4) = Some ip" using read_back(3) at(3) by simp
    moreover have "rd_in_addr v 0 = Some ip" by (rule read_back(3)) (simp add: ip holds_at_def)
    ultimately show ?thesis
      using True assms(1) by (simp add: a local_addresses_def notify_address_def reading_def split: option.split)
  next
    case False
    then show ?thesis by (simp add: a local_addresses_def seq_def)
  qed
  finally show ?case by simp
qed

section \<open>Messages and telegrams\<close>

lemma attributes_aligned: "4 dvd length (concat (map encode_attribute attrs))"
proof (induction attrs)
  case (Cons a attrs)
  have "4 dvd length (encode_attribute a)" unfolding encode_attribute_length by simp
  with Cons show ?case by simp
qed simp

lemma length_headers [simp]: "length (encode_ifinfo l) = 16" "length (encode_ifaddr d) = 8"
  by (simp_all add: encode_ifinfo_def encode_ifaddr_def)

lemma message_body_aligned: "message_ok m \<Longrightarrow> 4 dvd length (message_body m)"
proof (cases m)
  case (Other h t body)
  then show "message_ok m \<Longrightarrow> 4 dvd length (message_body m)" by (simp add: mod_0_imp_dvd)
qed (simp_all add: attributes_aligned dvd_add_right_iff del: length_concat)

lemma holds_ifinfo:
  assumes "holds_at buf pos (encode_ifinfo l)"
  shows "rd32 buf (pos + 4) = Some (ifi_index l)" "rd32 buf (pos + 8) = Some (ifi_flags l)"
    "rd32 buf (pos + 12) = Some (ifi_change l)"
  using assms unfolding encode_ifinfo_def holds_at_append
  by (auto intro!: read_back(2) simp: eval_nat_numeral)

lemma holds_ifaddr:
  assumes "holds_at buf pos (encode_ifaddr d)"
  shows "rd8 buf pos = Some (ifa_family d)" "rd32 buf (pos + 4) = Some (ifa_index d)"
  using assms unfolding encode_ifaddr_def holds_at_append
  by (auto intro!: read_back(2,4) simp: eval_nat_numeral)

lemma process_message_encoded:
  assumes "message_ok m" and "holds_at buf nh (encode_message m)" and "length (message_body m) < 2 ^ 31"
  shows "process_message user this buf nh (of_nat (16 + length (message_body m))) (message_type m) s =
    deliver user this (message_events m) s"
proof -
  have body: "holds_at buf (nh + 16) (message_body m)"
    using assms(2) unfolding encode_message_def holds_at_append by (simp add: add.commute [of 16])
  have addr: "process_message user this buf nh (of_nat (16 + length (message_body m))) t s =
      deliver user this (local_addresses (if t = RTM_NEWADDR then ADDRESS_ADDED else ADDRESS_REMOVED)
        (ifa_family d) (ifa_index d) attrs) s"
    if m: "message_body m = encode_ifaddr d @ concat (map encode_attribute attrs)"
      and ok: "ifa_family d = of_nat AF_INET \<longrightarrow> list_all attribute_ok attrs"
      and t: "t = RTM_NEWADDR \<or> t = RTM_DELADDR" for d attrs t
  proof -
    let ?n = "length (concat (map encode_attribute attrs))"
    have at: "holds_at buf (nh + 16) (encode_ifaddr d)"
        "holds_at buf (nh + 16 + 8) (concat (map encode_attribute attrs))"
      using body unfolding m holds_at_append by (simp_all add: add.commute [of _ nh])
    have "(of_nat (16 + length (message_body m)) :: 32 word) - 24 = of_nat ?n" unfolding m by simp
    moreover have "sint (of_nat ?n :: 32 word) = int ?n"
      using assms(3) m by (simp add: signed_of_nat signed_take_bit_int_eq_self)
    ultimately show ?thesis
      using holds_ifaddr [OF at(1)] attribute_loop_encoded [OF holds_ifaddr(2) [OF at(1)] _ at(2)] ok t
      by (cases "ifa_family d = of_nat AF_INET")
        (auto simp: process_message_def Let_def reading_def netlink_constants local_addresses_def)
  qed
  show ?thesis
  proof (cases m)
    case (NewLink h l attrs)
    then have "holds_at buf (nh + 16) (encode_ifinfo l)" using body by (simp add: holds_at_append)
    from holds_ifinfo [OF this] show ?thesis
      by (simp add: NewLink process_message_def Let_def reading_def notify_link_def netlink_constants split: option.split)
  next
    case (DelLink h l attrs)
    then have "holds_at buf (nh + 16) (encode_ifinfo l)" using body by (simp add: holds_at_append)
    from holds_ifinfo [OF this] show ?thesis
      by (simp add: DelLink process_message_def Let_def reading_def notify_link_def netlink_constants split: option.split)
  next
    case (NewAddr h d attrs)
    then show ?thesis using addr [of d attrs RTM_NEWADDR] assms(1) by simp
  next
    case (DelAddr h d attrs)
    then show ?thesis using addr [of d attrs RTM_DELADDR] assms(1) by (simp add: netlink_constants)
  next
    case (Other h t body)
    then show ?thesis using assms(1) by (simp add: process_message_def Let_def)
  qed
qed

text \<open>One turn of the loop, for a message of aligned length that lies within the telegram.\<close>

lemma telegram_step:
  assumes "rd32 buf nh = Some (of_nat len)" and "rd16 buf (nh + 4) = Some t" and "16 \<le> len" and "4 dvd len"
    and "len + rest < 2 ^ 31" and "t \<noteq> NLMSG_DONE" and "t \<noteq> NLMSG_ERROR"
  shows "telegram_loop nl user this buf nh (of_nat (len + rest)) s =
    (case seq (refresh_list nl s) (process_message user this buf nh (of_nat len) t) of
       (Throw ex, s) \<Rightarrow> Some (Throw ex, s)
     | (Ret _, s) \<Rightarrow> telegram_loop nl user this buf (nh + len) (of_nat rest) s)"
proof -
  have len: "unat (of_nat len :: 32 word) = len" by (rule unat_of_nat_small) (use assms(5) in simp)
  have sum: "unat (of_nat (len + rest) :: 64 word) = len + rest" by (rule unat_of_nat_small) (use assms(5) in simp)
  have wide: "unat (ucast (of_nat len :: 32 word) :: 64 word) = len" by (simp add: unat_ucast_wider len)
  have "\<not> (of_nat (len + rest) :: 64 word) < 16" "\<not> (of_nat len :: 32 word) < 16"
      "\<not> (of_nat (len + rest) :: 64 word) < ucast (of_nat len :: 32 word)"
    using sum len wide assms(3) by (simp_all add: word_less_nat_alt del: of_nat_add)
  moreover have al: "unat (NLMSG_ALIGN (of_nat len)) = len"
    using assms(4,5) len by (subst NLMSG_ALIGN_value) (auto elim!: dvdE)
  moreover have "(of_nat (len + rest) :: 64 word) - ucast (NLMSG_ALIGN (of_nat len)) = of_nat rest"
  proof -
    have "NLMSG_ALIGN (of_nat len) = of_nat len" by (simp add: word_unat_eq_iff al len)
    moreover have "unat (of_nat len :: 64 word) = len" by (rule unat_of_nat_small) (use assms(5) in simp)
    then have "(ucast (of_nat len :: 32 word) :: 64 word) = of_nat len" by (simp only: word_unat_eq_iff wide)
    ultimately show ?thesis by simp
  qed
  ultimately show ?thesis using assms(1,2,6,7) by (subst telegram_loop.simps) (simp del: of_nat_add cong: prod.case_cong outcome.case_cong)
qed

lemma telegram_loop_encoded:
  "list_all message_ok ms \<Longrightarrow> holds_at buf nh (concat (map encode_message ms)) \<Longrightarrow>
   length (concat (map encode_message ms)) < 2 ^ 31 \<Longrightarrow>
     telegram_loop nl user this buf nh (of_nat (length (concat (map encode_message ms)))) s =
     Some (telegram_spec nl user this ms s)"
proof (induction ms arbitrary: nh s)
  case Nil
  then show ?case by (subst telegram_loop.simps) simp
next
  case (Cons m ms)
  let ?rest = "concat (map encode_message ms)" and ?n = "16 + length (message_body m)"
  have len: "length (encode_message m) = ?n" by (simp add: encode_message_def)
  have parts: "holds_at buf nh (encode_message m)" "holds_at buf (nh + ?n) ?rest"
    using Cons.prems(2) len by (simp_all only: list.map concat.simps holds_at_append)
  have at: "holds_at buf nh (le32 (of_nat ?n))" "holds_at buf (nh + 4) (le16 (message_type m))"
    using parts(1) unfolding encode_message_def holds_at_append length_encodings by blast+
  have bound: "?n + length ?rest < 2 ^ 31" using Cons.prems(3) len by simp
  have ok: "message_ok m" "list_all message_ok ms" using Cons.prems(1) by simp_all
  show ?case
  proof (cases "message_type m = NLMSG_DONE \<or> message_type m = NLMSG_ERROR")
    case True
    then show ?thesis
      using read_back(2) [OF at(1)] read_back(1) [OF at(2)]
      by (subst telegram_loop.simps) auto
  next
    case False
    then have t: "message_type m \<noteq> NLMSG_DONE" "message_type m \<noteq> NLMSG_ERROR" by simp_all
    have aligned: "4 dvd ?n" using message_body_aligned [OF ok(1)] by simp
    have msg: "process_message user this buf nh (of_nat ?n) (message_type m) = deliver user this (message_events m)"
      by (rule ext, rule process_message_encoded [OF ok(1) parts(1)]) (use bound in simp)
    have rest: "telegram_loop nl user this buf (nh + ?n) (of_nat (length ?rest)) t = Some (telegram_spec nl user this ms t)"
      for t by (rule Cons.IH [OF ok(2) parts(2)]) (use bound in simp)
    have "telegram_loop nl user this buf nh (of_nat (?n + length ?rest)) s =
        (case seq (refresh_list nl s) (deliver user this (message_events m)) of
           (Throw ex, s) \<Rightarrow> Some (Throw ex, s) | (Ret _, s) \<Rightarrow> Some (telegram_spec nl user this ms s))"
      by (subst telegram_step [OF read_back(2) [OF at(1)] read_back(1) [OF at(2)] _ aligned bound t]) (simp_all only: msg rest le_add1)
    moreover have "length (concat (map encode_message (m # ms))) = ?n + length ?rest" using len by simp
    ultimately show ?thesis using False by (simp only:) (simp add: seq_def split: prod.split outcome.split)
  qed
qed

section \<open>A concrete netlink socket\<close>

text \<open>The object, the list of adapters and the log of the callback.\<close>

type_synonym netlink_world = "unit Netlink \<times> NetadapterList \<times> (event_t \<times> 32 word \<times> string) list"

definition demo_netlink_os :: "netlink_world netlink_os" where
  "demo_netlink_os = \<lparr>nl_socket = (\<lambda>w. (5, w)), nl_setsockopt = (\<lambda>fd w. (0, w)), nl_bind = (\<lambda>fd w. (0, w)),
     nl_recv = (\<lambda>fd n w. (Inl EAGAIN, w)), nl_close = (\<lambda>fd w. (0, w)), nl_strerror = (\<lambda>w. []),
     nl_env = (\<lambda>w. (eth_env\<lparr>env_getifaddrs := None\<rparr>, w)), nl_lib = le_inet,
     nl_list = \<lparr>deref = (\<lambda>w. fst (snd w)), assign = (\<lambda>ob (t, l, r). (t, ob, r))\<rparr>\<rparr>"

definition log_event :: "(unit, (unit, netlink_world) EventLoop) interfaceAddressCb_t" where
  "log_event c ev i a s =
     (Ret 0, s\<lparr>world := (case world s of (t, l, r) \<Rightarrow> (t, l, r @ [(ev, i, a)]))\<rparr>)"

definition netlink_loop :: "(unit, netlink_world) EventLoop" where
  "netlink_loop = \<lparr>m_events = replicate MAXEVENTS \<lparr>ev_events = 0, ev_ptr = None\<rparr>, m_eventCount = 0,
     m_eventInfos = [], m_epollfd = 3, m_stopFd = 4,
     world = (\<lparr>netlink_event = 5, m_interfaceAddressEventHandler = Some ()\<rparr>, \<lparr>m_adapters = []\<rparr>, [])\<rparr>"

definition netlink_this :: "(netlink_world, unit Netlink) ref" where
  "netlink_this = \<lparr>deref = fst, assign = (\<lambda>ob w. (ob, snd w))\<rparr>"

lemmas netlink_demo_defs = demo_netlink_os_def log_event_def netlink_loop_def netlink_this_def

text \<open>
  The messages for an interface that comes up and gets an address: with flags, sequence number and process of a multicast, the
  type and flags of an Ethernet interface, its name and the netmask as the kernel sends them.
\<close>

definition eth_header :: nlmsg_header where
  "eth_header = \<lparr>nlmsg_flags = 0, nlmsg_seq = 0x65A1B2C3, nlmsg_pid = 1234\<rparr>"

definition demo_messages :: "message list" where
  "demo_messages =
     [NewLink eth_header \<lparr>ifi_family = 0, ifi_pad = 0, ifi_type = 1, ifi_index = 2, ifi_flags = 0x11043, ifi_change = 1\<rparr>
        [(3, [101, 116, 104, 48, 0])],
      NewAddr eth_header \<lparr>ifa_family = 2, ifa_prefixlen = 24, ifa_addr_flags = 0x80, ifa_scope = 0, ifa_index = 2\<rparr>
        [(1, [10, 0, 0, 1]), (IFA_LOCAL, be32 0x0A000001)]]"

section \<open>Properties\<close>

text \<open>
  Claim C4: a telegram of the kernel is processed as specified: for every message up to the first end or error
  message, in order, the list of adapters is updated and then exactly the events of the message are delivered, with
  the index of the interface and the IPv4 addresses of its attributes; nothing behind the telegram is read. The members of
  the headers and the attributes are arbitrary, those that the code ignores included; messages are padded to four bytes.
\<close>

theorem netlink_telegram_correct:
  assumes "list_all message_ok ms" and "length (concat (map encode_message ms)) < 2 ^ 31"
    and "take (length (concat (map encode_message ms))) buf = concat (map encode_message ms)"
  shows "processNetlinkTelegram nl user this buf (length (concat (map encode_message ms))) s =
    Some (telegram_spec nl user this ms s)"
  unfolding processNetlinkTelegram_def
  by (rule telegram_loop_encoded [OF assms(1) _ assms(2)]) (simp add: holds_at_def assms(3))

theorem netlink_telegram_correct_witness:
  "map_option (\<lambda>x. snd (snd (world (snd x)))) (processNetlinkTelegram demo_netlink_os log_event netlink_this
     (concat (map encode_message demo_messages)) 84 netlink_loop) =
   Some [(LINK_ADDED, 2, []), (ADDRESS_ADDED, 2, dotted 0x0A000001)]"
proof -
  have len: "length (concat (map encode_message demo_messages)) = 84"
    by (simp add: demo_messages_def encode_message_def encode_attribute_def)
  have ok: "list_all message_ok demo_messages"
    by (auto simp: demo_messages_def attribute_ok_def netlink_constants)
  have ip: "rd_in_addr (be32 0x0A000001) 0 = Some 0x0A000001"
    by (rule read_back(3)) (simp add: holds_at_def)
  have events: "message_events (NewAddr h \<lparr>ifa_family = 2, ifa_prefixlen = 24, ifa_addr_flags = 0x80, ifa_scope = 0, ifa_index = 2\<rparr>
        [(1, [10, 0, 0, 1]), (2, be32 0x0A000001)]) =
      [(ADDRESS_ADDED, 2, dotted 0x0A000001)]" for h
    by (simp add: local_addresses_def ip netlink_constants AF_INET_def)
  have spec: "snd (snd (world (snd (telegram_spec demo_netlink_os log_event netlink_this demo_messages netlink_loop)))) =
      [(LINK_ADDED, 2, []), (ADDRESS_ADDED, 2, dotted 0x0A000001)]"
    by (simp add: demo_messages_def events netlink_constants netlink_demo_defs refresh_list_def sys_def obj_def
        set_obj_def update_def del: message_events.simps(3))
  have "processNetlinkTelegram demo_netlink_os log_event netlink_this (concat (map encode_message demo_messages)) 84 netlink_loop =
      Some (telegram_spec demo_netlink_os log_event netlink_this demo_messages netlink_loop)"
    by (rule netlink_telegram_correct [OF ok, unfolded len]) (simp_all add: len del: length_concat)
  then show ?thesis using spec by simp
qed

text \<open>
  Claim C31: when the length of the last message is not a multiple of four, the remaining size wraps around below zero:
  the loop goes on behind the telegram, with almost \<open>2\<^sup>64\<close> bytes left, at whatever the buffer holds there.
\<close>

theorem netlink_overruns:
  assumes "rd32 buf 0 = Some (of_nat len)" and "rd16 buf 4 = Some t" and "16 \<le> len" and "len < 2 ^ 31"
    and "len mod 4 \<noteq> 0" and "t \<noteq> NLMSG_DONE" and "t \<noteq> NLMSG_ERROR"
    and "seq (refresh_list nl s) (process_message user this buf 0 (of_nat len) t) = (Ret r, s1)"
  shows "\<exists>left. processNetlinkTelegram nl user this buf len s =
      telegram_loop nl user this buf ((len + 3) div 4 * 4) left s1 \<and> 2 ^ 64 - 3 \<le> unat left"
proof -
  let ?left = "(of_nat len :: 64 word) - ucast (NLMSG_ALIGN (of_nat len))"
  have len: "unat (of_nat len :: 32 word) = len" by (rule unat_of_nat_small) (use assms(4) in simp)
  have len64: "unat (of_nat len :: 64 word) = len" by (rule unat_of_nat_small) (use assms(4) in simp)
  have wide: "unat (ucast (of_nat len :: 32 word) :: 64 word) = len" by (simp add: unat_ucast_wider len)
  have al: "unat (NLMSG_ALIGN (of_nat len)) = (len + 3) div 4 * 4"
    using assms(4) len by (subst NLMSG_ALIGN_value) simp_all
  have "len < (len + 3) div 4 * 4" "(len + 3) div 4 * 4 \<le> len + 3" using assms(5) by presburger+
  then have "2 ^ 64 - 3 \<le> unat ?left"
    using len64 al assms(4) by (simp add: unat_sub_if' unat_ucast_wider)
  moreover have "\<not> (of_nat len :: 64 word) < 16" "\<not> (of_nat len :: 32 word) < 16"
      "\<not> (of_nat len :: 64 word) < ucast (of_nat len :: 32 word)"
    using len len64 wide assms(3) by (simp_all add: word_less_nat_alt)
  then have "processNetlinkTelegram nl user this buf len s =
      telegram_loop nl user this buf ((len + 3) div 4 * 4) ?left s1"
    using assms(1,2,6,7,8) al
    unfolding processNetlinkTelegram_def by (subst telegram_loop.simps) simp
  ultimately show ?thesis by blast
qed

text \<open>A telegram of 17 bytes in front of the rest of an older one: the event of the old message is delivered again.\<close>

definition stale_buffer :: "8 word list" where
  "stale_buffer = le32 17 @ le16 24 @ replicate 14 0 @ encode_message (NewLink eth_header
     \<lparr>ifi_family = 0, ifi_pad = 0, ifi_type = 1, ifi_index = 7, ifi_flags = 1, ifi_change = 1\<rparr> []) @ replicate 32 0"

theorem netlink_overruns_witness:
  "\<exists>left. processNetlinkTelegram demo_netlink_os log_event netlink_this stale_buffer 17 netlink_loop =
     telegram_loop demo_netlink_os log_event netlink_this stale_buffer 20 left netlink_loop \<and> 2 ^ 64 - 3 \<le> unat left"
proof -
  have "rd32 stale_buffer 0 = Some (of_nat 17)" "rd16 stale_buffer 4 = Some 24"
    by (rule read_back(2), simp add: stale_buffer_def holds_at_def)
      (rule read_back(1), simp add: stale_buffer_def holds_at_def)
  moreover have "seq (refresh_list demo_netlink_os netlink_loop)
      (process_message log_event netlink_this stale_buffer 0 (of_nat 17) 24) = (Ret 0, netlink_loop)"
    by (simp add: netlink_demo_defs refresh_list_def sys_def obj_def set_obj_def update_def process_message_def
        netlink_constants)
  ultimately show ?thesis
    using netlink_overruns [of stale_buffer 17 24 demo_netlink_os netlink_loop log_event netlink_this 0 netlink_loop]
    by (simp add: netlink_constants)
qed

end
