(* ===== verification/MulticastServer.thy ===== *)
theory MulticastServer
  imports LoopClient NetadapterList
begin

text \<open>
  \<open>lib/communication/linux/multicastserver.cpp\<close>: joining and leaving a multicast group per interface, sending over
  interfaces, receiving with the interface a telegram came from. The system calls are the record
  \<open>mc_os\<close>. The operations that only read the members take the object as a value and work on the world; \<open>start\<close>, \<open>stop\<close>
  and the setup functions assign members and take the pointer.
\<close>

section \<open>The data\<close>

text \<open>The socket options with their arguments; \<open>Mreq\<close> and \<open>Mreqn\<close> are \<open>ip_mreq\<close> and \<open>ip_mreqn\<close>.\<close>

datatype mreq = Mreq "32 word" "32 word" | Mreqn "32 word" int

datatype mc_option =
    RCVBUF int
  | REUSEADDR "32 word"
  | PKTINFO "32 word"
  | MULTICAST_LOOP "8 word"
  | MULTICAST_IF "32 word"
  | MULTICAST_IF_N int
  | MULTICAST_TTL "32 word"
  | ADD_MEMBERSHIP mreq
  | DROP_MEMBERSHIP mreq

text \<open>A control message: its type and the \<open>int\<close> its data begins with (for \<open>in_pktinfo\<close> the interface index).\<close>

record cmsg =
  cmsg_type :: int
  cmsg_int :: "32 word"

definition IP_TTL :: int where "IP_TTL = 2"
definition IP_PKTINFO :: int where "IP_PKTINFO = 8"

record sockaddr_in =
  sin_family :: nat
  sin_addr4 :: "32 word"
  sin_port :: "16 word"

text \<open>
  \<open>mc_getaddrinfo\<close> gets the group, the port text and the family wanted (0 is \<open>AF_UNSPEC\<close>) and returns family and
  address of the first result; \<open>mc_recvmsg\<close> returns the data, the sender and the control messages.
\<close>

record 'w mc_os =
  mc_getaddrinfo :: "string \<Rightarrow> string \<Rightarrow> nat \<Rightarrow> 'w \<Rightarrow> (nat \<times> 32 word) option \<times> 'w"
  mc_socket :: "nat \<Rightarrow> bool \<Rightarrow> 'w \<Rightarrow> int \<times> 'w"
  mc_setsockopt :: "int \<Rightarrow> mc_option \<Rightarrow> 'w \<Rightarrow> (errno + unit) \<times> 'w"
  mc_bind :: "int \<Rightarrow> sockaddr_in \<Rightarrow> 'w \<Rightarrow> int \<times> 'w"
  mc_sendto :: "int \<Rightarrow> 8 word list \<Rightarrow> sockaddr_in \<Rightarrow> 'w \<Rightarrow> (errno + nat) \<times> 'w"
  mc_recvmsg :: "int \<Rightarrow> nat \<Rightarrow> 'w \<Rightarrow> (errno + 8 word list \<times> sockaddr_in \<times> cmsg list) \<times> 'w"
  mc_close :: "int \<Rightarrow> 'w \<Rightarrow> int \<times> 'w"
  mc_lib :: inet_lib
  mc_list :: "('w, NetadapterList) ref"

record 'd MulticastServer =
  m_mutlicastgroup :: string
  m_port :: "32 word"
  m_receiveEvent :: int
  m_sendEvent :: int
  m_receiveAddr :: sockaddr_in
  m_dataHandler :: "'d option"

definition ERR_SUCCESS :: int where "ERR_SUCCESS = 0"
definition ERR_NO_SUCCESS :: int where "ERR_NO_SUCCESS = - 1"
definition ERR_INVALIDADAPTER :: int where "ERR_INVALIDADAPTER = - 2"
definition ERR_INVALIDIPADDRESS :: int where "ERR_INVALIDIPADDRESS = - 3"

lemmas send_errors = ERR_SUCCESS_def ERR_NO_SUCCESS_def ERR_INVALIDADAPTER_def ERR_INVALIDIPADDRESS_def

definition MulticastServer_ctor :: "'d MulticastServer" where
  "MulticastServer_ctor = \<lparr>m_mutlicastgroup = [], m_port = 0, m_receiveEvent = - 1, m_sendEvent = - 1,
     m_receiveAddr = \<lparr>sin_family = 0, sin_addr4 = 0, sin_port = 0\<rparr>, m_dataHandler = None\<rparr>"

text \<open>\<open>htons\<close> on a little endian host.\<close>

definition htons :: "16 word \<Rightarrow> 16 word" where
  "htons p = push_bit 8 p OR drop_bit 8 p"

text \<open>\<open>sprintf(portString, "%u", m_port)\<close> into 8 characters.\<close>

definition portString :: "32 word \<Rightarrow> string option" where
  "portString port = (let t = to_string (unat port) in if length t + 1 \<le> 8 then Some t else None)"

section \<open>Group membership\<close>

text \<open>The result of the socket option as both variants of \<open>dropOrAddInterface\<close> interpret it.\<close>

definition membership_result :: "bool \<Rightarrow> (errno + unit) \<Rightarrow> int" where
  "membership_result add result =
     (case result of
        Inr _ \<Rightarrow> 1
      | Inl errno \<Rightarrow> if add then (if errno = EADDRINUSE then 0 else - 1)
                    else (if errno = EADDRNOTAVAIL then 0 else - 1))"

definition dropOrAddInterface_addr :: "'w mc_os \<Rightarrow> 'd MulticastServer \<Rightarrow> string \<Rightarrow> bool \<Rightarrow> 'w \<Rightarrow> outcome \<times> 'w" where
  "dropOrAddInterface_addr mc self interfaceAddress add w =
     (case portString (m_port self) of
        None \<Rightarrow> (Throw UndefinedBehaviour, w)
      | Some port \<Rightarrow>
          (case mc_getaddrinfo mc (m_mutlicastgroup self) port AF_INET w of
             (None, w) \<Rightarrow> (Ret (- 1), w)
           | (Some (family, multiaddr), w) \<Rightarrow>
               if family \<noteq> AF_INET then (Ret (- 1), w)
               else (case inet_aton (mc_lib mc) interfaceAddress of
                  None \<Rightarrow> (Ret (- 1), w)
                | Some iface \<Rightarrow>
                    (let im = Mreq multiaddr iface;
                         optionName = (if add then ADD_MEMBERSHIP im else DROP_MEMBERSHIP im);
                         (retVal, w) = mc_setsockopt mc (m_receiveEvent self) optionName w in
                     (Ret (membership_result add retVal), w)))))"

definition dropOrAddInterface_index :: "'w mc_os \<Rightarrow> 'd MulticastServer \<Rightarrow> 32 word \<Rightarrow> bool \<Rightarrow> 'w \<Rightarrow> outcome \<times> 'w" where
  "dropOrAddInterface_index mc self interfaceIndex add w =
     (case portString (m_port self) of
        None \<Rightarrow> (Throw UndefinedBehaviour, w)
      | Some port \<Rightarrow>
          (case mc_getaddrinfo mc (m_mutlicastgroup self) port AF_INET w of
             (None, w) \<Rightarrow> (Ret (- 1), w)
           | (Some (family, multiaddr), w) \<Rightarrow>
               if family \<noteq> AF_INET then (Ret (- 1), w)
               else (let im = Mreqn multiaddr (sint interfaceIndex);
                         optionName = (if add then ADD_MEMBERSHIP im else DROP_MEMBERSHIP im);
                         (retVal, w) = mc_setsockopt mc (m_receiveEvent self) optionName w in
                     (Ret (membership_result add retVal), w))))"

definition dropInterface_addr where "dropInterface_addr mc self addr w = dropOrAddInterface_addr mc self addr False w"
definition dropInterface_index where "dropInterface_index mc self i w = dropOrAddInterface_index mc self i False w"
definition addInterface_addr where "addInterface_addr mc self addr w = dropOrAddInterface_addr mc self addr True w"
definition addInterface_index where "addInterface_index mc self i w = dropOrAddInterface_index mc self i True w"

text \<open>The loops over all adapters ignore the results.\<close>

fun interface_loop :: "('w mc_os \<Rightarrow> 'd MulticastServer \<Rightarrow> 32 word \<Rightarrow> 'w \<Rightarrow> outcome \<times> 'w) \<Rightarrow> 'w mc_os \<Rightarrow>
    'd MulticastServer \<Rightarrow> adapters \<Rightarrow> 'w \<Rightarrow> outcome \<times> 'w" where
  "interface_loop change mc self [] w = (Ret 0, w)"
| "interface_loop change mc self (iter # rest) w =
     (case change mc self (m_index (snd iter)) w of
        (Throw ex, w) \<Rightarrow> (Throw ex, w)
      | (Ret _, w) \<Rightarrow> interface_loop change mc self rest w)"

definition addAllInterfaces :: "'w mc_os \<Rightarrow> 'd MulticastServer \<Rightarrow> 'w \<Rightarrow> outcome \<times> 'w" where
  "addAllInterfaces mc self w =
     interface_loop addInterface_index mc self (get_adapters (deref (mc_list mc) w)) w"

definition dropAllInterfaces :: "'w mc_os \<Rightarrow> 'd MulticastServer \<Rightarrow> 'w \<Rightarrow> outcome \<times> 'w" where
  "dropAllInterfaces mc self w =
     interface_loop dropInterface_index mc self (get_adapters (deref (mc_list mc) w)) w"

section \<open>Sending\<close>

text \<open>Data with its length: a null pointer comes with a length too.\<close>

datatype buffer = Null nat | Data "8 word list"

fun buffer_length :: "buffer \<Rightarrow> nat" where
  "buffer_length (Null n) = n"
| "buffer_length (Data bs) = length bs"

text \<open>The common end of the senders by address and by index: hop limit, destination and the datagram.\<close>

definition send_datagram :: "'w mc_os \<Rightarrow> 'd MulticastServer \<Rightarrow> 8 word list \<Rightarrow> 32 word \<Rightarrow> 'w \<Rightarrow> int \<times> 'w" where
  "send_datagram mc self data ttl w =
     (case mc_setsockopt mc (m_sendEvent self) (MULTICAST_TTL ttl) w of
        (Inl _, w) \<Rightarrow> (ERR_NO_SUCCESS, w)
      | (Inr _, w) \<Rightarrow>
          (case inet_aton (mc_lib mc) (m_mutlicastgroup self) of
             None \<Rightarrow> (ERR_NO_SUCCESS, w)
           | Some multiaddr \<Rightarrow>
               (case mc_sendto mc (m_sendEvent self) data
                   \<lparr>sin_family = AF_INET, sin_addr4 = multiaddr, sin_port = htons (ucast (m_port self))\<rparr> w of
                  (Inl _, w) \<Rightarrow> (ERR_NO_SUCCESS, w)
                | (Inr nbytes, w) \<Rightarrow>
                    (if nbytes \<noteq> length data then ERR_NO_SUCCESS else ERR_SUCCESS, w))))"

definition sendOverInterfaceByAddress :: "'w mc_os \<Rightarrow> 'd MulticastServer \<Rightarrow> string \<Rightarrow> buffer \<Rightarrow> 32 word \<Rightarrow>
    'w \<Rightarrow> int \<times> 'w" where
  "sendOverInterfaceByAddress mc self interfaceIp pData ttl w =
     (case pData of
        Null n \<Rightarrow> (if 0 < n then ERR_NO_SUCCESS else ERR_SUCCESS, w)
      | Data data \<Rightarrow>
          (case inet_aton (mc_lib mc) interfaceIp of
             None \<Rightarrow> (ERR_INVALIDIPADDRESS, w)
           | Some ifAddr \<Rightarrow>
               (case mc_setsockopt mc (m_sendEvent self) (MULTICAST_IF ifAddr) w of
                  (Inl _, w) \<Rightarrow> (ERR_INVALIDADAPTER, w)
                | (Inr _, w) \<Rightarrow> send_datagram mc self data ttl w)))"

definition sendOverInterfaceByAddress_str :: "'w mc_os \<Rightarrow> 'd MulticastServer \<Rightarrow> string \<Rightarrow> 8 word list \<Rightarrow> 32 word \<Rightarrow>
    'w \<Rightarrow> int \<times> 'w" where
  "sendOverInterfaceByAddress_str mc self interfaceIp data ttl w =
     (if data = [] then (ERR_SUCCESS, w)
      else sendOverInterfaceByAddress mc self interfaceIp (Data data) ttl w)"

definition sendOverInterfaceByIndex :: "'w mc_os \<Rightarrow> 'd MulticastServer \<Rightarrow> 32 word \<Rightarrow> buffer \<Rightarrow> 32 word \<Rightarrow>
    'w \<Rightarrow> int \<times> 'w" where
  "sendOverInterfaceByIndex mc self interfaceIndex pData ttl w =
     (case pData of
        Null n \<Rightarrow> (if 0 < n then ERR_NO_SUCCESS else ERR_SUCCESS, w)
      | Data data \<Rightarrow>
          (case mc_setsockopt mc (m_sendEvent self) (MULTICAST_IF_N (sint interfaceIndex)) w of
             (Inl _, w) \<Rightarrow> (ERR_INVALIDADAPTER, w)
           | (Inr _, w) \<Rightarrow> send_datagram mc self data ttl w))"

definition sendOverInterfaceByIndex_str :: "'w mc_os \<Rightarrow> 'd MulticastServer \<Rightarrow> 32 word \<Rightarrow> 8 word list \<Rightarrow> 32 word \<Rightarrow>
    'w \<Rightarrow> int \<times> 'w" where
  "sendOverInterfaceByIndex_str mc self interfaceIndex data ttl w =
     (if data = [] then (ERR_SUCCESS, w)
      else sendOverInterfaceByIndex mc self interfaceIndex (Data data) ttl w)"

text \<open>Sending over an adapter object uses its first IPv4 address; the overload on a string uses its index.\<close>

definition sendOverInterface :: "'w mc_os \<Rightarrow> 'd MulticastServer \<Rightarrow> Netadapter \<Rightarrow> buffer \<Rightarrow> 32 word \<Rightarrow>
    'w \<Rightarrow> int \<times> 'w" where
  "sendOverInterface mc self adapter pData ttl w =
     (if 0 < buffer_length pData then
        (case pData of
           Null n \<Rightarrow> (ERR_NO_SUCCESS, w)
         | Data data \<Rightarrow>
             (case m_ipv4Addresses adapter of
                [] \<Rightarrow> (ERR_INVALIDADAPTER, w)
              | front # _ \<Rightarrow> sendOverInterfaceByAddress mc self (address front) pData ttl w))
      else (ERR_SUCCESS, w))"

definition sendOverInterface_str :: "'w mc_os \<Rightarrow> 'd MulticastServer \<Rightarrow> Netadapter \<Rightarrow> 8 word list \<Rightarrow> 32 word \<Rightarrow>
    'w \<Rightarrow> int \<times> 'w" where
  "sendOverInterface_str mc self adapter data ttl w =
     sendOverInterfaceByIndex_str mc self (m_index adapter) data ttl w"

text \<open>The overloads on an interface index look the adapter up; the exception of a missing one is caught.\<close>

definition sendOverInterface_at :: "'w mc_os \<Rightarrow> 'd MulticastServer \<Rightarrow> 32 word \<Rightarrow> buffer \<Rightarrow> 32 word \<Rightarrow>
    'w \<Rightarrow> int \<times> 'w" where
  "sendOverInterface_at mc self interfaceIndex pData ttl w =
     (if (case pData of Null _ \<Rightarrow> True | Data _ \<Rightarrow> False) then (0, w)
      else case getAdapterByInterfaceIndex (deref (mc_list mc) w) interfaceIndex of
        Inl _ \<Rightarrow> (ERR_INVALIDADAPTER, w)
      | Inr adapter \<Rightarrow> sendOverInterface mc self adapter pData ttl w)"

definition sendOverInterface_at_str :: "'w mc_os \<Rightarrow> 'd MulticastServer \<Rightarrow> 32 word \<Rightarrow> 8 word list \<Rightarrow> 32 word \<Rightarrow>
    'w \<Rightarrow> int \<times> 'w" where
  "sendOverInterface_at_str mc self interfaceIndex data ttl w =
     (if data = [] then (0, w)
      else case getAdapterByInterfaceIndex (deref (mc_list mc) w) interfaceIndex of
        Inl _ \<Rightarrow> (ERR_INVALIDADAPTER, w)
      | Inr adapter \<Rightarrow> sendOverInterface_str mc self adapter data ttl w)"

fun send_loop :: "'w mc_os \<Rightarrow> 'd MulticastServer \<Rightarrow> buffer \<Rightarrow> 32 word \<Rightarrow> adapters \<Rightarrow> int \<Rightarrow> 'w \<Rightarrow> int \<times> 'w" where
  "send_loop mc self pData ttl [] retVal w = (retVal, w)"
| "send_loop mc self pData ttl (iter # rest) retVal w =
     (case sendOverInterface mc self (snd iter) pData ttl w of
        (retValIntern, w) \<Rightarrow>
          send_loop mc self pData ttl rest (if retValIntern \<noteq> 0 then retValIntern else retVal) w)"

definition send_all :: "'w mc_os \<Rightarrow> 'd MulticastServer \<Rightarrow> buffer \<Rightarrow> 32 word \<Rightarrow> 'w \<Rightarrow> int \<times> 'w" where
  "send_all mc self pData ttl w = send_loop mc self pData ttl (get_adapters (deref (mc_list mc) w)) 0 w"

definition send_all_str :: "'w mc_os \<Rightarrow> 'd MulticastServer \<Rightarrow> 8 word list \<Rightarrow> 32 word \<Rightarrow> 'w \<Rightarrow> int \<times> 'w" where
  "send_all_str mc self data ttl w = send_all mc self (Data data) ttl w"

section \<open>Receiving\<close>

text \<open>The loop over the control messages; later messages overwrite earlier ones.\<close>

fun cmsg_loop :: "cmsg list \<Rightarrow> 32 word \<Rightarrow> int \<Rightarrow> 32 word \<times> int" where
  "cmsg_loop [] adapterIndex ttl = (adapterIndex, ttl)"
| "cmsg_loop (c # rest) adapterIndex ttl =
     (if cmsg_type c = IP_PKTINFO then cmsg_loop rest (cmsg_int c) ttl
      else if cmsg_type c = IP_TTL then cmsg_loop rest adapterIndex (sint (cmsg_int c))
      else cmsg_loop rest adapterIndex ttl)"

text \<open>
  \<open>receiveTelegram\<close> with the index of the interface. The result holds \<open>nbytes\<close>, the data, the index, the hop limit
  and the object, whose \<open>m_receiveAddr\<close> receives the sender.
\<close>

record telegram =
  nbytes :: int
  msgbuf :: "8 word list"
  adapterIndex :: "32 word"
  telegram_ttl :: int

definition receiveTelegram_index :: "'w mc_os \<Rightarrow> 'd MulticastServer \<Rightarrow> nat \<Rightarrow> 'w \<Rightarrow>
    telegram \<times> 'd MulticastServer \<times> 'w" where
  "receiveTelegram_index mc self len w =
     (case mc_recvmsg mc (m_receiveEvent self) len w of
        (Inl _, w) \<Rightarrow> (\<lparr>nbytes = - 1, msgbuf = [], adapterIndex = 0, telegram_ttl = 1\<rparr>, self, w)
      | (Inr (data, sender, cmsgs), w) \<Rightarrow>
          (let (i, ttl) = (if data \<noteq> [] then cmsg_loop cmsgs 0 1 else (0, 1)) in
           (\<lparr>nbytes = int (length data), msgbuf = data, adapterIndex = i, telegram_ttl = ttl\<rparr>,
            self\<lparr>m_receiveAddr := sender\<rparr>, w)))"

text \<open>
  The overloads that name the adapter: \<open>adapter\<close> and \<open>adapterName\<close> keep their old value unless a telegram came
  from a known interface.
\<close>

definition receiveTelegram :: "'w mc_os \<Rightarrow> 'd MulticastServer \<Rightarrow> nat \<Rightarrow> Netadapter \<Rightarrow> 'w \<Rightarrow>
    (telegram \<times> Netadapter) \<times> 'd MulticastServer \<times> 'w" where
  "receiveTelegram mc self len adapter w =
     (case receiveTelegram_index mc self len w of
        (t, self, w) \<Rightarrow>
          if 0 < nbytes t then
            (case getAdapterByInterfaceIndex (deref (mc_list mc) w) (adapterIndex t) of
               Inl _ \<Rightarrow> ((t\<lparr>nbytes := - 1\<rparr>, adapter), self, w)
             | Inr a \<Rightarrow> ((t, a), self, w))
          else ((t, adapter), self, w))"

definition receiveTelegram_name :: "'w mc_os \<Rightarrow> 'd MulticastServer \<Rightarrow> nat \<Rightarrow> string \<Rightarrow> 'w \<Rightarrow>
    (telegram \<times> string) \<times> 'd MulticastServer \<times> 'w" where
  "receiveTelegram_name mc self len adapterName w =
     (case receiveTelegram_index mc self len w of
        (t, self, w) \<Rightarrow>
          if 0 < nbytes t then
            (case getAdapterByInterfaceIndex (deref (mc_list mc) w) (adapterIndex t) of
               Inl _ \<Rightarrow> ((t\<lparr>nbytes := - 1\<rparr>, adapterName), self, w)
             | Inr a \<Rightarrow> ((t, m_name a), self, w))
          else ((t, adapterName), self, w))"

section \<open>Start and stop\<close>

definition setMulticastLoop :: "'w mc_os \<Rightarrow> 'd MulticastServer \<Rightarrow> bool \<Rightarrow> 'w \<Rightarrow> int \<times> 'w" where
  "setMulticastLoop mc self val w =
     (let param = (if val then 1 else 0) in
      case mc_setsockopt mc (m_sendEvent self) (MULTICAST_LOOP param) w of
        (Inl _, w) \<Rightarrow> (- 1, w)
      | (Inr _, w) \<Rightarrow> (0, w))"

definition setupSendSocket :: "'w mc_os \<Rightarrow> ('w, 'd MulticastServer) ref \<Rightarrow> ('h, 'w) EventLoop \<Rightarrow>
    int \<times> ('h, 'w) EventLoop" where
  "setupSendSocket mc this s =
     (let (fd, s) = sys (mc_socket mc AF_INET False) s;
          s = set_obj this ((obj this s)\<lparr>m_sendEvent := fd\<rparr>) s in
      if fd < 0 then (- 1, set_obj this ((obj this s)\<lparr>m_sendEvent := - 1\<rparr>) s)
      else let (_, s) = sys (setMulticastLoop mc (obj this s) False) s in (0, s))"

text \<open>The options of the receiving socket, set in order until one fails.\<close>

fun set_receive_options :: "'w mc_os \<Rightarrow> int \<Rightarrow> mc_option list \<Rightarrow> 'w \<Rightarrow> int \<times> 'w" where
  "set_receive_options mc fd [] w = (0, w)"
| "set_receive_options mc fd (opt # rest) w =
     (case mc_setsockopt mc fd opt w of
        (Inl _, w) \<Rightarrow> (- 1, w)
      | (Inr _, w) \<Rightarrow> set_receive_options mc fd rest w)"

definition setupReceiveSocket :: "'w mc_os \<Rightarrow> ('w, 'd MulticastServer) ref \<Rightarrow> ('h, 'w) EventLoop \<Rightarrow>
    outcome \<times> ('h, 'w) EventLoop" where
  "setupReceiveSocket mc this s =
     (case portString (m_port (obj this s)) of
        None \<Rightarrow> (Throw UndefinedBehaviour, s)
      | Some port \<Rightarrow>
          (case sys (mc_getaddrinfo mc (m_mutlicastgroup (obj this s)) port 0) s of
             (None, s) \<Rightarrow> (Ret (- 1), s)
           | (Some (family, _), s) \<Rightarrow>
               (let (fd, s) = sys (mc_socket mc family True) s;
                    fd = (if fd < 0 then - 1 else fd);
                    addr = \<lparr>sin_family = family, sin_addr4 = 0, sin_port = htons (ucast (m_port (obj this s)))\<rparr>;
                    s = set_obj this ((obj this s)\<lparr>m_receiveEvent := fd, m_receiveAddr := addr\<rparr>) s in
                if fd < 0 then (Ret (- 1), s)
                else let (r, s) = sys (set_receive_options mc fd [RCVBUF 128000, REUSEADDR 1, PKTINFO 1]) s in
                  if r < 0 then (Ret (- 1), s)
                  else let (r, s) = sys (mc_bind mc fd addr) s in
                    if r < 0 then (Ret (- 1), s) else (Ret 0, s))))"

definition MulticastServer_process :: "('d \<Rightarrow> ('h, 'w) EventLoop \<Rightarrow> outcome \<times> ('h, 'w) EventLoop) \<Rightarrow>
    ('w, 'd MulticastServer) ref \<Rightarrow> ('h, 'w) EventLoop \<Rightarrow> outcome \<times> ('h, 'w) EventLoop" where
  "MulticastServer_process user this s =
     (case m_dataHandler (obj this s) of
        Some d \<Rightarrow> user d s
      | None \<Rightarrow> (Ret (- 1), s))"

definition MulticastServer_start :: "'w mc_os \<Rightarrow> 'w epoll_os \<Rightarrow> ('h, ('h, 'w) EventLoop) runner \<Rightarrow> 'h \<Rightarrow>
    string \<Rightarrow> 32 word \<Rightarrow> 'd option \<Rightarrow> ('w, 'd MulticastServer) ref \<Rightarrow> ('h, 'w) EventLoop \<Rightarrow>
    (outcome \<times> ('h, 'w) EventLoop) option" where
  "MulticastServer_start mc os run h multicastGroup port dataHandler this s =
     (let s = set_obj this ((obj this s)\<lparr>m_mutlicastgroup := multicastGroup, m_port := port\<rparr>) s;
          (err, s) = setupSendSocket mc this s in
      if err < 0 then Some (Ret err, s)
      else andThen (Some (setupReceiveSocket mc this s)) (\<lambda>err s.
        if err < 0 then Some (Ret err, s)
        else let s = set_obj this ((obj this s)\<lparr>m_dataHandler := dataHandler\<rparr>) s in
          if dataHandler \<noteq> None
          then andThen (addEvent os run (m_receiveEvent (obj this s)) (Some h) s) (\<lambda>_ s. Some (Ret 0, s))
          else Some (Ret 0, s)))"

definition MulticastServer_stop :: "'w mc_os \<Rightarrow> 'w epoll_os \<Rightarrow> ('w, 'd MulticastServer) ref \<Rightarrow>
    ('h, 'w) EventLoop \<Rightarrow> outcome \<times> ('h, 'w) EventLoop" where
  "MulticastServer_stop mc os this s =
     (let (_, s) = eraseEvent os (m_receiveEvent (obj this s)) s;
          s = (if m_sendEvent (obj this s) \<noteq> - 1 then
                 (let (_, s) = sys (mc_close mc (m_sendEvent (obj this s))) s
                  in set_obj this ((obj this s)\<lparr>m_sendEvent := - 1\<rparr>) s)
               else s) in
      if m_receiveEvent (obj this s) \<noteq> - 1 then
        (case sys (dropAllInterfaces mc (obj this s)) s of
           (Throw ex, s) \<Rightarrow> (Throw ex, s)
         | (Ret _, s) \<Rightarrow>
             (let (_, s) = sys (mc_close mc (m_receiveEvent (obj this s))) s
              in (Ret 0, set_obj this ((obj this s)\<lparr>m_receiveEvent := - 1\<rparr>) s)))
      else (Ret 0, s))"

definition MulticastServer_dtor :: "'w mc_os \<Rightarrow> 'w epoll_os \<Rightarrow> ('w, 'd MulticastServer) ref \<Rightarrow>
    ('h, 'w) EventLoop \<Rightarrow> outcome \<times> ('h, 'w) EventLoop" where
  "MulticastServer_dtor mc os this s = MulticastServer_stop mc os this s"

end
