(* ===== verification/MulticastBehaviour.thy ===== *)
theory MulticastBehaviour
  imports MulticastServer
begin

text \<open>
  What the multicast server promises: the directory of adapters as an interface, the group memberships in the kernel,
  the datagrams sent, the adapter of a received telegram, and stopping.
\<close>

section \<open>The directory of adapters\<close>

text \<open>
  What the server needs of the list of adapters: the entries, and looking one up by its index. Both agree.
\<close>

locale adapter_directory =
  fixes valid :: "'l \<Rightarrow> bool"
    and entries :: "'l \<Rightarrow> Netadapter list"
    and by_index :: "'l \<Rightarrow> 32 word \<Rightarrow> cxx_exception + Netadapter"
  assumes lookup_entry: "valid l \<Longrightarrow> by_index l i = Inr a \<Longrightarrow> a \<in> set (entries l) \<and> m_index a = i"
    and entry_lookup: "valid l \<Longrightarrow> a \<in> set (entries l) \<Longrightarrow> by_index l (m_index a) = Inr a"
begin

lemma lookup_iff: "valid l \<Longrightarrow> by_index l i = Inr a \<longleftrightarrow> a \<in> set (entries l) \<and> m_index a = i"
  using lookup_entry entry_lookup by blast

lemma unknown_index: "valid l \<Longrightarrow> by_index l i = Inl e \<Longrightarrow> a \<in> set (entries l) \<Longrightarrow> m_index a \<noteq> i"
  using entry_lookup by fastforce

lemma index_unique: "valid l \<Longrightarrow> a \<in> set (entries l) \<Longrightarrow> b \<in> set (entries l) \<Longrightarrow> m_index a = m_index b \<Longrightarrow> a = b"
  using entry_lookup by (metis sum.inject(2))

end

lemma getArray_map: "getArray l = map snd (m_adapters l)"
proof -
  have "foldl (\<lambda>result iter. result @ [snd iter]) acc m = acc @ map snd m" for acc and m :: adapters
    by (induction m arbitrary: acc) simp_all
  then show ?thesis by (simp add: getArray_def)
qed

interpretation adapter_list: adapter_directory
  "\<lambda>l. indexed (m_adapters l)" getArray getAdapterByInterfaceIndex
proof unfold_locales
  fix l i a
  assume "indexed (m_adapters l)" "getAdapterByInterfaceIndex l i = Inr a"
  then show "a \<in> set (getArray l) \<and> m_index a = i"
    by (auto simp: getAdapterByInterfaceIndex_def getArray_map indexed_def
        split: option.splits dest!: smap_find_SomeD) (metis image_eqI snd_conv)
next
  fix l a
  assume ok: "indexed (m_adapters l)" and "a \<in> set (getArray l)"
  then obtain k where k: "(k, a) \<in> set (m_adapters l)" by (auto simp: getArray_map)
  then have "m_index a = k" "smap_find (m_adapters l) k = Some a"
    using ok smap_ok_distinct [of "m_adapters l"]
    by (auto simp: indexed_def smap_find_def intro!: map_of_is_SomeI)
  then show "getAdapterByInterfaceIndex l (m_index a) = Inr a" by (simp add: getAdapterByInterfaceIndex_def)
qed

section \<open>Memberships\<close>

text \<open>
  The documented option: joining adds the membership or fails with \<open>EADDRINUSE\<close> when it exists, leaving removes it or
  fails with \<open>EADDRNOTAVAIL\<close>; any other failure changes nothing.
\<close>

definition membership_laws :: "'w mc_os \<Rightarrow> int \<Rightarrow> ('w \<Rightarrow> mreq set) \<Rightarrow> bool" where
  "membership_laws mc fd members \<longleftrightarrow>
     (\<forall>m w x w'. mc_setsockopt mc fd (ADD_MEMBERSHIP m) w = (x, w') \<longrightarrow>
        (x = Inr () \<and> m \<notin> members w \<and> members w' = insert m (members w)) \<or>
        (x = Inl EADDRINUSE \<and> m \<in> members w \<and> members w' = members w) \<or>
        (\<exists>e. x = Inl e \<and> e \<noteq> EADDRINUSE \<and> members w' = members w)) \<and>
     (\<forall>m w x w'. mc_setsockopt mc fd (DROP_MEMBERSHIP m) w = (x, w') \<longrightarrow>
        (x = Inr () \<and> m \<in> members w \<and> members w' = members w - {m}) \<or>
        (x = Inl EADDRNOTAVAIL \<and> m \<notin> members w \<and> members w' = members w) \<or>
        (\<exists>e. x = Inl e \<and> e \<noteq> EADDRNOTAVAIL \<and> members w' = members w))"

lemma membership_lawsD:
  assumes "membership_laws mc fd members"
  shows "mc_setsockopt mc fd (ADD_MEMBERSHIP m) w = (x, w') \<Longrightarrow>
      (x = Inr () \<and> m \<notin> members w \<and> members w' = insert m (members w)) \<or>
      (x = Inl EADDRINUSE \<and> m \<in> members w \<and> members w' = members w) \<or>
      (\<exists>e. x = Inl e \<and> e \<noteq> EADDRINUSE \<and> members w' = members w)"
    and "mc_setsockopt mc fd (DROP_MEMBERSHIP m) w = (x, w') \<Longrightarrow>
      (x = Inr () \<and> m \<in> members w \<and> members w' = members w - {m}) \<or>
      (x = Inl EADDRNOTAVAIL \<and> m \<notin> members w \<and> members w' = members w) \<or>
      (\<exists>e. x = Inl e \<and> e \<noteq> EADDRNOTAVAIL \<and> members w' = members w)"
  using assms unfolding membership_laws_def by blast+

text \<open>The group resolves to an IPv4 address, resolving has no effect on memberships and the list.\<close>

definition resolves :: "'w mc_os \<Rightarrow> 'd MulticastServer \<Rightarrow> 32 word \<Rightarrow> ('w \<Rightarrow> mreq set) \<Rightarrow> bool" where
  "resolves mc self g members \<longleftrightarrow> (\<exists>port. portString (m_port self) = Some port \<and>
     (\<forall>w. fst (mc_getaddrinfo mc (m_mutlicastgroup self) port AF_INET w) = Some (AF_INET, g) \<and>
        members (snd (mc_getaddrinfo mc (m_mutlicastgroup self) port AF_INET w)) = members w))"

text \<open>What a call for one interface does to the memberships.\<close>

definition membership_change :: "bool \<Rightarrow> mreq \<Rightarrow> int \<Rightarrow> mreq set \<Rightarrow> mreq set \<Rightarrow> bool" where
  "membership_change add m r old new \<longleftrightarrow>
     (r = 1 \<and> (m \<in> old) = (\<not> add) \<and> new = (if add then insert m old else old - {m})) \<or>
     (r = 0 \<and> (m \<in> old) = add \<and> new = old) \<or>
     (r = - 1 \<and> new = old)"

lemma dropOrAdd_step:
  assumes "resolves mc self g members"
  shows "\<exists>w1 x w2. members w1 = members w \<and>
    mc_setsockopt mc (m_receiveEvent self)
      (if add then ADD_MEMBERSHIP (Mreqn g (sint i)) else DROP_MEMBERSHIP (Mreqn g (sint i))) w1 = (x, w2) \<and>
    dropOrAddInterface_index mc self i add w = (Ret (membership_result add x), w2)"
proof -
  obtain port w1 where port: "portString (m_port self) = Some port"
    and w1: "mc_getaddrinfo mc (m_mutlicastgroup self) port AF_INET w = (Some (AF_INET, g), w1)" "members w1 = members w"
    using assms unfolding resolves_def by (metis prod.collapse)
  obtain x w2 where "mc_setsockopt mc (m_receiveEvent self)
      (if add then ADD_MEMBERSHIP (Mreqn g (sint i)) else DROP_MEMBERSHIP (Mreqn g (sint i))) w1 = (x, w2)" by fastforce
  then show ?thesis using port w1 by (auto simp: dropOrAddInterface_index_def Let_def)
qed

lemma membership_result_change:
  assumes "membership_laws mc fd members" and "members w1 = members w"
    and "mc_setsockopt mc fd (if add then ADD_MEMBERSHIP m else DROP_MEMBERSHIP m) w1 = (x, w2)"
  shows "membership_change add m (membership_result add x) (members w) (members w2)"
proof (cases add)
  case True
  then show ?thesis
    using membership_lawsD(1) [OF assms(1), of m w1 x w2] assms(2,3)
    by (auto simp: membership_change_def membership_result_def)
next
  case False
  then show ?thesis
    using membership_lawsD(2) [OF assms(1), of m w1 x w2] assms(2,3)
    by (auto simp: membership_change_def membership_result_def)
qed

text \<open>
  The calls that may fail for another reason than the existing or missing membership, such as an interface that is gone
  (\<open>ENODEV\<close>) or a limit (\<open>ENOBUFS\<close>), are those for the memberships \<open>unreliable\<close>.
\<close>

definition membership_failures :: "'w mc_os \<Rightarrow> int \<Rightarrow> mreq set \<Rightarrow> bool" where
  "membership_failures mc fd unreliable \<longleftrightarrow>
     (\<forall>m w e. fst (mc_setsockopt mc fd (ADD_MEMBERSHIP m) w) = Inl e \<longrightarrow> e = EADDRINUSE \<or> m \<in> unreliable) \<and>
     (\<forall>m w e. fst (mc_setsockopt mc fd (DROP_MEMBERSHIP m) w) = Inl e \<longrightarrow> e = EADDRNOTAVAIL \<or> m \<in> unreliable)"

definition mc_keeps :: "'w mc_os \<Rightarrow> ('w, 'o) ref \<Rightarrow> bool" where
  "mc_keeps mc this \<longleftrightarrow>
     (\<forall>g p f. keeps this (mc_getaddrinfo mc g p f)) \<and> (\<forall>fd opt. keeps this (mc_setsockopt mc fd opt)) \<and>
     (\<forall>fd. keeps this (mc_close mc fd))"

lemma mc_keepsD:
  assumes "mc_keeps mc this"
  shows "deref this (snd (mc_getaddrinfo mc g p f w)) = deref this w"
    "deref this (snd (mc_setsockopt mc fd opt w)) = deref this w" "keeps this (mc_close mc fd)"
  using assms by (simp_all add: mc_keeps_def deref_keeps)

lemma dropOrAdd_keeps:
  "mc_keeps mc this \<Longrightarrow> deref this (snd (dropOrAddInterface_index mc self i add w)) = deref this w"
  by (simp add: dropOrAddInterface_index_def Let_def split_beta mc_keepsD split: option.split)

lemma interface_loop_keeps:
  assumes "\<And>i w. deref this (snd (change mc self i w)) = deref this w"
  shows "deref this (snd (interface_loop change mc self m w)) = deref this w"
proof (induction m arbitrary: w)
  case (Cons iter rest)
  obtain x w1 where x: "change mc self (m_index (snd iter)) w = (x, w1)" by fastforce
  then have "deref this w1 = deref this w" using assms [of "m_index (snd iter)" w] by simp
  then show ?case using Cons x by (cases x) simp_all
qed simp

text \<open>The memberships after a loop: each one requested is reached, if it is reliable, and no other one changes.\<close>

definition memberships_reached :: "bool \<Rightarrow> mreq set \<Rightarrow> mreq set \<Rightarrow> mreq set \<Rightarrow> mreq set \<Rightarrow> bool" where
  "memberships_reached add unreliable ms old new \<longleftrightarrow>
     (if add then old \<subseteq> new \<and> new \<subseteq> old \<union> ms \<and> ms - unreliable \<subseteq> new
      else new \<subseteq> old \<and> old - ms \<subseteq> new \<and> new \<inter> ms \<subseteq> unreliable)"

lemma memberships_reached_step:
  assumes "membership_change add m r old mid" and "r = - 1 \<longrightarrow> m \<in> unreliable"
    and "memberships_reached add unreliable ms mid new"
  shows "memberships_reached add unreliable (insert m ms) old new"
  using assms by (cases add) (auto simp: membership_change_def memberships_reached_def)

lemma interface_loop_changes:
  assumes laws: "membership_laws mc (m_receiveEvent self) members" "resolves mc self g members"
    "membership_failures mc (m_receiveEvent self) unreliable"
    and change: "change = (\<lambda>mc self i. dropOrAddInterface_index mc self i add)"
  shows "\<exists>w'. interface_loop change mc self m w = (Ret 0, w') \<and>
    memberships_reached add unreliable ((\<lambda>e. Mreqn g (sint (m_index (snd e)))) ` set m) (members w) (members w')"
proof (induction m arbitrary: w)
  case (Cons iter rest)
  let ?m = "Mreqn g (sint (m_index (snd iter)))"
  obtain w0 x w1 where w0: "members w0 = members w"
      and x: "mc_setsockopt mc (m_receiveEvent self) (if add then ADD_MEMBERSHIP ?m else DROP_MEMBERSHIP ?m) w0 = (x, w1)"
      and w1: "dropOrAddInterface_index mc self (m_index (snd iter)) add w = (Ret (membership_result add x), w1)"
    using dropOrAdd_step [OF laws(2)] by blast
  have "fst (mc_setsockopt mc (m_receiveEvent self) (if add then ADD_MEMBERSHIP ?m else DROP_MEMBERSHIP ?m) w0) = x"
    using x by simp
  then have fails: "membership_result add x = - 1 \<longrightarrow> ?m \<in> unreliable"
    using laws(3) unfolding membership_failures_def by (cases x; cases add) (simp_all add: membership_result_def, blast+)
  obtain w' where w': "interface_loop change mc self rest w1 = (Ret 0, w')" "memberships_reached add unreliable
      ((\<lambda>e. Mreqn g (sint (m_index (snd e)))) ` set rest) (members w1) (members w')" using Cons [of w1] by blast
  have "memberships_reached add unreliable ((\<lambda>e. Mreqn g (sint (m_index (snd e)))) ` set (iter # rest)) (members w) (members w')"
    using memberships_reached_step [OF membership_result_change [OF laws(1) w0 x] fails w'(2)] by simp
  then show ?case using w1 w'(1) by (auto simp: change)
qed (simp add: change memberships_reached_def)

section \<open>Datagrams\<close>

text \<open>
  The sending socket as documented: \<open>IP_MULTICAST_IF\<close> and \<open>IP_MULTICAST_TTL\<close> select interface and hop limit of what is sent
  afterwards; a failing call changes nothing that is sent.
\<close>

record sent =
  sent_iface :: "32 word"
  sent_ttl :: "32 word"
  sent_to :: sockaddr_in
  sent_data :: "8 word list"

definition sender_laws :: "'w mc_os \<Rightarrow> int \<Rightarrow> ('w \<Rightarrow> 32 word) \<Rightarrow> ('w \<Rightarrow> 32 word) \<Rightarrow> ('w \<Rightarrow> sent list) \<Rightarrow> bool" where
  "sender_laws mc fd iface hops log \<longleftrightarrow>
     (\<forall>a w x w'. mc_setsockopt mc fd (MULTICAST_IF a) w = (x, w') \<longrightarrow> log w' = log w \<and>
        (x = Inr () \<longrightarrow> iface w' = a)) \<and>
     (\<forall>t w x w'. mc_setsockopt mc fd (MULTICAST_TTL t) w = (x, w') \<longrightarrow> log w' = log w \<and>
        (x = Inr () \<longrightarrow> hops w' = t \<and> iface w' = iface w)) \<and>
     (\<forall>b to w n w'. mc_sendto mc fd b to w = (Inr n, w') \<longrightarrow>
        log w' = log w @ [\<lparr>sent_iface = iface w, sent_ttl = hops w, sent_to = to, sent_data = take n b\<rparr>])"

lemma sender_lawsD:
  assumes "sender_laws mc fd iface hops log"
  shows "mc_setsockopt mc fd (MULTICAST_IF a) w = (Inr u, w') \<Longrightarrow> log w' = log w \<and> iface w' = a"
    and "mc_setsockopt mc fd (MULTICAST_TTL t) w = (Inr u, w') \<Longrightarrow> log w' = log w \<and> hops w' = t \<and> iface w' = iface w"
    and "mc_sendto mc fd b to w = (Inr n, w') \<Longrightarrow>
      log w' = log w @ [\<lparr>sent_iface = iface w, sent_ttl = hops w, sent_to = to, sent_data = take n b\<rparr>]"
  using assms by (auto simp: sender_laws_def)

text \<open>The datagram that sending over an adapter means.\<close>

definition adapter_datagram :: "'w mc_os \<Rightarrow> 'd MulticastServer \<Rightarrow> 8 word list \<Rightarrow> 32 word \<Rightarrow> Netadapter \<Rightarrow> sent" where
  "adapter_datagram mc self data ttl a =
     \<lparr>sent_iface = the (inet_aton (mc_lib mc) (address (hd (m_ipv4Addresses a)))), sent_ttl = ttl,
      sent_to = \<lparr>sin_family = AF_INET, sin_addr4 = the (inet_aton (mc_lib mc) (m_mutlicastgroup self)),
                 sin_port = htons (ucast (m_port self))\<rparr>, sent_data = data\<rparr>"

lemma sendOverInterface_sends:
  assumes laws: "sender_laws mc (m_sendEvent self) iface hops log" and "data \<noteq> []"
    and "sendOverInterface mc self a (Data data) ttl w = (0, w')"
  shows "log w' = log w @ [adapter_datagram mc self data ttl a]"
proof -
  obtain front rest where front: "m_ipv4Addresses a = front # rest"
    using assms(2,3) by (cases "m_ipv4Addresses a") (auto simp: sendOverInterface_def send_errors)
  then have send: "sendOverInterfaceByAddress mc self (address front) (Data data) ttl w = (0, w')"
    using assms(2,3) by (simp add: sendOverInterface_def)
  then obtain ip w1 where ip: "inet_aton (mc_lib mc) (address front) = Some ip"
      and w1: "mc_setsockopt mc (m_sendEvent self) (MULTICAST_IF ip) w = (Inr (), w1)"
      and dg: "send_datagram mc self data ttl w1 = (0, w')"
    by (auto simp: sendOverInterfaceByAddress_def send_errors split: option.splits sum.splits prod.splits)
  from dg obtain w2 g n where w2: "mc_setsockopt mc (m_sendEvent self) (MULTICAST_TTL ttl) w1 = (Inr (), w2)"
      and g: "inet_aton (mc_lib mc) (m_mutlicastgroup self) = Some g"
      and n: "mc_sendto mc (m_sendEvent self) data
          \<lparr>sin_family = AF_INET, sin_addr4 = g, sin_port = htons (ucast (m_port self))\<rparr> w2 = (Inr n, w')" "n = length data"
    by (auto simp: send_datagram_def send_errors split: option.splits sum.splits prod.splits if_splits)
  show ?thesis
    using sender_lawsD(1) [OF laws w1] sender_lawsD(2) [OF laws w2] sender_lawsD(3) [OF laws n(1)] n(2) ip g front
    by (simp add: adapter_datagram_def)
qed

lemma send_loop_sends:
  assumes laws: "sender_laws mc (m_sendEvent self) iface hops log" and "data \<noteq> []"
  shows "send_loop mc self (Data data) ttl m retVal w = (0, w') \<Longrightarrow>
    retVal = 0 \<and> log w' = log w @ map (adapter_datagram mc self data ttl \<circ> snd) m"
proof (induction m arbitrary: retVal w)
  case (Cons iter rest)
  obtain r w1 where r: "sendOverInterface mc self (snd iter) (Data data) ttl w = (r, w1)" by fastforce
  with Cons.IH Cons.prems have "(if r \<noteq> 0 then r else retVal) = 0"
      "log w' = log w1 @ map (adapter_datagram mc self data ttl \<circ> snd) rest" by auto
  moreover from this r have "sendOverInterface mc self (snd iter) (Data data) ttl w = (0, w1)"
    by (simp split: if_splits)
  then have "log w1 = log w @ [adapter_datagram mc self data ttl (snd iter)]"
    by (rule sendOverInterface_sends [OF laws assms(2)])
  ultimately show ?case by (simp split: if_splits)
qed simp

section \<open>Telegrams\<close>

text \<open>The interface of a telegram is the one the last \<open>IP_PKTINFO\<close> names.\<close>

definition interface_of :: "cmsg list \<Rightarrow> 32 word" where
  "interface_of cs = (let infos = filter (\<lambda>c. cmsg_type c = IP_PKTINFO) cs in
     if infos = [] then 0 else cmsg_int (last infos))"

lemma cmsg_loop_interface:
  "fst (cmsg_loop cs i ttl) = (let infos = filter (\<lambda>c. cmsg_type c = IP_PKTINFO) cs in
     if infos = [] then i else cmsg_int (last infos))"
  by (induction cs arbitrary: i ttl) (simp_all add: Let_def)

section \<open>The text of the port\<close>

lemma length_to_string: "0 < k \<Longrightarrow> length (to_string n) \<le> k \<longleftrightarrow> n < 10 ^ k"
proof (induction k arbitrary: n)
  case (Suc k)
  show ?case
  proof (cases "n < 10")
    case True
    then have "n < 10 ^ Suc k" by (simp add: less_le_trans)
    then show ?thesis using True by (subst to_string.simps) simp
  next
    case False
    show ?thesis
    proof (cases k)
      case 0
      then show ?thesis using False by (subst to_string.simps) simp
    next
      case (Suc j)
      have "length (to_string (n div 10)) \<le> k \<longleftrightarrow> n div 10 < 10 ^ k" using Suc.IH Suc by simp
      also have "\<dots> \<longleftrightarrow> n < 10 ^ Suc k" by (simp add: div_less_iff_less_mult mult.commute)
      finally show ?thesis using False by (subst to_string.simps) simp
    qed
  qed
qed simp

lemma portString_None: "portString p = None \<longleftrightarrow> 10 ^ 7 \<le> unat p"
  using length_to_string [of 7 "unat p"] by (auto simp: portString_def Let_def not_le not_less)

section \<open>A concrete host\<close>

record mc_world =
  mw_server :: "unit MulticastServer"
  mw_list :: NetadapterList
  mw_members :: "mreq set"
  mw_iface :: "32 word"
  mw_hops :: "32 word"
  mw_log :: "sent list"

fun demo_setsockopt :: "mc_option \<Rightarrow> mc_world \<Rightarrow> (errno + unit) \<times> mc_world" where
  "demo_setsockopt (ADD_MEMBERSHIP m) w =
     (if m \<in> mw_members w then (Inl EADDRINUSE, w) else (Inr (), w\<lparr>mw_members := insert m (mw_members w)\<rparr>))"
| "demo_setsockopt (DROP_MEMBERSHIP m) w =
     (if m \<in> mw_members w then (Inr (), w\<lparr>mw_members := mw_members w - {m}\<rparr>) else (Inl EADDRNOTAVAIL, w))"
| "demo_setsockopt (MULTICAST_IF a) w = (Inr (), w\<lparr>mw_iface := a\<rparr>)"
| "demo_setsockopt (MULTICAST_TTL t) w = (Inr (), w\<lparr>mw_hops := t\<rparr>)"
| "demo_setsockopt opt w = (Inr (), w)"

definition demo_mc_os :: "mc_world mc_os" where
  "demo_mc_os = \<lparr>mc_getaddrinfo = (\<lambda>g p f w. (Some (AF_INET, 0x010000E0), w)), mc_socket = (\<lambda>f n w. (8, w)),
     mc_setsockopt = (\<lambda>fd. demo_setsockopt), mc_bind = (\<lambda>fd a w. (0, w)),
     mc_sendto = (\<lambda>fd b to w. (Inr (length b), w\<lparr>mw_log := mw_log w @
        [\<lparr>sent_iface = mw_iface w, sent_ttl = mw_hops w, sent_to = to, sent_data = b\<rparr>]\<rparr>)),
     mc_recvmsg = (\<lambda>fd n w. (Inr ([1], \<lparr>sin_family = AF_INET, sin_addr4 = 0, sin_port = 0\<rparr>,
        [\<lparr>cmsg_type = IP_TTL, cmsg_int = 3\<rparr>, \<lparr>cmsg_type = IP_PKTINFO, cmsg_int = 2\<rparr>]), w)),
     mc_close = (\<lambda>fd w. (0, w)), mc_lib = le_inet,
     mc_list = \<lparr>deref = mw_list, assign = (\<lambda>l w. w\<lparr>mw_list := l\<rparr>)\<rparr>\<rparr>"

definition demo_adapter :: Netadapter where
  "demo_adapter = \<lparr>m_name = ''eth0'', m_ipv4Addresses = [\<lparr>address = dotted 0x0A000001, netmask = []\<rparr>],
     m_ipv6Addresses = [], m_macAddress = ''00:01'', m_fwGuid = 0, m_index = 2\<rparr>"

definition demo_mc_server :: "unit MulticastServer" where
  "demo_mc_server = MulticastServer_ctor\<lparr>m_mutlicastgroup := dotted 0xE0000001, m_port := 31417,
     m_receiveEvent := 8, m_sendEvent := 9\<rparr>"

definition demo_host :: mc_world where
  "demo_host = \<lparr>mw_server = demo_mc_server, mw_list = \<lparr>m_adapters = [(2, demo_adapter)]\<rparr>, mw_members = {},
     mw_iface = 0, mw_hops = 0, mw_log = []\<rparr>"

lemma demo_mc_laws:
  "membership_laws demo_mc_os fd mw_members" "membership_failures demo_mc_os fd {}"
  "sender_laws demo_mc_os fd mw_iface mw_hops mw_log"
  by (auto simp: membership_laws_def membership_failures_def sender_laws_def demo_mc_os_def split: if_splits)

lemma demo_setsockopt_list: "mw_list (snd (demo_setsockopt opt w)) = mw_list w"
  by (cases opt) auto

lemma demo_mc_keeps: "mc_keeps demo_mc_os (mc_list demo_mc_os)"
  by (simp add: mc_keeps_def keeps_def demo_mc_os_def demo_setsockopt_list)

lemma demo_resolves: "resolves demo_mc_os demo_mc_server 0x010000E0 mw_members"
proof -
  have "portString (m_port demo_mc_server) \<noteq> None"
    by (subst portString_None) (simp add: demo_mc_server_def)
  then show ?thesis by (auto simp: resolves_def demo_mc_os_def)
qed

lemma demo_list_ok: "adapters_ok le_inet (m_adapters (mw_list demo_host))"
  by (simp add: demo_host_def adapters_ok_def adapter_ok_def demo_adapter_def apipa_last_def smap_ok_Cons)

lemma demo_entries: "getArray (deref (mc_list demo_mc_os) demo_host) = [demo_adapter]"
  by (simp add: getArray_map demo_mc_os_def demo_host_def)

lemma sent_data_datagram [simp]: "sent_data (adapter_datagram mc self data ttl a) = data"
  by (simp add: adapter_datagram_def)

section \<open>Properties\<close>

text \<open>
  Claim C10: \<open>addAllInterfaces\<close> makes the interfaces of the list members of the group, in addition to the memberships
  that existed, and \<open>dropAllInterfaces\<close> ends these memberships, whichever of them existed before, and no other one. Both loops
  ignore failures: an interface for which the kernel refuses the option is left as it was, and all others are still handled. The
  group resolves to an address.
\<close>

theorem addAll_dropAll:
  assumes "membership_laws mc (m_receiveEvent self) members"
    and "membership_failures mc (m_receiveEvent self) unreliable"
    and "resolves mc self g members" and "mc_keeps mc (mc_list mc)"
  shows "\<exists>w1 w2. addAllInterfaces mc self w = (Ret 0, w1) \<and> dropAllInterfaces mc self w1 = (Ret 0, w2) \<and>
    (let ms = (\<lambda>a. Mreqn g (sint (m_index a))) ` set (getArray (deref (mc_list mc) w)) in
      members w \<subseteq> members w1 \<and> members w1 \<subseteq> members w \<union> ms \<and> ms - unreliable \<subseteq> members w1 \<and>
      members w - ms \<subseteq> members w2 \<and> members w2 \<subseteq> members w1 \<and> members w2 \<inter> ms \<subseteq> unreliable)"
proof -
  let ?l = "deref (mc_list mc) w"
  let ?ms = "(\<lambda>a. Mreqn g (sint (m_index a))) ` set (getArray ?l)"
  have ms: "(\<lambda>e. Mreqn g (sint (m_index (snd e)))) ` set (m_adapters ?l) = ?ms"
    by (simp add: getArray_map image_image)
  obtain w1 where w1: "addAllInterfaces mc self w = (Ret 0, w1)"
      "memberships_reached True unreliable ?ms (members w) (members w1)"
    using interface_loop_changes [OF assms(1,3,2), of addInterface_index True "m_adapters ?l" w]
    unfolding ms by (auto simp: addAllInterfaces_def addInterface_index_def fun_eq_iff get_adapters_def)
  have "deref (mc_list mc) (snd (addAllInterfaces mc self w)) = ?l"
    unfolding addAllInterfaces_def
    by (rule interface_loop_keeps) (simp add: addInterface_index_def dropOrAdd_keeps assms(4))
  then have "deref (mc_list mc) w1 = ?l" using w1(1) by simp
  then obtain w2 where "dropAllInterfaces mc self w1 = (Ret 0, w2)"
      "memberships_reached False unreliable ?ms (members w1) (members w2)"
    using interface_loop_changes [OF assms(1,3,2), of dropInterface_index False "m_adapters ?l" w1]
    unfolding ms by (auto simp: dropAllInterfaces_def dropInterface_index_def fun_eq_iff get_adapters_def)
  then show ?thesis using w1 unfolding memberships_reached_def Let_def by (intro exI [of _ w1] exI [of _ w2]) auto
qed

text \<open>A second interface, which is gone when the server joins.\<close>

definition gone_mc_os :: "mc_world mc_os" where
  "gone_mc_os = demo_mc_os\<lparr>mc_setsockopt := (\<lambda>fd opt w.
     if opt = ADD_MEMBERSHIP (Mreqn 0x010000E0 3) then (Inl 19, w) else demo_setsockopt opt w)\<rparr>"

lemma gone_mc_laws:
  "membership_laws gone_mc_os fd mw_members" "membership_failures gone_mc_os fd {Mreqn 0x010000E0 3}"
  "resolves gone_mc_os demo_mc_server 0x010000E0 mw_members" "mc_keeps gone_mc_os (mc_list gone_mc_os)"
proof -
  show "resolves gone_mc_os demo_mc_server 0x010000E0 mw_members"
    using demo_resolves by (simp add: resolves_def gone_mc_os_def)
  show "mc_keeps gone_mc_os (mc_list gone_mc_os)"
    using demo_mc_keeps by (simp add: mc_keeps_def keeps_def gone_mc_os_def demo_mc_os_def demo_setsockopt_list)
qed (auto simp: membership_laws_def membership_failures_def gone_mc_os_def EADDRINUSE_def split: if_splits)

definition gone_host :: mc_world where
  "gone_host = demo_host\<lparr>mw_list := \<lparr>m_adapters = [(2, demo_adapter), (3, demo_adapter\<lparr>m_index := 3\<rparr>)]\<rparr>\<rparr>"

lemma gone_host_members:
  "(\<lambda>a. Mreqn 0x010000E0 (sint (m_index a))) ` set (getArray (deref (mc_list gone_mc_os) gone_host)) =
     {Mreqn 0x010000E0 2, Mreqn 0x010000E0 3}" "mw_members gone_host = {}"
  by (simp_all add: gone_mc_os_def demo_mc_os_def gone_host_def getArray_map demo_adapter_def demo_host_def)

theorem addAll_dropAll_witness:
  "\<exists>w1 w2. addAllInterfaces gone_mc_os demo_mc_server gone_host = (Ret 0, w1) \<and>
     dropAllInterfaces gone_mc_os demo_mc_server w1 = (Ret 0, w2) \<and>
     Mreqn 0x010000E0 2 \<in> mw_members w1 \<and> Mreqn 0x010000E0 2 \<notin> mw_members w2"
proof -
  have "Mreqn 0x010000E0 2 \<noteq> Mreqn 0x010000E0 3" by simp
  with addAll_dropAll [OF gone_mc_laws, of gone_host] show ?thesis unfolding gone_host_members Let_def by blast
qed

text \<open>
  Claim C11: when sending over all interfaces reports success, every adapter of the list has got exactly one datagram, in
  the order of the list: from its first IPv4 address, with the requested hop limit, the whole data, to the group and port.
\<close>

theorem send_all_sends:
  assumes "sender_laws mc (m_sendEvent self) iface hops log" and "data \<noteq> []"
    and "send_all mc self (Data data) ttl w = (ERR_SUCCESS, w')"
  shows "log w' = log w @ map (adapter_datagram mc self data ttl) (getArray (deref (mc_list mc) w))"
  using send_loop_sends [OF assms(1,2)] assms(3)
  by (simp add: send_all_def send_errors get_adapters_def getArray_map)

theorem send_all_sends_witness:
  "map sent_data (mw_log (snd (send_all demo_mc_os demo_mc_server (Data [1, 2]) 1 demo_host))) = [[1, 2]]"
proof -
  have aton: "inet_aton le_inet (dotted a) = Some (bswap32 a)" for a
    using le_inet_laws by (auto simp: inet_laws_def le_inet_def)
  have "fst (send_all demo_mc_os demo_mc_server (Data [1, 2]) 1 demo_host) = ERR_SUCCESS"
    by (simp add: send_all_def get_adapters_def demo_host_def demo_mc_os_def demo_adapter_def demo_mc_server_def
        sendOverInterface_def sendOverInterfaceByAddress_def aton send_datagram_def send_errors)
  then have "send_all demo_mc_os demo_mc_server (Data [1, 2]) 1 demo_host =
      (ERR_SUCCESS, snd (send_all demo_mc_os demo_mc_server (Data [1, 2]) 1 demo_host))"
    by (metis prod.collapse)
  from send_all_sends [OF demo_mc_laws(3) _ this]
  have "mw_log (snd (send_all demo_mc_os demo_mc_server (Data [1, 2]) 1 demo_host)) =
      mw_log demo_host @ map (adapter_datagram demo_mc_os demo_mc_server [1, 2] 1) [demo_adapter]"
    unfolding demo_entries by simp
  then show ?thesis by (simp add: demo_host_def)
qed

text \<open>
  Claim C14: a received telegram is reported with the adapter of the list whose index is that of the interface it came from;
  when the list has no such adapter the result is -1 and the adapter is left alone.
\<close>

theorem receiveTelegram_adapter:
  assumes "mc_recvmsg mc (m_receiveEvent self) len w = (Inr (data, sender, cmsgs), w')" and "data \<noteq> []"
    and "adapters_ok lib (m_adapters (deref (mc_list mc) w'))"
    and "receiveTelegram mc self len old w = ((t, adapter), self', w'')"
  shows "msgbuf t = data \<and>
    (if nbytes t = int (length data)
     then adapter \<in> set (getArray (deref (mc_list mc) w')) \<and> m_index adapter = interface_of cmsgs
     else nbytes t = - 1 \<and> adapter = old \<and>
       (\<forall>a \<in> set (getArray (deref (mc_list mc) w')). m_index a \<noteq> interface_of cmsgs))"
proof -
  let ?l = "deref (mc_list mc) w'"
  obtain i ttl where loop: "cmsg_loop cmsgs 0 1 = (i, ttl)" by fastforce
  then have i: "i = interface_of cmsgs"
    using cmsg_loop_interface [of cmsgs 0 1] by (simp add: interface_of_def Let_def)
  show ?thesis
  proof (cases "getAdapterByInterfaceIndex ?l i")
    case (Inl e)
    then show ?thesis
      using assms(1,2,4) loop i adapter_list.unknown_index [OF adapters_ok_indexed [OF assms(3)] Inl]
      by (auto simp: receiveTelegram_def receiveTelegram_index_def)
  next
    case (Inr a)
    then show ?thesis
      using assms(1,2,4) loop i adapter_list.lookup_entry [OF adapters_ok_indexed [OF assms(3)] Inr]
      by (auto simp: receiveTelegram_def receiveTelegram_index_def)
  qed
qed

theorem receiveTelegram_adapter_witness:
  "snd (fst (receiveTelegram demo_mc_os demo_mc_server 10 Netadapter_ctor demo_host)) = demo_adapter"
proof -
  let ?cs = "[\<lparr>cmsg_type = IP_TTL, cmsg_int = 3\<rparr>, \<lparr>cmsg_type = IP_PKTINFO, cmsg_int = 2\<rparr>]"
  have recv: "mc_recvmsg demo_mc_os (m_receiveEvent demo_mc_server) 10 demo_host =
      (Inr ([1], \<lparr>sin_family = AF_INET, sin_addr4 = 0, sin_port = 0\<rparr>, ?cs), demo_host)"
    by (simp add: demo_mc_os_def)
  obtain t a self' w' where r: "receiveTelegram demo_mc_os demo_mc_server 10 Netadapter_ctor demo_host = ((t, a), self', w')"
    by (metis prod.collapse)
  have "interface_of ?cs = 2" by (simp add: interface_of_def IP_TTL_def IP_PKTINFO_def)
  moreover have "m_index demo_adapter = 2" by (simp add: demo_adapter_def)
  moreover have ok: "adapters_ok le_inet (m_adapters (deref (mc_list demo_mc_os) demo_host))"
    using demo_list_ok by (simp add: demo_mc_os_def)
  ultimately have "a = demo_adapter"
    using receiveTelegram_adapter [OF recv _ ok r] by (auto simp: demo_entries split: if_splits)
  then show ?thesis using r by simp
qed

text \<open>
  The text of the port is written behind its buffer of eight characters exactly for ports from ten million on,
  which the parameter of type \<open>unsigned int\<close> admits: then joining or leaving a group is undefined.
\<close>

theorem port_text_overflow:
  "fst (dropOrAddInterface_index mc self i add w) = Throw UndefinedBehaviour \<longleftrightarrow> 10 ^ 7 \<le> unat (m_port self)"
  unfolding portString_None [symmetric]
  by (auto simp: dropOrAddInterface_index_def Let_def split_beta split: option.splits)

end
