(* ===== verification/SysTools.thy ===== *)
theory SysTools
  imports EventLoop InetText
begin

text \<open>
  \<open>lib/sys/pidfile.cpp\<close>, \<open>lib/sys/linux/executecommand.cpp\<close> and the exception classes of \<open>lib/exception\<close>. Files,
  pipes and processes are parameters on the world \<open>'w\<close>.
\<close>

section \<open>Exceptions\<close>

text \<open>
  The stored text of \<open>hbm::exception::exception\<close> is the description, a line break and the stack trace, which is a
  parameter; \<open>errno_exception\<close> reads \<open>errno\<close> twice, for its text and its number.
\<close>

definition exception_output :: "string \<Rightarrow> string \<Rightarrow> string" where
  "exception_output stack_trace description = description @ [CHR 0x0A] @ stack_trace"

definition errno_exception_ctor :: "(errno \<Rightarrow> string) \<Rightarrow> string \<Rightarrow> errno \<Rightarrow> string \<times> errno" where
  "errno_exception_ctor strerror stack_trace errno = (exception_output stack_trace (strerror errno), errno)"

record jsonrpcException =
  jsonrpc_output :: string
  m_code :: int
  m_message :: string

definition jsonrpcException_ctor :: "string \<Rightarrow> int \<Rightarrow> string \<Rightarrow> jsonrpcException" where
  "jsonrpcException_ctor stack_trace excCode excMessage =
     \<lparr>jsonrpc_output = exception_output stack_trace [], m_code = excCode, m_message = excMessage\<rparr>"

definition jsonrpc_code :: "jsonrpcException \<Rightarrow> int" where
  "jsonrpc_code self = m_code self"

definition jsonrpc_message :: "jsonrpcException \<Rightarrow> string" where
  "jsonrpc_message self = m_message self"

definition jsonrpc_what :: "jsonrpcException \<Rightarrow> string" where
  "jsonrpc_what self = m_message self"

text \<open>
  \<open>fill_stack_trace\<close> of \<open>debug/stack_trace.hpp\<close>, compiled with the GNU compiler: the argument is what \<open>backtrace_symbols\<close> returns
  for at most 100 calls, where \<open>None\<close> is a null pointer. Other compilers have the text of the last branch.
\<close>

definition backtrace_size :: nat where "backtrace_size = 100"

definition fill_stack_trace :: "string list option \<Rightarrow> string" where
  "fill_stack_trace function_strings =
     (case function_strings of
        Some strings \<Rightarrow>
          (let output = [CHR 0x0A] @ ''----------- stacktrace begin'' @ [CHR 0x0A];
               output = output @ [CHR 0x0A];
               output = foldl (\<lambda>output s. output @ s @ [CHR 0x0A]) output (take backtrace_size strings) in
           output @ ''----------- stacktrace end'' @ [CHR 0x0A])
      | None \<Rightarrow> ''No backtrace!'' @ [CHR 0x0A])"

definition fill_stack_trace_other :: string where
  "fill_stack_trace_other = ''No backtrace!'' @ [CHR 0x0A]"

text \<open>Each call is one line of the text of an exception, behind its description.\<close>

lemma exception_text:
  assumes "length strings \<le> backtrace_size"
  shows "exception_output (fill_stack_trace (Some strings)) description =
    description @ [CHR 0x0A, CHR 0x0A] @ ''----------- stacktrace begin'' @ [CHR 0x0A, CHR 0x0A] @
    concat (map (\<lambda>s. s @ [CHR 0x0A]) strings) @ ''----------- stacktrace end'' @ [CHR 0x0A]"
proof -
  have "foldl (\<lambda>output s. output @ s @ [CHR 0x0A]) out xs = out @ concat (map (\<lambda>s. s @ [CHR 0x0A]) xs)" for out xs
    by (induction xs arbitrary: out) auto
  then show ?thesis using assms by (simp add: exception_output_def fill_stack_trace_def Let_def)
qed

section \<open>The pid file\<close>

record 'w file_os =
  f_basename :: "string \<Rightarrow> string"
  f_create :: "string \<Rightarrow> 'w \<Rightarrow> bool \<times> 'w"
  f_print :: "string \<Rightarrow> string \<Rightarrow> 'w \<Rightarrow> 'w"
  f_remove :: "string \<Rightarrow> 'w \<Rightarrow> 'w"
  f_getpid :: nat
  f_strerror :: "'w \<Rightarrow> string"

definition BasePath :: string where "BasePath = ''/var/run/''"

text \<open>\<open>f_create\<close> opens a file for writing, \<open>f_print\<close> writes a text into it and closes it.\<close>

definition PidFile_ctor :: "'w file_os \<Rightarrow> string \<Rightarrow> 'w \<Rightarrow> (cxx_exception + string) \<times> 'w" where
  "PidFile_ctor fs name w =
     (let m_pidFileName = BasePath @ f_basename fs name @ ''.pid'';
          (opened, w) = f_create fs m_pidFileName w in
      if \<not> opened
      then (Inl (RuntimeError (''could not create pid file '' @ m_pidFileName @ '' '' @ [char_of (39::nat)] @
              f_strerror fs w @ [char_of (39::nat)])), w)
      else (Inr m_pidFileName, f_print fs m_pidFileName (to_string (f_getpid fs) @ [CHR 0x0A]) w))"

definition PidFile_dtor :: "'w file_os \<Rightarrow> string \<Rightarrow> 'w \<Rightarrow> 'w" where
  "PidFile_dtor fs m_pidFileName w = f_remove fs m_pidFileName w"

section \<open>Commands\<close>

datatype wait_status = Exited nat | NotExited

text \<open>
  \<open>x_fork\<close> returns the process id, 0 in the child; \<open>x_exec\<close> is \<open>execve\<close> with the path and the arguments: it returns only on failure.
  The calls on descriptors return \<open>-1\<close> on failure.
\<close>

record 'w exec_os =
  x_popen :: "string \<Rightarrow> 'w \<Rightarrow> bool \<times> 'w"
  x_fread :: "nat \<Rightarrow> 'w \<Rightarrow> string \<times> 'w"
  x_pclose :: "'w \<Rightarrow> 'w"
  x_pipe :: "'w \<Rightarrow> (int \<times> int) option \<times> 'w"
  x_fork :: "'w \<Rightarrow> int \<times> 'w"
  x_close :: "int \<Rightarrow> 'w \<Rightarrow> 'w"
  x_dup2 :: "int \<Rightarrow> int \<Rightarrow> 'w \<Rightarrow> int \<times> 'w"
  x_exec :: "string \<Rightarrow> string list \<Rightarrow> 'w \<Rightarrow> 'w"
  x_write :: "int \<Rightarrow> string \<Rightarrow> 'w \<Rightarrow> (errno + nat) \<times> 'w"
  x_waitpid :: "int \<Rightarrow> 'w \<Rightarrow> wait_status \<times> 'w"

partial_function (option) read_loop :: "'w exec_os \<Rightarrow> string \<Rightarrow> 'w \<Rightarrow> (string \<times> 'w) option" where
  "read_loop x retVal w =
     (case x_fread x 1024 w of
        (buffer, w) \<Rightarrow> if buffer = [] then Some (retVal, w) else read_loop x (retVal @ buffer) w)"

definition executeCommand :: "'w exec_os \<Rightarrow> string \<Rightarrow> 'w \<Rightarrow> ((cxx_exception + string) \<times> 'w) option" where
  "executeCommand x command w =
     (case x_popen x command w of
        (ok, w) \<Rightarrow>
          if \<not> ok
          then Some (Inl (HbmException (''executeCommandpopen failed (cmd='' @ command @ '')!'')), w)
          else (case read_loop x [] w of
             None \<Rightarrow> None
           | Some (retVal, w) \<Rightarrow> Some (Inr retVal, x_pclose x w)))"

text \<open>The loop that feeds the standard input of the child; an error ends it without a trace in the result.\<close>

partial_function (option) write_loop :: "'w exec_os \<Rightarrow> int \<Rightarrow> string \<Rightarrow> 'w \<Rightarrow> 'w option" where
  "write_loop x fd stdinData w =
     (if stdinData = [] then Some w
      else case x_write x fd stdinData w of
        (Inl _, w) \<Rightarrow> Some w
      | (Inr n, w) \<Rightarrow> write_loop x fd (drop n stdinData) w)"

text \<open>The end of the process: the child exits with \<open>EXIT_FAILURE\<close> when \<open>execve\<close> returns.\<close>

datatype exec_result = Returned_int int | Exit_process nat

definition executeCommand_params :: "'w exec_os \<Rightarrow> string \<Rightarrow> string list \<Rightarrow> string \<Rightarrow> 'w \<Rightarrow>
    (exec_result \<times> 'w) option" where
  "executeCommand_params x command params stdinString w =
     (case x_pipe x w of
        (None, w) \<Rightarrow> Some (Returned_int (- 1), w)
      | (Some (pipe_read, pipe_write), w) \<Rightarrow>
          (let (cpid, w) = x_fork x w in
           if cpid = - 1 then Some (Returned_int (- 1), w)
           else if cpid = 0 then
             (let w = x_close x pipe_write w;
                  (r, w) = (if pipe_read \<noteq> 0 then x_dup2 x pipe_read 0 w else (0, w)) in
              if r = - 1 then Some (Returned_int (- 1), w)
              else let argv = foldl (\<lambda>argv p. argv @ [p]) [command] params in
                Some (Exit_process 1, x_exec x command argv w))
           else if 0 < cpid then
             (case write_loop x pipe_write stdinString (x_close x pipe_read w) of
                None \<Rightarrow> None
              | Some w \<Rightarrow>
                  (case x_waitpid x cpid (x_close x pipe_write w) of
                     (NotExited, w) \<Rightarrow> Some (Returned_int (- 1), w)
                   | (Exited status, w) \<Rightarrow> Some (Returned_int (if status \<noteq> 0 then - 1 else 0), w)))
           else Some (Returned_int (- 1), x_close x pipe_write (x_close x pipe_read w))))"

text \<open>On Windows both functions do nothing yet.\<close>

definition win_executeCommand :: "string \<Rightarrow> string" where
  "win_executeCommand command = []"

definition win_executeCommand_params :: "string \<Rightarrow> string list \<Rightarrow> string \<Rightarrow> int" where
  "win_executeCommand_params command params stdinString = 0"

section \<open>Facts\<close>

text \<open>The output of the command is returned completely and in order, when it ends.\<close>

lemma read_loop_output:
  assumes "\<And>w b w'. x_fread x 1024 w = (b, w') \<Longrightarrow> outp w = b @ outp w' \<and> (b = [] \<longrightarrow> outp w = [])"
  shows "\<exists>w'. read_loop x acc w = Some (acc @ outp w, w') \<and> outp w' = []"
proof (induction "length (outp w)" arbitrary: acc w rule: less_induct)
  case less
  obtain b w1 where b: "x_fread x 1024 w = (b, w1)" by fastforce
  then have out: "outp w = b @ outp w1" "b = [] \<longrightarrow> outp w = []" using assms by blast+
  show ?case
  proof (cases "b = []")
    case True
    then show ?thesis using b out by (subst read_loop.simps) auto
  next
    case False
    then have "length (outp w1) < length (outp w)" using out by simp
    from less [OF this, of "acc @ b"] show ?thesis using b out False by (subst read_loop.simps) simp
  qed
qed

text \<open>The child gets a prefix of the input, and the arguments are the command and its parameters.\<close>

lemma argv_eq: "foldl (\<lambda>argv p. argv @ [p]) acc params = acc @ params"
  by (induction params arbitrary: acc) simp_all

end
