(* ===== verification/NotifierThreads.thy ===== *)
theory NotifierThreads
  imports Notifier
begin

text \<open>
  A notifier used by several threads, which is what it is for: any thread may call \<open>notify\<close> at any time, also while the thread
  of the event loop is in the middle of \<open>process\<close>. The operations of \<open>Notifier\<close> are taken apart into the steps that can be
  interleaved: the read of the counter, and each call of the callback.
\<close>

section \<open>Steps\<close>

text \<open>
  Besides the loop, a state has the number of turns that \<open>process\<close> still has to do, and two counters that exist in the
  model only: how often \<open>notify\<close> was called and how often the callback. An exception of the callback ends \<open>process\<close>.
\<close>

type_synonym ('h, 'w) notifier_state = "('h, 'w) EventLoop \<times> nat \<times> nat \<times> nat"

inductive notifier_step :: "'w notifier_os \<Rightarrow> ('c, 'h, 'w) notifier_cb \<Rightarrow> ('w, 'c Notifier) ref \<Rightarrow>
    ('h, 'w) notifier_state \<Rightarrow> ('h, 'w) notifier_state \<Rightarrow> bool"
  for nos user this where
  notify: "Notifier_notify nos this s = (r, s') \<Longrightarrow>
     notifier_step nos user this (s, todo, notified, executed) (s', todo, Suc notified, executed)"
| read: "sys (n_read8 nos (notifier_fd (obj this s))) s = ((result, eventCount), s') \<Longrightarrow>
     notifier_step nos user this (s, 0, notified, executed)
       (s', if result \<noteq> 8 then 0 else unat eventCount, notified, executed)"
| turn: "invoke user (notifier_handler (obj this s)) s = (Ret r, s') \<Longrightarrow>
     notifier_step nos user this (s, Suc todo, notified, executed) (s', todo, notified, Suc executed)"
| throw: "invoke user (notifier_handler (obj this s)) s = (Throw ex, s') \<Longrightarrow>
     notifier_step nos user this (s, Suc todo, notified, executed) (s', 0, notified, Suc executed)"

text \<open>\<open>process\<close> on its own is a path of these steps.\<close>

lemma notify_loop_path:
  "notify_loop user this n s = (Ret 0, s') \<Longrightarrow>
   (notifier_step nos user this)\<^sup>*\<^sup>* (s, n, notified, executed) (s', 0, notified, executed + n)"
proof (induction n arbitrary: s executed)
  case (Suc n)
  then obtain r s1 where s1: "invoke user (notifier_handler (obj this s)) s = (Ret r, s1)" "notify_loop user this n s1 = (Ret 0, s')"
    by (auto split: prod.splits outcome.splits)
  have "notifier_step nos user this (s, Suc n, notified, executed) (s1, n, notified, Suc executed)"
    by (rule turn [OF s1(1)])
  then show ?case using Suc.IH [OF s1(2), of "Suc executed"] by (simp add: converse_rtranclp_into_rtranclp)
qed simp

lemma process_path:
  assumes "Notifier_process nos user this s = (Ret 0, s')"
  shows "\<exists>n. (notifier_step nos user this)\<^sup>*\<^sup>* (s, 0, notified, executed) (s', 0, notified, executed + n)"
proof -
  obtain result eventCount s1 where r: "sys (n_read8 nos (notifier_fd (obj this s))) s = ((result, eventCount), s1)"
    by (metis prod.exhaust)
  then have "result = 8" "notify_loop user this (unat eventCount) s1 = (Ret 0, s')"
    using assms by (auto simp: Notifier_process_def split: if_splits)
  then show ?thesis
    using notify_loop_path [of user this "unat eventCount" s1 s' nos notified executed]
      read [OF r, of user notified executed] by (auto intro: converse_rtranclp_into_rtranclp)
qed

section \<open>No notification is lost\<close>

text \<open>
  What the threads rely on: the counter of the descriptor as documented, and a callback \<open>c\<close> that returns and leaves notifier
  and counter alone.
\<close>

definition thread_laws :: "'w notifier_os \<Rightarrow> ('c, 'h, 'w) notifier_cb \<Rightarrow> ('w, 'c Notifier) ref \<Rightarrow> 'c \<Rightarrow> ('w \<Rightarrow> 64 word) \<Rightarrow> bool" where
  "thread_laws nos user this c counter \<longleftrightarrow> counter_laws nos this counter \<and>
     (\<forall>fd w. counter (snd (n_read8 nos fd w)) = 0) \<and>
     (\<forall>fd w. counter w = 0 \<longrightarrow> fst (fst (n_read8 nos fd w)) = - 1) \<and>
     (\<forall>s. \<exists>r. fst (user c s) = Ret r) \<and>
     (\<forall>s. obj this (snd (user c s)) = obj this s) \<and>
     (\<forall>s. counter (world (snd (user c s))) = counter (world s))"

fun accounted :: "('w, 'c Notifier) ref \<Rightarrow> 'c \<Rightarrow> ('w \<Rightarrow> 64 word) \<Rightarrow> ('h, 'w) notifier_state \<Rightarrow> bool" where
  "accounted this c counter (s, todo, notified, executed) \<longleftrightarrow>
     notifier_handler (obj this s) = User c \<and> executed + todo + unat (counter (world s)) = notified"

lemma notify_accounted:
  assumes "thread_laws nos user this c counter" and "accounted this c counter (s, todo, notified, executed)"
    and "Notifier_notify nos this s = (r, s')" and "Suc notified < 2 ^ 64 - 1"
  shows "accounted this c counter (s', todo, Suc notified, executed)"
proof -
  have laws: "counter_laws nos this counter" using assms(1) by (simp add: thread_laws_def)
  have now: "executed + todo + unat (counter (world s)) = notified" using assms(2) by simp
  then have small: "unat (counter (world s)) + unat (1 :: 64 word) < 2 ^ 64 - 1" using assms(4) by simp
  have w: "world s' = snd (n_write8 nos (notifier_fd (obj this s)) 1 (world s))"
    using assms(3) by (auto simp: Notifier_notify_def sys_def split: prod.splits)
  have c: "counter (world s') = counter (world s) + 1" and ob: "obj this s' = obj this s"
    using laws small unfolding counter_laws_def w obj_def by blast+
  have "unat (counter (world s')) = unat (counter (world s)) + 1"
    using small unfolding c by (subst unat_add_lem [THEN iffD1]) simp_all
  then show ?thesis using assms(2) now ob by simp
qed

lemma read_accounted:
  assumes "thread_laws nos user this c counter" and "accounted this c counter (s, 0, notified, executed)"
    and "sys (n_read8 nos (notifier_fd (obj this s))) s = ((result, eventCount), s')"
  shows "accounted this c counter (s', if result \<noteq> 8 then 0 else unat eventCount, notified, executed)"
proof -
  have r: "n_read8 nos (notifier_fd (obj this s)) (world s) = ((result, eventCount), world s')"
    using world_sys [OF assms(3)] by simp
  have laws: "counter_laws nos this counter" using assms(1) by (simp add: thread_laws_def)
  have "counter (world s') = 0" using assms(1) r unfolding thread_laws_def by (metis snd_conv)
  moreover have "obj this s' = obj this s" using laws r unfolding counter_laws_def obj_def by (metis snd_conv)
  moreover have "(if result \<noteq> 8 then 0 else unat eventCount) = unat (counter (world s))"
  proof (cases "counter (world s) = 0")
    case True
    then have "result = - 1" using assms(1) r unfolding thread_laws_def by (metis fst_conv)
    then show ?thesis using True by simp
  next
    case False
    then have "(result, eventCount) = (8, counter (world s))" using laws r unfolding counter_laws_def by (metis fst_conv)
    then show ?thesis by simp
  qed
  ultimately show ?thesis using assms(2) by simp
qed

lemma turn_accounted:
  assumes "thread_laws nos user this c counter" and "accounted this c counter (s, Suc todo, notified, executed)"
    and "invoke user (notifier_handler (obj this s)) s = (x, s')"
  shows "(\<exists>r. x = Ret r) \<and> accounted this c counter (s', todo, notified, Suc executed)"
proof -
  have "user c s = (x, s')" using assms(2,3) by (simp add: invoke_def)
  then have "\<exists>r. x = Ret r" "obj this s' = obj this s" "counter (world s') = counter (world s)"
    using assms(1) unfolding thread_laws_def by (metis fst_conv, metis snd_conv, metis snd_conv)
  then show ?thesis using assms(2) by simp
qed

lemma step_accounted:
  assumes "thread_laws nos user this c counter" and "notifier_step nos user this t t'" and "accounted this c counter t"
    and "fst (snd (snd t')) < 2 ^ 64 - 1"
  shows "accounted this c counter t'"
  using assms(2)
proof cases
  case (notify s r s' todo notified executed)
  then show ?thesis using notify_accounted [OF assms(1), of s todo notified executed r s'] assms(3,4) by simp
next
  case (read s result eventCount s' notified executed)
  then show ?thesis using read_accounted [OF assms(1), of s notified executed result eventCount s'] assms(3) by simp
next
  case (turn s r s' todo notified executed)
  then show ?thesis using turn_accounted [OF assms(1), of s todo notified executed "Ret r" s'] assms(3) by simp
next
  case (throw s ex s' todo notified executed)
  then show ?thesis using turn_accounted [OF assms(1), of s todo notified executed "Throw ex" s'] assms(3) by simp
qed

lemma step_notified: "notifier_step nos user this t t' \<Longrightarrow> fst (snd (snd t)) \<le> fst (snd (snd t'))"
  by (induction rule: notifier_step.induct) auto

lemma reach_accounted:
  assumes "(notifier_step nos user this)\<^sup>*\<^sup>* t t'" and "thread_laws nos user this c counter" and "accounted this c counter t"
  shows "fst (snd (snd t')) < 2 ^ 64 - 1 \<Longrightarrow> accounted this c counter t'"
  using assms(1)
proof (induction rule: rtranclp_induct)
  case base
  then show ?case using assms(3) by simp
next
  case (step t1 t2)
  then show ?case using step_accounted [OF assms(2) step.hyps(2)] step_notified [OF step.hyps(2)] by simp
qed

text \<open>Without further notifications the event loop gets to the end: first the turns under way, then those counted.\<close>

lemma turns_path:
  assumes "thread_laws nos user this c counter"
  shows "accounted this c counter (s, todo, notified, executed) \<Longrightarrow>
    \<exists>s'. (notifier_step nos user this)\<^sup>*\<^sup>* (s, todo, notified, executed) (s', 0, notified, executed + todo) \<and>
      accounted this c counter (s', 0, notified, executed + todo)"
proof (induction todo arbitrary: s executed)
  case (Suc todo)
  obtain x s1 where x: "invoke user (notifier_handler (obj this s)) s = (x, s1)" by fastforce
  from turn_accounted [OF assms Suc.prems x] obtain r where r: "x = Ret r"
    and acc: "accounted this c counter (s1, todo, notified, Suc executed)" by blast
  have "notifier_step nos user this (s, Suc todo, notified, executed) (s1, todo, notified, Suc executed)"
    using x r by (simp add: turn)
  with Suc.IH [OF acc] show ?case by (auto intro: converse_rtranclp_into_rtranclp)
qed auto

lemma accounted_path:
  assumes "thread_laws nos user this c counter" and "accounted this c counter (s, todo, notified, executed)"
  shows "\<exists>s'. (notifier_step nos user this)\<^sup>*\<^sup>* (s, todo, notified, executed) (s', 0, notified, notified)"
proof -
  obtain s1 where s1: "(notifier_step nos user this)\<^sup>*\<^sup>* (s, todo, notified, executed) (s1, 0, notified, executed + todo)"
      "accounted this c counter (s1, 0, notified, executed + todo)"
    using turns_path [OF assms] by blast
  obtain result eventCount s2 where r: "sys (n_read8 nos (notifier_fd (obj this s1))) s1 = ((result, eventCount), s2)"
    by (metis prod.exhaust)
  let ?n = "if result \<noteq> 8 then 0 else unat eventCount"
  have acc: "accounted this c counter (s2, ?n, notified, executed + todo)" by (rule read_accounted [OF assms(1) s1(2) r])
  have zero: "counter (world s2) = 0" using assms(1) world_sys [OF r] unfolding thread_laws_def by (metis snd_conv)
  have step: "notifier_step nos user this (s1, 0, notified, executed + todo) (s2, ?n, notified, executed + todo)"
    by (rule read [OF r])
  obtain s3 where "(notifier_step nos user this)\<^sup>*\<^sup>* (s2, ?n, notified, executed + todo) (s3, 0, notified, executed + todo + ?n)"
    using turns_path [OF assms(1) acc] by blast
  moreover have n: "executed + todo + ?n = notified" using acc zero by simp
  ultimately have "(notifier_step nos user this)\<^sup>*\<^sup>* (s2, ?n, notified, executed + todo) (s3, 0, notified, notified)"
    by (simp only: n)
  from rtranclp_trans [OF s1(1) converse_rtranclp_into_rtranclp [OF step this]] show ?thesis by blast
qed

section \<open>Properties\<close>

text \<open>
  Claim C8: whatever the interleaving of \<open>notify\<close> by any threads with the steps of the event loop, no notification is lost and none is
  executed twice: calls of the callback, turns under way and the counter add up to the number of notifications, and from
  every state that is reached the event loop alone gets to where the callback was called exactly as often as \<open>notify\<close>.
\<close>

theorem Notifier_loses_nothing:
  assumes "thread_laws nos user this c counter" and "notifier_handler (obj this s0) = User c" and "counter (world s0) = 0"
    and "(notifier_step nos user this)\<^sup>*\<^sup>* (s0, 0, 0, 0) (s, todo, notified, executed)" and "notified < 2 ^ 64 - 1"
  shows "executed + todo + unat (counter (world s)) = notified \<and>
    (\<exists>s'. (notifier_step nos user this)\<^sup>*\<^sup>* (s, todo, notified, executed) (s', 0, notified, notified))"
proof -
  have "accounted this c counter (s0, 0, 0, 0)" using assms(2,3) by simp
  from reach_accounted [OF assms(4,1) this] assms(5) have "accounted this c counter (s, todo, notified, executed)" by simp
  then show ?thesis using accounted_path [OF assms(1)] by fastforce
qed

text \<open>Two notifications, the first read, and a third one while the callback of the second is still to come.\<close>

lemma demo_thread_laws:
  "thread_laws demo_notifier_os (\<lambda>c s. (Ret 0, count_call s)) demo_notifier () (\<lambda>w. fst (snd w))"
  by (auto simp: thread_laws_def counter_laws_def demo_notifier_os_def demo_notifier_def count_call_def obj_def split_beta)

definition three_notified :: "(unit, notifier_world) EventLoop" where
  "three_notified = notifier_loop\<lparr>world := (\<lparr>notifier_fd = 5, notifier_handler = User ()\<rparr>, 1, 1)\<rparr>"

lemma three_notified_reached:
  "(notifier_step demo_notifier_os (\<lambda>c s. (Ret 0, count_call s)) demo_notifier)\<^sup>*\<^sup>*
     (notifier_loop, 0, 0, 0) (three_notified, Suc 0, Suc (Suc (Suc 0)), Suc 0)"
proof -
  let ?step = "notifier_step demo_notifier_os (\<lambda>c s. (Ret 0, count_call s)) demo_notifier"
  let ?s = "\<lambda>c k. notifier_loop\<lparr>world := (\<lparr>notifier_fd = 5, notifier_handler = User ()\<rparr>, c, k)\<rparr>"
  note defs = notifier_loop_def Notifier_notify_def sys_def demo_notifier_os_def demo_notifier_def obj_def count_call_def invoke_def
  have 1: "?step (?s 0 0, 0, 0, 0) (?s 1 0, 0, Suc 0, 0)" by (rule notify) (simp add: defs)
  have 2: "?step (?s 1 0, 0, Suc 0, 0) (?s 2 0, 0, Suc (Suc 0), 0)" by (rule notify) (simp add: defs)
  have "?step (?s 2 0, 0, Suc (Suc 0), 0) (?s 0 0, if (8 :: int) \<noteq> 8 then 0 else unat (2 :: 64 word), Suc (Suc 0), 0)"
    by (rule read) (simp add: defs)
  then have 3: "?step (?s 2 0, 0, Suc (Suc 0), 0) (?s 0 0, Suc (Suc 0), Suc (Suc 0), 0)"
    by (simp add: numeral_2_eq_2 [symmetric])
  have 4: "?step (?s 0 0, Suc (Suc 0), Suc (Suc 0), 0) (?s 0 1, Suc 0, Suc (Suc 0), Suc 0)"
    by (rule turn) (simp add: defs)
  have 5: "?step (?s 0 1, Suc 0, Suc (Suc 0), Suc 0) (?s 1 1, Suc 0, Suc (Suc (Suc 0)), Suc 0)"
    by (rule notify) (simp add: defs)
  have ends: "?s 0 0 = notifier_loop" "?s 1 1 = three_notified" by (simp_all add: notifier_loop_def three_notified_def)
  show ?thesis
    using converse_rtranclp_into_rtranclp [of ?step, OF 1 converse_rtranclp_into_rtranclp [of ?step, OF 2
        converse_rtranclp_into_rtranclp [of ?step, OF 3 converse_rtranclp_into_rtranclp [of ?step, OF 4 r_into_rtranclp [of ?step, OF 5]]]]]
    unfolding ends .
qed

theorem Notifier_loses_nothing_witness:
  "1 + 1 + unat (fst (snd (world three_notified))) = 3 \<and>
   (\<exists>s'. (notifier_step demo_notifier_os (\<lambda>c s. (Ret 0, count_call s)) demo_notifier)\<^sup>*\<^sup>* (three_notified, 1, 3, 1) (s', 0, 3, 3))"
  using Notifier_loses_nothing [OF demo_thread_laws _ _ three_notified_reached]
  by (simp add: notifier_loop_def obj_def demo_notifier_def numeral_3_eq_3 [symmetric])

end
