(* ===== verification/Delivery.thy ===== *)
theory Delivery
  imports SocketIO
begin

text \<open>
  Both ends of a connection together: what is sent on one side is received on the other. The transfer functions of
  \<open>SocketIO\<close> are composed on a world that holds the bytes under way; here receiving and sending are also shown to return.
\<close>

section \<open>Receiving completely\<close>

text \<open>Waiting that sooner or later reports the descriptor as ready: only signals interrupt it, finitely often.\<close>

lemma poll_loop_ready:
  assumes "\<And>s x s'. P s \<Longrightarrow> poll s = (x, s') \<Longrightarrow>
      P s' \<and> (x = Inr 1 \<and> patience s' \<le> (patience s :: nat) \<or> x = Inl EINTR \<and> patience s' < patience s)"
  shows "P s \<Longrightarrow> \<exists>s'. poll_loop poll s = Some (1, s') \<and> P s' \<and> patience s' \<le> patience s"
proof (induction "patience s" arbitrary: s rule: less_induct)
  case less
  obtain x s1 where x: "poll s = (x, s1)" by fastforce
  from assms [OF less.prems x] show ?case
  proof (elim conjE disjE)
    assume "P s1" and "x = Inr 1" and "patience s1 \<le> patience s"
    then show ?thesis using x by (simp add: poll_loop.simps [of poll s])
  next
    assume "P s1" and e: "x = Inl EINTR" and "patience s1 < patience s"
    then obtain s' where "poll_loop poll s1 = Some (1, s')" "P s'" "patience s' \<le> patience s"
      using less.hyps [of s1] by fastforce
    then show ?thesis using x e by (simp add: poll_loop.simps [of poll s])
  qed
qed

text \<open>
  A source on which what is unread arrives: a read delivers something or has to wait, waiting succeeds, and \<open>patience\<close>
  bounds how often the caller waits.
\<close>

locale arriving_source = byte_source valid read unread
  for valid :: "'s \<Rightarrow> bool" and read :: "nat \<Rightarrow> 's \<Rightarrow> (errno + bytes) \<times> 's" and unread :: "'s \<Rightarrow> bytes" +
  fixes poll :: "'s \<Rightarrow> (errno + int) \<times> 's"
    and patience :: "'s \<Rightarrow> nat"
  assumes arrives: "valid s \<Longrightarrow> 0 < n \<Longrightarrow> unread s \<noteq> [] \<Longrightarrow> read n s = (x, s') \<Longrightarrow>
      (\<exists>d. x = Inr d \<and> d \<noteq> [] \<and> patience s' \<le> patience s) \<or> x = Inl EAGAIN \<and> patience s' < patience s"
    and waits: "valid s \<Longrightarrow> unread s \<noteq> [] \<Longrightarrow> poll s = (y, s') \<Longrightarrow> valid s' \<and> unread s' = unread s \<and>
      (y = Inr 1 \<and> patience s' \<le> patience s \<or> y = Inl EINTR \<and> patience s' < patience s)"
begin

lemma poll_ready:
  assumes "valid s" and "unread s \<noteq> []"
  shows "\<exists>s'. poll_loop poll s = Some (1, s') \<and> valid s' \<and> unread s' = unread s \<and> patience s' \<le> patience s"
proof (rule poll_loop_ready [of "\<lambda>t. valid t \<and> unread t = unread s", simplified])
  fix t y t' assume "valid t \<and> unread t = unread s" and "poll t = (y, t')"
  then show "valid t' \<and> unread t' = unread s \<and>
      (y = Inr 1 \<and> patience t' \<le> patience t \<or> y = Inl EINTR \<and> patience t' < patience t)"
    using waits [of t y t'] assms(2) by simp
qed (use assms in simp)

lemma receive_loop_complete:
  "valid s \<Longrightarrow> length got \<le> len \<Longrightarrow> len - length got \<le> length (unread s) \<Longrightarrow>
   \<exists>s'. receive_loop read poll len got s = Some ((int len, got @ take (len - length got) (unread s)), s') \<and>
     valid s' \<and> unread s' = drop (len - length got) (unread s)"
proof (induction "(len - length got) + patience s" arbitrary: got s rule: less_induct)
  case less
  show ?case
  proof (cases "length got = len")
    case True
    then show ?thesis using less.prems(1) by (simp add: receive_loop.simps [of read poll])
  next
    case False
    then have left: "0 < len - length got" "unread s \<noteq> []" using less.prems(2,3) by auto
    obtain x s1 where x: "read (len - length got) s = (x, s1)" by fastforce
    have s1: "valid s1" using read_valid [OF less.prems(1), of "len - length got"] x by simp
    from arrives [OF less.prems(1) left x] show ?thesis
    proof (elim disjE exE conjE)
      fix d assume d: "x = Inr d" "d \<noteq> []" "patience s1 \<le> patience s"
      have split: "length d \<le> len - length got" "unread s = d @ unread s1"
        using read_data [OF less.prems(1)] x d(1) by auto
      have "len - length (got @ d) < len - length got" using d(2) left(1) by (cases d) auto
      then have "len - length (got @ d) + patience s1 < len - length got + patience s" using d(3) by linarith
      then have "\<exists>s'. receive_loop read poll len (got @ d) s1 =
          Some ((int len, (got @ d) @ take (len - length (got @ d)) (unread s1)), s') \<and>
          valid s' \<and> unread s' = drop (len - length (got @ d)) (unread s1)"
        using split less.prems s1 by (intro less.hyps) auto
      then show ?thesis
        using False d x split by (auto simp: receive_loop.simps [of read poll len got] diff_diff_left)
    next
      assume e: "x = Inl EAGAIN" "patience s1 < patience s"
      have un: "unread s1 = unread s" using read_error [OF less.prems(1)] x e(1) by blast
      then obtain s2 where s2: "poll_loop poll s1 = Some (1, s2)" "valid s2" "unread s2 = unread s"
          "patience s2 \<le> patience s1"
        using poll_ready [OF s1] left(2) by force
      have "len - length got + patience s2 < len - length got + patience s" using s2(4) e(2) by linarith
      from less.hyps [OF this s2(2) less.prems(2)] show ?thesis
        using False x e(1) s2 less.prems(3) by (auto simp: receive_loop.simps [of read poll len got s])
    qed
  qed
qed

end

text \<open>At the end of the stream a read delivers nothing, and the loop returns what it has.\<close>

lemma receive_loop_ended:
  assumes "0 < len" and "read len s = (Inr [], s')"
  shows "receive_loop read poll len [] s = Some ((0, []), s')"
  using assms by (simp add: receive_loop.simps [of read poll] to_int32_def)

text \<open>A socket on which the bytes of the peer arrive.\<close>

definition arriving :: "'w sock_io \<Rightarrow> int \<Rightarrow> ('w \<Rightarrow> bytes) \<Rightarrow> ('w \<Rightarrow> nat) \<Rightarrow> bool" where
  "arriving io fd incoming patience \<longleftrightarrow>
     (\<forall>n m w x w'. 0 < n \<longrightarrow> incoming w \<noteq> [] \<longrightarrow> io_readv io fd n m w = (x, w') \<longrightarrow>
        (\<exists>d. x = Inr d \<and> d \<noteq> [] \<and> patience w' \<le> patience w) \<or> x = Inl EAGAIN \<and> patience w' < patience w) \<and>
     (\<forall>w x w'. io_poll_in io fd (- 1) w = (x, w') \<longrightarrow> incoming w' = incoming w \<and>
        (x = Inr 1 \<and> patience w' \<le> patience w \<or> x = Inl EINTR \<and> patience w' < patience w))"

lemma recv_arrives:
  assumes "readv_laws readv fd incoming" and "reader_ok r" and "recv readv fd n (r, w) = (res, r', w')"
    and "0 < n" and "ahead r @ incoming w \<noteq> []"
    and "\<And>x w'. incoming w \<noteq> [] \<Longrightarrow> readv fd n BUFFER_SIZE w = (x, w') \<Longrightarrow>
      (\<exists>d. x = Inr d \<and> d \<noteq> [] \<and> patience w' \<le> patience w) \<or> x = Inl EAGAIN \<and> patience w' < (patience w :: nat)"
  shows "(\<exists>d. res = Inr d \<and> d \<noteq> [] \<and> patience w' \<le> patience w) \<or> res = Inl EAGAIN \<and> patience w' < patience w"
proof -
  have spec: "recv_spec readv fd n (ahead r, w) = (res, ahead r', w')"
    using recv_refines [OF assms(1-3)] by blast
  show ?thesis
  proof (cases "ahead r = []")
    case True
    obtain x w1 where x: "readv fd n BUFFER_SIZE w = (x, w1)" by fastforce
    then have "(\<exists>d. x = Inr d \<and> d \<noteq> [] \<and> patience w1 \<le> patience w) \<or> x = Inl EAGAIN \<and> patience w1 < patience w"
      using assms(5,6) True by simp
    then show ?thesis
    proof (elim disjE exE conjE)
      fix d assume d: "x = Inr d" "d \<noteq> []" "patience w1 \<le> patience w"
      then have "res = Inr (take n d)" "w' = w1" using spec True assms(4) x by (simp_all add: recv_spec_def)
      then show ?thesis using d assms(4) by simp
    next
      assume "x = Inl EAGAIN" "patience w1 < patience w"
      then show ?thesis using spec True assms(4) x by (simp add: recv_spec_def)
    qed
  next
    case False
    then have "res = Inr (take n (ahead r))" "w' = w" using spec by (simp_all add: recv_spec_def)
    then show ?thesis using False assms(4) by simp
  qed
qed

interpretation arriving_buffered: arriving_source
  "\<lambda>(r, w). readv_laws (io_readv io) fd incoming \<and> arriving io fd incoming patience \<and> reader_ok r"
  "recv (io_readv io) fd" "\<lambda>(r, w). ahead r @ incoming w" "poll_in io fd (- 1)" "\<lambda>(r, w). patience w"
  for io fd incoming patience
proof unfold_locales
  fix s :: "BufferedReader \<times> 'a" and n
  obtain r w where s: "s = (r, w)" by (cases s)
  assume valid: "case s of (r, w) \<Rightarrow> readv_laws (io_readv io) fd incoming \<and> arriving io fd incoming patience \<and> reader_ok r"
  then have laws: "readv_laws (io_readv io) fd incoming" "arriving io fd incoming patience" "reader_ok r"
    by (simp_all add: s)
  note source = buffered.read_valid [of "io_readv io" fd incoming s n] buffered.read_data [of "io_readv io" fd incoming s n]
    buffered.read_error [of "io_readv io" fd incoming s n]
  show "case snd (recv (io_readv io) fd n s) of (r, w) \<Rightarrow>
      readv_laws (io_readv io) fd incoming \<and> arriving io fd incoming patience \<and> reader_ok r"
    using source(1) laws s by (auto split: prod.splits)
  {
    fix d s' assume "recv (io_readv io) fd n s = (Inr d, s')"
    then show "length d \<le> n \<and> (case s of (r, w) \<Rightarrow> ahead r @ incoming w) =
        d @ (case s' of (r, w) \<Rightarrow> ahead r @ incoming w)"
      using source(2) laws s by blast
  next
    fix e s' assume "recv (io_readv io) fd n s = (Inl e, s')"
    then show "(case s' of (r, w) \<Rightarrow> ahead r @ incoming w) = (case s of (r, w) \<Rightarrow> ahead r @ incoming w)"
      using source(3) laws s by blast
  next
    fix x s' assume n: "0 < n" and un: "(case s of (r, w) \<Rightarrow> ahead r @ incoming w) \<noteq> []"
      and step: "recv (io_readv io) fd n s = (x, s')"
    obtain r' w' where s': "s' = (r', w')" by (cases s')
    have "(\<exists>d. x = Inr d \<and> d \<noteq> [] \<and> patience w' \<le> patience w) \<or> x = Inl EAGAIN \<and> patience w' < patience w"
    proof (rule recv_arrives [OF laws(1,3) _ n])
      show "recv (io_readv io) fd n (r, w) = (x, r', w')" using step by (simp add: s s')
      show "ahead r @ incoming w \<noteq> []" using un by (simp add: s)
    next
      fix y v assume "incoming w \<noteq> []" and "io_readv io fd n BUFFER_SIZE w = (y, v)"
      then show "(\<exists>d. y = Inr d \<and> d \<noteq> [] \<and> patience v \<le> patience w) \<or> y = Inl EAGAIN \<and> patience v < patience w"
        using laws(2) n unfolding arriving_def by blast
    qed
    then show "(\<exists>d. x = Inr d \<and> d \<noteq> [] \<and> (case s' of (r, w) \<Rightarrow> patience w) \<le> (case s of (r, w) \<Rightarrow> patience w)) \<or>
        x = Inl EAGAIN \<and> (case s' of (r, w) \<Rightarrow> patience w) < (case s of (r, w) \<Rightarrow> patience w)"
      by (simp add: s s')
  next
    fix y s' assume "poll_in io fd (- 1) s = (y, s')"
    then obtain w' where w': "io_poll_in io fd (- 1) w = (y, w')" "s' = (r, w')"
      by (auto simp: poll_in_def s split: prod.splits)
    have "incoming w' = incoming w" using laws(2) w'(1) unfolding arriving_def by blast
    moreover have "y = Inr 1 \<and> patience w' \<le> patience w \<or> y = Inl EINTR \<and> patience w' < patience w"
      using laws(2) w'(1) unfolding arriving_def by blast
    ultimately show "(case s' of (r, w) \<Rightarrow> readv_laws (io_readv io) fd incoming \<and> arriving io fd incoming patience \<and> reader_ok r) \<and>
        (case s' of (r, w) \<Rightarrow> ahead r @ incoming w) = (case s of (r, w) \<Rightarrow> ahead r @ incoming w) \<and>
        (y = Inr 1 \<and> (case s' of (r, w) \<Rightarrow> patience w) \<le> (case s of (r, w) \<Rightarrow> patience w) \<or>
         y = Inl EINTR \<and> (case s' of (r, w) \<Rightarrow> patience w) < (case s of (r, w) \<Rightarrow> patience w))"
      using laws by (simp add: s w'(2))
  }
qed

lemma receiveComplete_complete:
  assumes "readv_laws (io_readv io) fd incoming" and "arriving io fd incoming patience" and "reader_ok r"
    and "len \<le> length (ahead r @ incoming w)"
  shows "\<exists>r' w'. receiveComplete io fd len (- 1) (r, w) = Some ((int len, take len (ahead r @ incoming w)), r', w') \<and>
    reader_ok r' \<and> ahead r' @ incoming w' = drop len (ahead r @ incoming w)"
  using arriving_buffered.receive_loop_complete [of io fd incoming patience "(r, w)" "[]" len] assms
  by (auto simp: receiveComplete_def)

section \<open>Sending completely\<close>

text \<open>
  A connection that stays alive: a send takes over something or fails temporarily, waiting reports that the socket
  is writable, and both fail only finitely often.
\<close>

definition alive :: "'w sock_io \<Rightarrow> int \<Rightarrow> ('w \<Rightarrow> nat) \<Rightarrow> bool" where
  "alive io fd patience \<longleftrightarrow>
     (\<forall>b m w x w'. b \<noteq> [] \<longrightarrow> io_send io fd b m w = (x, w') \<longrightarrow>
        (\<exists>n. x = Inr n \<and> 0 < n \<and> patience w' \<le> patience w) \<or>
        (\<exists>e. x = Inl e \<and> e \<in> {EAGAIN, EINTR} \<and> patience w' < patience w)) \<and>
     (\<forall>bs m w x w'. concat bs \<noteq> [] \<longrightarrow> io_sendmsg io fd bs m w = (x, w') \<longrightarrow>
        (\<exists>n. x = Inr n \<and> 0 < n \<and> patience w' \<le> patience w) \<or>
        (\<exists>e. x = Inl e \<and> e \<in> {EAGAIN, EINTR} \<and> patience w' < patience w)) \<and>
     (\<forall>t w x w'. io_poll_out io fd t w = (x, w') \<longrightarrow>
        x = Inr 1 \<and> patience w' \<le> patience w \<or> x = Inl EINTR \<and> patience w' < patience w)"

lemma waitForWritable_ready:
  assumes "alive io fd patience"
  shows "\<exists>w'. waitForWritable io fd t w = Some (1, w') \<and> patience w' \<le> patience w"
  using poll_loop_ready [of "\<lambda>_. True" "io_poll_out io fd t" patience w] assms
  unfolding waitForWritable_def alive_def by blast

lemma sendBlock_loop_complete:
  assumes "alive io fd patience"
  shows "\<exists>w'. sendBlock_loop io fd msgMore left retVal w = Some (retVal, w')"
proof (induction "patience w + length left" arbitrary: left w rule: less_induct)
  case less
  show ?case
  proof (cases "left = []")
    case False
    obtain y w1 where y: "io_send io fd left msgMore w = (y, w1)" by fastforce
    have "(\<exists>n. y = Inr n \<and> 0 < n \<and> patience w1 \<le> patience w) \<or>
        (\<exists>e. y = Inl e \<and> e \<in> {EAGAIN, EINTR} \<and> patience w1 < patience w)"
      using assms False y unfolding alive_def by blast
    then show ?thesis
    proof (elim disjE exE conjE)
      fix n assume n: "y = Inr n" "0 < n" "patience w1 \<le> patience w"
      then have "patience w1 + length (drop n left) < patience w + length left" using False by (cases left) auto
      then show ?thesis
        using less.hyps [of w1 "drop n left"] False y n by (auto simp: sendBlock_loop.simps [of io fd msgMore left])
    next
      fix e assume e: "y = Inl e" "e \<in> {EAGAIN, EINTR}" "patience w1 < patience w"
      obtain w2 where w2: "waitForWritable io fd (- 1) w1 = Some (1, w2)" "patience w2 \<le> patience w1"
        using waitForWritable_ready [OF assms] by blast
      have "\<exists>w'. sendBlock_loop io fd msgMore left retVal w1 = Some (retVal, w')"
          "\<exists>w'. sendBlock_loop io fd msgMore left retVal w2 = Some (retVal, w')"
        using less.hyps e(3) w2(2) by auto
      then show ?thesis using False y e w2(1) by (auto simp: sendBlock_loop.simps [of io fd msgMore left])
    qed
  qed (simp add: sendBlock_loop.simps [of io fd msgMore "[]"])
qed

lemma sendBlock_complete:
  assumes "alive io fd patience" and "send_laws io fd sent"
  shows "\<exists>w'. sendBlock io fd block msgMore w = Some (int (length block), w') \<and> sent w' = sent w @ block"
proof -
  obtain w' where w': "sendBlock io fd block msgMore w = Some (int (length block), w')"
    using sendBlock_loop_complete [OF assms(1)] unfolding sendBlock_def by blast
  then have "\<exists>k \<le> length block. sent w' = sent w @ take k block \<and> k = length block"
    using sendBlock_loop_sends [OF w' [unfolded sendBlock_def] assms(2)] by auto
  then show ?thesis using w' by auto
qed

lemma sendBlocks_loop_complete:
  assumes "alive io fd patience" and "send_laws io fd sent"
  shows "concat bs \<noteq> [] \<Longrightarrow> length (concat bs) < 2 ^ 64 \<Longrightarrow>
    \<exists>w'. sendBlocks_loop io fd msgMore totalLength (length (concat bs)) bs w = Some (Inr (int totalLength), w')"
proof (induction "patience w + length (concat bs)" arbitrary: bs w rule: less_induct)
  case less
  obtain y w1 where y: "io_sendmsg io fd bs msgMore w = (y, w1)" by fastforce
  define n where "n = (case y of Inl e \<Rightarrow> 0 | Inr n \<Rightarrow> n)"
  have step: "(\<exists>n. y = Inr n \<and> 0 < n \<and> patience w1 \<le> patience w) \<or>
      (\<exists>e. y = Inl e \<and> e \<in> {EAGAIN, EINTR} \<and> patience w1 < patience w)"
    using assms(1) less.prems(1) y unfolding alive_def by blast
  have n: "n \<le> length (concat bs)" using assms(2) y by (cases y) (auto simp: send_laws_def n_def)
  have go: "y \<noteq> Inr 0" "\<not> (case y of Inl e \<Rightarrow> e \<noteq> EWOULDBLOCK \<and> e \<noteq> EAGAIN \<and> e \<noteq> EINTR | Inr n \<Rightarrow> False)"
    using step by auto
  have minus: "size_minus (length (concat bs)) n = length (concat bs) - n"
    using n less.prems(2) by (simp add: size_minus_le)
  show ?case
  proof (cases "n = length (concat bs)")
    case True
    then show ?thesis
      using y go minus by (simp add: sendBlocks_loop.simps [of io fd msgMore totalLength _ bs] n_def [symmetric])
  next
    case False
    obtain bs' where bs': "reorganize n bs = Some bs'" "concat bs' = drop n (concat bs)"
      using reorganize_drop [of n bs] n False by auto
    obtain w2 where w2: "waitForWritable io fd (- 1) w1 = Some (1, w2)" "patience w2 \<le> patience w1"
      using waitForWritable_ready [OF assms(1)] by blast
    have len: "length (concat bs') = length (concat bs) - n" by (simp only: bs'(2) length_drop)
    have "patience w2 + length (concat bs') < patience w + length (concat bs)"
      using step w2(2) n False unfolding len by (auto simp: n_def)
    moreover have "concat bs' \<noteq> []" using len n False by (metis diff_is_0_eq le_antisym length_0_conv)
    moreover have "length (concat bs') < 2 ^ 64" using len less.prems(2) by linarith
    ultimately obtain w' where
      "sendBlocks_loop io fd msgMore totalLength (length (concat bs')) bs' w2 = Some (Inr (int totalLength), w')"
      using less.hyps by blast
    then show ?thesis
      using y go minus False n bs'(1) w2(1) len
      by (simp add: sendBlocks_loop.simps [of io fd msgMore totalLength _ bs] n_def [symmetric])
  qed
qed

lemma sendBlocks_complete:
  assumes "alive io fd patience" and "send_laws io fd sent" and "length (concat blocks) < 2 ^ 64" and "concat blocks \<noteq> []"
  shows "\<exists>w'. sendBlocks io fd blocks msgMore w = Some (Inr (int (length (concat blocks))), w') \<and>
    sent w' = sent w @ concat blocks"
proof -
  obtain w' where w': "sendBlocks_loop io fd msgMore (length (concat blocks)) (length (concat blocks)) blocks w =
      Some (Inr (int (length (concat blocks))), w')"
    using sendBlocks_loop_complete [OF assms(1,2,4,3)] by blast
  have "sent w' = sent w @ concat blocks"
    using sendBlocks_loop_sends [OF w' assms(2,3)] assms(4) by (auto simp del: concat_eq_Nil_conv Nil_eq_concat_conv)
  with w' assms(4) show ?thesis by (auto simp: sendBlocks_def sendBlocks_array_def foldl_snoc foldl_length Let_def)
qed

section \<open>The substitute for sendmsg\<close>

text \<open>
  For tests, \<open>sendBlocks\<close> can be compiled with a substitute for \<open>sendmsg\<close>, which sends at most 7000 bytes, block by
  block. It returns what \<open>sendBlock\<close> returns when that is not positive.
\<close>

definition MAX_BYTES_TO_PROCESS :: nat where "MAX_BYTES_TO_PROCESS = 7000"

fun sendmsgFake_loop :: "'w sock_io \<Rightarrow> int \<Rightarrow> bool \<Rightarrow> nat \<Rightarrow> int \<Rightarrow> bytes list \<Rightarrow> 'w \<Rightarrow> (int \<times> 'w) option" where
  "sendmsgFake_loop io fd flags remaining bytesSend [] w = Some (bytesSend, w)"
| "sendmsgFake_loop io fd flags remaining bytesSend (b # bs) w =
     (let bytesToSend = (if length b < remaining then length b else remaining) in
      case sendBlock io fd (take bytesToSend b) flags w of
        None \<Rightarrow> None
      | Some (result, w) \<Rightarrow>
          if result \<le> 0 then Some (result, w)
          else let bytesSend = bytesSend + result;
                   remaining = remaining - nat result in
            if remaining = 0 then Some (bytesSend, w) else sendmsgFake_loop io fd flags remaining bytesSend bs w)"

definition sendmsgFake :: "'w sock_io \<Rightarrow> int \<Rightarrow> bytes list \<Rightarrow> bool \<Rightarrow> 'w \<Rightarrow> (int \<times> 'w) option" where
  "sendmsgFake io fd msg flags w = sendmsgFake_loop io fd flags MAX_BYTES_TO_PROCESS 0 msg w"

text \<open>Without empty blocks it behaves like a \<open>sendmsg\<close> that takes over the first 7000 bytes.\<close>

lemma sendmsgFake_loop_prefix:
  assumes "alive io fd patience" and "send_laws io fd sent"
  shows "[] \<notin> set bs \<Longrightarrow> 0 < remaining \<Longrightarrow>
    \<exists>w'. sendmsgFake_loop io fd flags remaining n bs w = Some (n + int (min remaining (length (concat bs))), w') \<and>
      sent w' = sent w @ take remaining (concat bs)"
proof (induction bs arbitrary: remaining n w)
  case (Cons b bs)
  let ?k = "if length b < remaining then length b else remaining"
  have k: "0 < ?k" "?k \<le> length b" using Cons.prems by auto
  obtain w1 where w1: "sendBlock io fd (take ?k b) flags w = Some (int ?k, w1)" "sent w1 = sent w @ take ?k b"
    using sendBlock_complete [OF assms, of "take ?k b" flags w] k(2) by auto
  show ?case
  proof (cases "length b < remaining")
    case True
    then obtain w' where w': "sendmsgFake_loop io fd flags (remaining - length b) (n + int (length b)) bs w1 =
        Some (n + int (length b) + int (min (remaining - length b) (length (concat bs))), w')"
        "sent w' = sent w1 @ take (remaining - length b) (concat bs)"
      using Cons.IH [of "remaining - length b" "n + int (length b)" w1] Cons.prems by auto
    then show ?thesis using True w1 k by (auto simp: Let_def)
  next
    case False
    then show ?thesis using w1 k by (auto simp: Let_def)
  qed
qed auto

lemma sendmsgFake_prefix:
  assumes "alive io fd patience" and "send_laws io fd sent" and "[] \<notin> set bs"
  shows "\<exists>w'. sendmsgFake io fd bs flags w = Some (int (min MAX_BYTES_TO_PROCESS (length (concat bs))), w') \<and>
    sent w' = sent w @ take MAX_BYTES_TO_PROCESS (concat bs)"
  using sendmsgFake_loop_prefix [OF assms, of MAX_BYTES_TO_PROCESS flags 0 w]
  by (simp add: sendmsgFake_def MAX_BYTES_TO_PROCESS_def)

text \<open>An empty block ends it with 0, although the blocks in front of it were sent: \<open>sendBlocks\<close> then reports 0.\<close>

lemma sendmsgFake_empty_block:
  assumes "alive io fd patience" and "send_laws io fd sent" and "b \<noteq> []" and "length b < MAX_BYTES_TO_PROCESS"
  shows "\<exists>w'. sendmsgFake io fd (b # [] # bs) flags w = Some (0, w') \<and> sent w' = sent w @ b"
proof -
  obtain w1 where "sendBlock io fd b flags w = Some (int (length b), w1)" "sent w1 = sent w @ b"
    using sendBlock_complete [OF assms(1,2)] by blast
  moreover have "sendBlock io fd [] flags w1 = Some (0, w1)"
    by (simp add: sendBlock_def sendBlock_loop.simps [of io fd flags "[]"])
  ultimately show ?thesis using assms(3,4) by (auto simp: sendmsgFake_def Let_def)
qed

section \<open>What the transfer functions leave alone\<close>

lemma receive_loop_keeps:
  assumes "receive_loop read poll len got s = Some (x, s')"
    and "\<And>n s. f (snd (read n s)) = f s" and "\<And>s. f (snd (poll s)) = f s"
  shows "f s' = f s"
proof -
  have "(\<forall>n s. f (snd (read n s)) = f s) \<longrightarrow> (\<forall>s. f (snd (poll s)) = f s) \<longrightarrow> f (snd y) = f s"
    if "receive_loop read poll len got s = Some y" for y
    using that
  proof (induction rule: receive_loop.raw_induct [rotated, consumes 1, case_names step])
    case (step loop read poll len got s y)
    show ?case
    proof (intro impI)
      assume keep: "\<forall>n s. f (snd (read n s)) = f s" "\<forall>s. f (snd (poll s)) = f s"
      show "f (snd y) = f s"
      proof (cases "length got = len")
        case False
        obtain z s1 where z: "read (len - length got) s = (z, s1)" by fastforce
        have s1: "f s1 = f s" using keep(1) z by (metis snd_conv)
        show ?thesis
        proof (cases z)
          case (Inr d)
          then show ?thesis using step(1) [of read poll len "got @ d" s1 y] step(2) False z s1 keep by (auto split: if_splits)
        next
          case (Inl e)
          show ?thesis
          proof (cases "poll_loop poll s1")
            case None
            then show ?thesis using step(2) False z Inl s1 by (auto split: if_splits)
          next
            case (Some p)
            then have "f (snd p) = f s1" using poll_loop_keeps [of poll s1 "fst p" "snd p" f] keep(2) by simp
            then show ?thesis
              using step(1) [of read poll len got "snd p" y] step(2) False z Inl s1 Some keep
              by (cases p) (auto split: if_splits)
          qed
        qed
      qed (use step(2) in auto)
    qed
  qed
  from this [OF assms(1)] assms(2,3) show ?thesis by simp
qed

lemma receiveComplete_keeps:
  assumes "receiveComplete io fd len t (r, w) = Some (x, r', w')"
    and "\<And>n m w. f (snd (io_readv io fd n m w)) = f w" and "\<And>t w. f (snd (io_poll_in io fd t w)) = f w"
  shows "f w' = f w"
proof -
  have "f (snd (snd (recv (io_readv io) fd n s))) = f (snd s)" for n s
    using assms(2) by (cases s) (auto simp: recv_def Let_def split: prod.splits sum.splits if_splits; metis snd_conv)
  moreover have "f (snd (snd (poll_in io fd t s))) = f (snd s)" for s
    using assms(3) by (simp add: poll_in_def split_beta)
  ultimately show ?thesis
    using receive_loop_keeps [OF assms(1) [unfolded receiveComplete_def], of "f \<circ> snd"] by simp
qed

lemma sendBlock_keeps:
  assumes "sendBlock io fd block msgMore w = Some (r, w')"
    and "\<And>b m w. f (snd (io_send io fd b m w)) = f w" and "\<And>t w. f (snd (io_poll_out io fd t w)) = f w"
  shows "f w' = f w"
proof -
  have "(\<forall>b m w. f (snd (io_send io fd b m w)) = f w) \<longrightarrow> (\<forall>t w. f (snd (io_poll_out io fd t w)) = f w) \<longrightarrow>
      f (snd x) = f w"
    if "sendBlock_loop io fd msgMore left retVal w = Some x" for x left retVal
    using that
  proof (induction rule: sendBlock_loop.raw_induct [rotated, consumes 1, case_names step])
    case (step loop io fd msgMore left retVal w x)
    show ?case
    proof (intro impI)
      assume keep: "\<forall>b m w. f (snd (io_send io fd b m w)) = f w" "\<forall>t w. f (snd (io_poll_out io fd t w)) = f w"
      obtain y w1 where y: "io_send io fd left msgMore w = (y, w1)" by fastforce
      have w1: "f w1 = f w" using keep(1) y by (metis snd_conv)
      have wait: "f (snd p) = f w1" if "waitForWritable io fd (- 1) w1 = Some p" for p
        using poll_loop_keeps [of _ w1 "fst p" "snd p" f] that keep(2) by (simp add: waitForWritable_def)
      show "f (snd x) = f w"
        using step(1) [of io fd msgMore _ retVal _ x] step(2) y w1 wait keep
        by (cases y; cases "left = []"; cases "waitForWritable io fd (- 1) w1") (auto split: if_splits)
    qed
  qed
  from this [OF assms(1) [unfolded sendBlock_def]] assms(2,3) show ?thesis by simp
qed

section \<open>A concrete connection\<close>

text \<open>
  Two ends: the bytes on the way and a number of calls that fail. A send takes over at most three bytes, a read at most five.
\<close>

type_synonym pipe = "bytes \<times> nat"

fun pipe_send :: "bytes \<Rightarrow> pipe \<Rightarrow> (errno + nat) \<times> pipe" where
  "pipe_send b (p, Suc fails) = (Inl EAGAIN, p, fails)"
| "pipe_send b (p, 0) = (Inr (min 3 (length b)), p @ take 3 b, 0)"

fun pipe_read :: "nat \<Rightarrow> pipe \<Rightarrow> (errno + bytes) \<times> pipe" where
  "pipe_read n (p, Suc fails) = (Inl EAGAIN, p, fails)"
| "pipe_read n (p, 0) = (Inr (take (min 5 n) p), drop (min 5 n) p, 0)"

definition pipe_io :: "pipe sock_io" where
  "pipe_io = \<lparr>io_poll_out = (\<lambda>fd t w. (Inr 1, w)), io_poll_in = (\<lambda>fd t w. (Inr 1, w)),
     io_send = (\<lambda>fd b m. pipe_send b), io_sendmsg = (\<lambda>fd bs m. pipe_send (concat bs)),
     io_readv = (\<lambda>fd n m. pipe_read (n + m))\<rparr>"

lemma pipe_send_facts:
  "pipe_send b w = (Inr n, w') \<Longrightarrow> n \<le> length b \<and> fst w' = fst w @ take n b \<and> (b \<noteq> [] \<longrightarrow> 0 < n) \<and> snd w' = snd w"
  "pipe_send b w = (Inl e, w') \<Longrightarrow> fst w' = fst w \<and> e = EAGAIN \<and> snd w' < snd w"
  by (cases w; cases "snd w"; force simp: min_def)+

lemma pipe_read_facts:
  "pipe_read n w = (Inr d, w') \<Longrightarrow>
     length d \<le> n \<and> fst w = d @ fst w' \<and> (0 < n \<longrightarrow> fst w \<noteq> [] \<longrightarrow> d \<noteq> []) \<and> snd w' = snd w"
  "pipe_read n w = (Inl e, w') \<Longrightarrow> fst w' = fst w \<and> e = EAGAIN \<and> snd w' < snd w"
proof -
  obtain p k where w: "w = (p, k)" by (cases w)
  show "length d \<le> n \<and> fst w = d @ fst w' \<and> (0 < n \<longrightarrow> fst w \<noteq> [] \<longrightarrow> d \<noteq> []) \<and> snd w' = snd w"
    if "pipe_read n w = (Inr d, w')"
  proof -
    have "k = 0" and "d = take (min 5 n) p" and "w' = (drop (min 5 n) p, 0)"
      using that w by (cases k; force)+
    then show ?thesis by (simp add: w)
  qed
  show "fst w' = fst w \<and> e = EAGAIN \<and> snd w' < snd w" if "pipe_read n w = (Inl e, w')"
    using that w by (cases k) auto
qed

lemma pipe_send_alive:
  assumes "b \<noteq> []" and "pipe_send b w = (x, w')"
  shows "(\<exists>n. x = Inr n \<and> 0 < n \<and> snd w' \<le> snd w) \<or> (\<exists>e. x = Inl e \<and> e \<in> {EAGAIN, EINTR} \<and> snd w' < snd w)"
  using pipe_send_facts [of b w] assms by (cases x) auto

lemma pipe_read_arrives:
  assumes "0 < n" and "fst w \<noteq> []" and "pipe_read (n + m) w = (x, w')"
  shows "(\<exists>d. x = Inr d \<and> d \<noteq> [] \<and> snd w' \<le> snd w) \<or> x = Inl EAGAIN \<and> snd w' < snd w"
  using pipe_read_facts [of "n + m" w] assms by (cases x) auto

lemma pipe_laws:
  "send_laws pipe_io fd fst" "readv_laws (io_readv pipe_io) fd fst" "arriving pipe_io fd fst snd" "alive pipe_io fd snd"
proof -
  show "send_laws pipe_io fd fst"
    unfolding send_laws_def pipe_io_def sock_io.simps using pipe_send_facts(1,2) by (intro conjI allI impI) (blast | simp)+
  show "readv_laws (io_readv pipe_io) fd fst"
    unfolding readv_laws_def pipe_io_def sock_io.simps using pipe_read_facts(1,2) by (intro conjI allI impI) blast+
  show "arriving pipe_io fd fst snd"
    unfolding arriving_def pipe_io_def sock_io.simps using pipe_read_arrives by (intro conjI allI impI) (blast | simp)+
  show "alive pipe_io fd snd"
    unfolding alive_def pipe_io_def sock_io.simps
  proof (intro conjI allI impI)
    fix b m w x w' assume "b \<noteq> []" and "pipe_send b w = (x, w')"
    then show "(\<exists>n. x = Inr n \<and> 0 < n \<and> snd w' \<le> snd w) \<or> (\<exists>e. x = Inl e \<and> e \<in> {EAGAIN, EINTR} \<and> snd w' < snd w)"
      by (rule pipe_send_alive)
  next
    fix bs m w x w' assume "concat bs \<noteq> []" and "pipe_send (concat bs) w = (x, w')"
    then show "(\<exists>n. x = Inr n \<and> 0 < n \<and> snd w' \<le> snd w) \<or> (\<exists>e. x = Inl e \<and> e \<in> {EAGAIN, EINTR} \<and> snd w' < snd w)"
      by (rule pipe_send_alive)
  qed auto
qed

section \<open>Properties\<close>

text \<open>
  Claim C6: on a connection that stays alive, \<open>sendBlocks\<close> on one end returns the total length of the blocks, and
  \<open>receiveComplete\<close> of as many bytes on the other end then returns their concatenation, with nothing left on the way. The
  loops of both return, whatever part of the data the system calls take over or deliver at a time.
\<close>

theorem transfer_delivers:
  assumes "alive io a patience" and "send_laws io a under_way" and "readv_laws (io_readv io) b under_way"
    and "arriving io b under_way patience'" and "reader_ok r" and "ahead r = []" and "under_way w = []"
    and "concat blocks \<noteq> []" and "length (concat blocks) < 2 ^ 64"
  shows "\<exists>w' r'' w''. sendBlocks io a blocks msgMore w = Some (Inr (int (length (concat blocks))), w') \<and>
    receiveComplete io b (length (concat blocks)) (- 1) (r, w') =
      Some ((int (length (concat blocks)), concat blocks), r'', w'') \<and> ahead r'' = [] \<and> under_way w'' = []"
proof -
  obtain w' where w': "sendBlocks io a blocks msgMore w = Some (Inr (int (length (concat blocks))), w')"
      "under_way w' = concat blocks"
    using sendBlocks_complete [OF assms(1,2,9,8), of msgMore w] assms(7) by auto
  then show ?thesis
    using receiveComplete_complete [OF assms(3-5), of "length (concat blocks)" w'] assms(6) by auto
qed

theorem transfer_delivers_witness:
  "\<exists>w' r'' w''. sendBlocks pipe_io 3 [[1], [], [2, 3]] False ([], 2) = Some (Inr 3, w') \<and>
     receiveComplete pipe_io 4 3 (- 1) (fresh_reader, w') = Some ((3, [1, 2, 3]), r'', w'') \<and> fst w'' = []"
  using transfer_delivers [where io = pipe_io and a = 3 and b = 4 and under_way = fst and patience = snd and
      patience' = snd and r = fresh_reader and w = "([], 2)" and blocks = "[[1], [], [2, 3]]" and msgMore = False]
  by (simp add: pipe_laws fresh_reader_ok numeral_3_eq_3) blast

end
