(* ===== verification/CommTools.thy ===== *)
theory CommTools
  imports Delivery TcpServer InetText
begin

text \<open>
  The echo server and its client, \<open>tool/communication/Server.cpp\<close> and \<open>Client.cpp\<close>: they use the connection, the TCP server
  and the event loop as an application does. What they write to the console is not modelled, except for the reports of the
  client. A program ends with an exit code or with an exception that leaves \<open>main\<close>.
\<close>

definition EXIT_SUCCESS :: int where "EXIT_SUCCESS = 0"

definition EXIT_FAILURE :: int where "EXIT_FAILURE = 1"

section \<open>The server\<close>

text \<open>
  The loop of \<open>cb\<close>: \<open>buffer\<close> is the one byte on its stack, which a failing call leaves as it was. The result of sending is
  not looked at; only the end of the stream ends the loop.
\<close>

partial_function (option) echo_loop ::
  "'w sock_io \<Rightarrow> int \<Rightarrow> 8 word \<Rightarrow> BufferedReader \<times> 'w \<Rightarrow> (BufferedReader \<times> 'w) option" where
  "echo_loop io fd buffer s =
     (case receiveComplete io fd 1 (- 1) s of
        None \<Rightarrow> None
      | Some ((result, got), r, w) \<Rightarrow>
          (let buffer = (case got of [] \<Rightarrow> buffer | b # _ \<Rightarrow> b) in
           if result = 0 then Some (r, w)
           else case sendBlock io fd [buffer] False w of
             None \<Rightarrow> None
           | Some (_, w) \<Rightarrow> echo_loop io fd buffer (r, w)))"

text \<open>The callback owns the worker, so the connection is destroyed at its end.\<close>

definition server_cb :: "'w socket_os \<Rightarrow> 'w epoll_os \<Rightarrow> 8 word \<Rightarrow> ('w, 'd SocketNonblocking) ref \<Rightarrow>
    ('h, 'w) EventLoop \<Rightarrow> (outcome \<times> ('h, 'w) EventLoop) option" where
  "server_cb so os buffer workerSocket s =
     (case echo_loop (so_io so) (m_event (obj workerSocket s)) buffer
        (m_bufferedReader (obj workerSocket s), world s) of
        None \<Rightarrow> None
      | Some (r, w) \<Rightarrow>
          (let s = s\<lparr>world := w\<rparr>;
               s = set_obj workerSocket ((obj workerSocket s)\<lparr>m_bufferedReader := r\<rparr>) s in
           Some (Ret 0, SocketNonblocking_dtor so os workerSocket s)))"

text \<open>The signals \<open>main\<close> handles, and their handlers.\<close>

datatype signo = SIGTERM | SIGINT | SIGPIPE

datatype sig_handler = SigHandlerStop | SigHandlerIgnore

definition run_sig_handler :: "'w epoll_os \<Rightarrow> sig_handler \<Rightarrow> ('h, 'w) EventLoop \<Rightarrow> ('h, 'w) EventLoop" where
  "run_sig_handler os handler s =
     (case handler of
        SigHandlerStop \<Rightarrow> stop os s
      | SigHandlerIgnore \<Rightarrow> s)"

text \<open>
  The \<open>try\<close> block: the argument is a port number or, when anything throws, the name of a unix domain socket. \<open>c\<close> is the
  callback \<open>cb\<close>.
\<close>

definition server_start :: "('w, 'd) tcp_os \<Rightarrow> 'w epoll_os \<Rightarrow> ('h, ('h, 'w) EventLoop) runner \<Rightarrow> 'h \<Rightarrow> 'c \<Rightarrow> string \<Rightarrow>
    ('w, 'c TcpServer) ref \<Rightarrow> ('h, 'w) EventLoop \<Rightarrow> (outcome \<times> ('h, 'w) EventLoop) option" where
  "server_start ts os run h c arg server s =
     (case stoul arg of
        Inl _ \<Rightarrow> TcpServer_start_path ts os run h arg 1 (Some c) server s
      | Inr n \<Rightarrow>
          (let port = ucast n in
           case TcpServer_start_port ts os run h port 1 (Some c) server s of
             None \<Rightarrow> None
           | Some (Throw _, s) \<Rightarrow> TcpServer_start_path ts os run h arg 1 (Some c) server s
           | Some (Ret r, s) \<Rightarrow> Some (Ret r, s)))"

definition server_main :: "(signo \<Rightarrow> sig_handler \<Rightarrow> 'w \<Rightarrow> 'w) \<Rightarrow> ('w, 'd) tcp_os \<Rightarrow> 'w epoll_os \<Rightarrow>
    ('h, ('h, 'w) EventLoop) runner \<Rightarrow> 'h \<Rightarrow> 'c \<Rightarrow> string list \<Rightarrow> ('w, 'c TcpServer) ref \<Rightarrow> ('h, 'w) EventLoop \<Rightarrow>
    (outcome \<times> ('h, 'w) EventLoop) option" where
  "server_main signal ts os run h c argv server s =
     (let s = s\<lparr>world := signal SIGTERM SigHandlerStop (world s)\<rparr>;
          s = s\<lparr>world := signal SIGINT SigHandlerStop (world s)\<rparr>;
          s = s\<lparr>world := signal SIGPIPE SigHandlerIgnore (world s)\<rparr> in
      if length argv \<noteq> 2 then Some (Ret EXIT_SUCCESS, s)
      else let s = set_obj server TcpServer_ctor s in
        andThen (server_start ts os run h c (argv ! 1) server s) (\<lambda>_ s.
          case execute os run s of
            None \<Rightarrow> None
          | Some (None, s) \<Rightarrow> Some (Throw UndefinedBehaviour, s)
          | Some (Some _, s) \<Rightarrow> Some (Ret EXIT_SUCCESS, TcpServer_dtor ts os server s)))"

section \<open>The client\<close>

text \<open>
  \<open>strncmp\<close> compares up to a zero byte or \<open>n\<close> bytes; both arguments of the client have as many, so that the last equation is
  not reached.
\<close>

fun strncmp :: "bytes \<Rightarrow> bytes \<Rightarrow> nat \<Rightarrow> int" where
  "strncmp xs ys 0 = 0"
| "strncmp (x # xs) (y # ys) (Suc n) =
     (if x \<noteq> y then int (unat x) - int (unat y) else if x = 0 then 0 else strncmp xs ys n)"
| "strncmp xs ys (Suc n) = int (length xs) - int (length ys)"

text \<open>\<open>snprintf\<close> writes the text with a zero byte into the buffer and cuts it off where the buffer ends.\<close>

definition snprintf :: "string \<Rightarrow> bytes \<Rightarrow> bytes" where
  "snprintf t buffer =
     (let t = take (length buffer - 1) (map of_char t) in t @ [0] @ drop (length t + 1) buffer)"

definition greeting :: "32 word \<Rightarrow> string" where
  "greeting processId = ''hallo ('' @ to_string (unat processId) @ '')''"

datatype client_report = CouldNotSend int | UnexpectedAmount int | UnexpectedData

fun client_loop :: "'w sock_io \<Rightarrow> int \<Rightarrow> nat \<Rightarrow> bytes \<Rightarrow> bytes \<Rightarrow> BufferedReader \<times> 'w \<Rightarrow>
    ((int \<times> client_report list) \<times> BufferedReader \<times> 'w) option" where
  "client_loop io fd 0 sndBuffer recvBuffer s = Some ((EXIT_SUCCESS, []), s)"
| "client_loop io fd (Suc cycles) sndBuffer recvBuffer (r, w) =
     (case sendBlock io fd sndBuffer False w of
        None \<Rightarrow> None
      | Some (result, w) \<Rightarrow>
          if result \<noteq> int (length sndBuffer) then Some ((EXIT_FAILURE, [CouldNotSend result]), r, w)
          else (case receiveComplete io fd (length sndBuffer) (- 1) (r, w) of
             None \<Rightarrow> None
           | Some ((result, got), s) \<Rightarrow>
               (let recvBuffer = got @ drop (length got) recvBuffer in
                if result \<noteq> int (length sndBuffer) then Some ((EXIT_FAILURE, [UnexpectedAmount result]), s)
                else let report = (if strncmp recvBuffer sndBuffer (length sndBuffer) \<noteq> 0 then [UnexpectedData] else []) in
                  case client_loop io fd cycles sndBuffer recvBuffer s of
                    None \<Rightarrow> None
                  | Some ((code, reports), s) \<Rightarrow> Some ((code, report @ reports), s))))"

definition cycleCount :: nat where "cycleCount = 10000"

text \<open>
  \<open>main\<close> on an event loop that is constructed: \<open>uninit\<close>, \<open>snd0\<close> and \<open>recv0\<close> are what the memory of the reader and of the
  two buffers holds before.
\<close>

definition client_main :: "'w socket_os \<Rightarrow> 'w epoll_os \<Rightarrow> ('h, ('h, 'w) EventLoop) runner \<Rightarrow> ('d option \<Rightarrow> 'h) \<Rightarrow>
    32 word \<Rightarrow> bytes \<Rightarrow> bytes \<Rightarrow> bytes \<Rightarrow> string list \<Rightarrow> ('w, 'd SocketNonblocking) ref \<Rightarrow> ('h, 'w) EventLoop \<Rightarrow>
    (outcome \<times> client_report list \<times> ('h, 'w) EventLoop) option" where
  "client_main so os run bind processId uninit snd0 recv0 argv client s =
     (if length argv < 2 then Some (Ret EXIT_SUCCESS, [], s)
      else let s = set_obj client (SocketNonblocking_ctor uninit) s in
        case (if 3 \<le> length argv then connect_host so os run bind client (argv ! 1) (argv ! 2) s
              else connect_path so os run bind client (argv ! 1) s) of
          None \<Rightarrow> None
        | Some (Throw ex, s) \<Rightarrow> Some (Throw ex, [], s)
        | Some (Ret retval, s) \<Rightarrow>
            if retval \<noteq> 0 then Some (Ret EXIT_FAILURE, [], SocketNonblocking_dtor so os client s)
            else let sndBuffer = snprintf (greeting processId) snd0 in
              case client_loop (so_io so) (m_event (obj client s)) cycleCount sndBuffer recv0
                (m_bufferedReader (obj client s), world s) of
                None \<Rightarrow> None
              | Some ((code, reports), r, w) \<Rightarrow>
                  (let s = s\<lparr>world := w\<rparr>;
                       s = set_obj client ((obj client s)\<lparr>m_bufferedReader := r\<rparr>) s in
                   Some (Ret code, reports, SocketNonblocking_dtor so os client s)))"

section \<open>Echoing\<close>

text \<open>
  A connection whose peer sends and then closes its side: what it sent arrives, then reads report the end of the stream.
  Sending and receiving do not disturb each other.
\<close>

definition closing_peer :: "'w sock_io \<Rightarrow> int \<Rightarrow> ('w \<Rightarrow> bytes) \<Rightarrow> ('w \<Rightarrow> bytes) \<Rightarrow> bool" where
  "closing_peer io fd incoming sent \<longleftrightarrow>
     readv_laws (io_readv io) fd incoming \<and> send_laws io fd sent \<and>
     (\<exists>patience. arriving io fd incoming patience) \<and> (\<exists>patience. alive io fd patience) \<and>
     (\<forall>n m w. 0 < n \<longrightarrow> incoming w = [] \<longrightarrow> (\<exists>w'. io_readv io fd n m w = (Inr [], w'))) \<and>
     (\<forall>b m w. incoming (snd (io_send io fd b m w)) = incoming w) \<and>
     (\<forall>t w. incoming (snd (io_poll_out io fd t w)) = incoming w) \<and>
     (\<forall>n m w. sent (snd (io_readv io fd n m w)) = sent w) \<and>
     (\<forall>t w. sent (snd (io_poll_in io fd t w)) = sent w)"

lemma receiveComplete_end:
  assumes "closing_peer io fd incoming sent" and "reader_ok r" and "ahead r @ incoming w = []"
  shows "\<exists>r' w'. receiveComplete io fd 1 (- 1) (r, w) = Some ((0, []), r', w') \<and> ahead r' @ incoming w' = [] \<and>
    reader_ok r'"
proof -
  have laws: "readv_laws (io_readv io) fd incoming" using assms(1) by (simp add: closing_peer_def)
  obtain w1 where w1: "io_readv io fd 1 BUFFER_SIZE w = (Inr [], w1)"
    using assms(1,3) unfolding closing_peer_def by (metis append_is_Nil_conv less_one)
  obtain res r' w' where step: "recv (io_readv io) fd 1 (r, w) = (res, r', w')" using prod_cases3 by blast
  have "recv_spec (io_readv io) fd 1 (ahead r, w) = (res, ahead r', w')" and ok: "reader_ok r'"
    using recv_refines [OF laws assms(2) step] by blast+
  then have res: "res = Inr []" "ahead r' = []" "w' = w1" using w1 assms(3) by (simp_all add: recv_spec_def)
  have "incoming w1 = []" using laws w1 assms(3) unfolding readv_laws_def by fastforce
  with res ok show ?thesis
    using receive_loop_ended [of 1 "recv (io_readv io) fd" "(r, w)" "(r', w')"] step by (simp add: receiveComplete_def)
qed

lemma echo_loop_echoes:
  assumes "closing_peer io fd incoming sent"
  shows "reader_ok r \<Longrightarrow> \<exists>r' w'. echo_loop io fd buffer (r, w) = Some (r', w') \<and>
    sent w' = sent w @ ahead r @ incoming w \<and> ahead r' @ incoming w' = []"
proof (induction "ahead r @ incoming w" arbitrary: buffer r w)
  case Nil
  obtain r' w' where r': "receiveComplete io fd 1 (- 1) (r, w) = Some ((0, []), r', w')" "ahead r' @ incoming w' = []"
    using receiveComplete_end [OF assms Nil(2), of w] Nil(1) by auto
  have "sent w' = sent w"
    using receiveComplete_keeps [OF r'(1), of sent] assms unfolding closing_peer_def by blast
  then show ?case using r' Nil(1) by (simp add: echo_loop.simps [of io fd buffer])
next
  case (Cons b bs)
  obtain p q where laws: "readv_laws (io_readv io) fd incoming" "arriving io fd incoming p" "alive io fd q" "send_laws io fd sent"
    using assms unfolding closing_peer_def by blast
  obtain r' w' where r': "receiveComplete io fd 1 (- 1) (r, w) = Some ((1, [b]), r', w')" "reader_ok r'"
      "ahead r' @ incoming w' = bs"
    using receiveComplete_complete [OF laws(1,2) Cons.prems, of 1 w] Cons(2) [symmetric] by auto
  have w': "sent w' = sent w"
    using receiveComplete_keeps [OF r'(1), of sent] assms unfolding closing_peer_def by blast
  obtain w2 where w2: "sendBlock io fd [b] False w' = Some (1, w2)" "sent w2 = sent w' @ [b]"
    using sendBlock_complete [OF laws(3,4), of "[b]" False w'] by auto
  have "incoming w2 = incoming w'"
    using sendBlock_keeps [OF w2(1), of incoming] assms unfolding closing_peer_def by blast
  then obtain r3 w3 where "echo_loop io fd b (r', w2) = Some (r3, w3)" "sent w3 = sent w2 @ bs" "ahead r3 @ incoming w3 = []"
    using Cons.hyps(1) [of r' w2 b] r'(2,3) by auto
  then show ?case
    using r'(1) w2 w' Cons(2) [symmetric] by (simp add: echo_loop.simps [of io fd buffer])
qed

section \<open>A peer that echoes\<close>

lemma strncmp_same: "strncmp (xs @ zs) xs (length xs) = 0"
  by (induction xs) auto

lemma client_loop_succeeds:
  assumes "alive io fd p" and "send_laws io fd back" and "readv_laws (io_readv io) fd back" and "arriving io fd back q"
  shows "reader_ok r \<Longrightarrow> ahead r = [] \<Longrightarrow> back w = [] \<Longrightarrow>
    \<exists>r' w'. client_loop io fd cycles sndBuffer recvBuffer (r, w) = Some ((EXIT_SUCCESS, []), r', w') \<and>
      ahead r' = [] \<and> back w' = []"
proof (induction cycles arbitrary: recvBuffer r w)
  case (Suc cycles)
  obtain w1 where w1: "sendBlock io fd sndBuffer False w = Some (int (length sndBuffer), w1)" "back w1 = sndBuffer"
    using sendBlock_complete [OF assms(1,2), of sndBuffer False w] Suc.prems(3) by auto
  obtain r2 w2 where r2: "receiveComplete io fd (length sndBuffer) (- 1) (r, w1) =
      Some ((int (length sndBuffer), sndBuffer), r2, w2)" "reader_ok r2" "ahead r2 = []" "back w2 = []"
    using receiveComplete_complete [OF assms(3,4) Suc.prems(1), of "length sndBuffer" w1] Suc.prems(2) w1(2) by auto
  show ?case
    using Suc.IH [OF r2(2-4), of "sndBuffer @ drop (length sndBuffer) recvBuffer"] w1(1) r2(1)
    by (auto simp: strncmp_same Let_def)
qed auto

section \<open>A broken connection\<close>

lemma receiveComplete_broken:
  assumes "\<forall>n m w. \<exists>w'. io_readv io fd n m w = (Inl e, w')" and "e \<noteq> EAGAIN" and "reader_ok r" and "ahead r = []"
  shows "\<exists>r' w'. receiveComplete io fd 1 t (r, w) = Some ((- 1, []), r', w') \<and> reader_ok r' \<and> ahead r' = []"
proof -
  have laws: "readv_laws (io_readv io) fd (\<lambda>w. [])"
    unfolding readv_laws_def using assms(1) by (metis Pair_inject sum.distinct(1))
  obtain w1 where w1: "io_readv io fd 1 BUFFER_SIZE w = (Inl e, w1)" using assms(1) by blast
  obtain res r' w' where step: "recv (io_readv io) fd 1 (r, w) = (res, r', w')" using prod_cases3 by blast
  have "recv_spec (io_readv io) fd 1 (ahead r, w) = (res, ahead r', w')" and ok: "reader_ok r'"
    using recv_refines [OF laws assms(3) step] by blast+
  then have "res = Inl e" "ahead r' = []" using w1 assms(4) by (simp_all add: recv_spec_def)
  then show ?thesis
    using step assms(2) ok by (simp add: receiveComplete_def receive_loop.simps [of _ _ "Suc 0"] EAGAIN_def EWOULDBLOCK_def)
qed

lemma echo_loop_broken:
  assumes "\<forall>n m w. \<exists>w'. io_readv io fd n m w = (Inl e, w')" and "e \<noteq> EAGAIN" and "reader_ok r" and "ahead r = []"
  shows "echo_loop io fd buffer (r, w) = None"
proof -
  have "(\<forall>n m w. \<exists>w'. io_readv io fd n m w = (Inl e, w')) \<longrightarrow> reader_ok (fst s) \<longrightarrow> ahead (fst s) = [] \<longrightarrow> False"
    if "echo_loop io fd buffer s = Some y" for buffer s y
    using that
  proof (induction rule: echo_loop.raw_induct [rotated, consumes 1, case_names step])
    case (step loop io fd buffer s y)
    show ?case
    proof (intro impI)
      assume broken: "\<forall>n m w. \<exists>w'. io_readv io fd n m w = (Inl e, w')" and s: "reader_ok (fst s)" "ahead (fst s) = []"
      obtain r' w' where r': "receiveComplete io fd 1 (- 1) s = Some ((- 1, []), r', w')" "reader_ok r'" "ahead r' = []"
        using receiveComplete_broken [OF broken assms(2) s, of "- 1" "snd s"] by auto
      then obtain rv w2 where "sendBlock io fd [buffer] False w' = Some (rv, w2)" "loop io fd buffer (r', w2) = Some y"
        using step(2) by (auto split: option.splits)
      then show False using step(1) [of io fd buffer "(r', w2)" y] broken r'(2,3) by simp
    qed
  qed
  from this [of buffer "(r, w)"] assms show ?thesis by (cases "echo_loop io fd buffer (r, w)") auto
qed

section \<open>Concrete connections\<close>

text \<open>No call fails on this connection any more: its peer has sent what it wants and closed its side.\<close>

definition closed_io :: "(bytes \<times> bytes) sock_io" where
  "closed_io = \<lparr>io_poll_out = (\<lambda>fd t w. (Inr 1, w)), io_poll_in = (\<lambda>fd t w. (Inr 1, w)),
     io_send = (\<lambda>fd b m (i, out). (Inr (min 3 (length b)), i, out @ take 3 b)),
     io_sendmsg = (\<lambda>fd bs m (i, out). (Inr (min 3 (length (concat bs))), i, out @ take 3 (concat bs))),
     io_readv = (\<lambda>fd n m (i, out). (Inr (take (min 5 (n + m)) i), drop (min 5 (n + m)) i, out))\<rparr>"

lemma closed_closing: "closing_peer closed_io fd fst snd"
  unfolding closing_peer_def
proof (intro conjI)
  show "\<exists>patience. arriving closed_io fd fst patience"
    by (intro exI [of _ "\<lambda>_. 0"]) (auto simp: arriving_def closed_io_def)
  show "\<exists>patience. alive closed_io fd patience"
    by (intro exI [of _ "\<lambda>_. 0"]) (auto simp: alive_def closed_io_def min_def)
qed (auto simp: closed_io_def readv_laws_def send_laws_def min_def)

text \<open>A connection that was reset: every transfer fails.\<close>

definition ECONNRESET :: errno where "ECONNRESET = 104"

definition broken_io :: "'w sock_io" where
  "broken_io = \<lparr>io_poll_out = (\<lambda>fd t w. (Inr 1, w)), io_poll_in = (\<lambda>fd t w. (Inr 1, w)),
     io_send = (\<lambda>fd b m w. (Inl ECONNRESET, w)), io_sendmsg = (\<lambda>fd bs m w. (Inl ECONNRESET, w)),
     io_readv = (\<lambda>fd n m w. (Inl ECONNRESET, w))\<rparr>"

text \<open>
  What the argument of the server means: a number is a port modulo \<open>65536\<close>, whatever follows its digits, and an argument that
  does not begin like a number is a path.
\<close>

lemma server_start_port:
  assumes "n < 2 ^ 64" and "TcpServer_start_port ts os run h (of_nat n) 1 (Some c) server s = Some (Ret r, s')"
  shows "server_start ts os run h c (to_string n) server s = Some (Ret r, s')"
  using assms by (simp add: server_start_def stoul_to_string unsigned_of_nat take_bit_nat_eq_self)

lemma server_start_path:
  assumes "\<not> is_digit a" and "\<not> is_space a" and "a \<noteq> CHR ''-''" and "a \<noteq> CHR ''+''"
  shows "server_start ts os run h c (a # path) server s = TcpServer_start_path ts os run h (a # path) 1 (Some c) server s"
  using assms by (simp add: server_start_def stoul_def)

section \<open>Properties\<close>

text \<open>
  Claim C17: the callback of the echo server, on a connection whose peer sends any bytes and closes its side, returns, and it has
  sent back exactly the bytes received, in their order: those the reader held before and those that arrived.
\<close>

theorem echo_server_echoes:
  assumes "closing_peer io fd incoming sent" and "reader_ok r"
  shows "\<exists>r' w'. echo_loop io fd buffer (r, w) = Some (r', w') \<and>
    sent w' = sent w @ ahead r @ incoming w \<and> ahead r' @ incoming w' = []"
  using echo_loop_echoes [OF assms] by blast

theorem echo_server_echoes_witness:
  "\<exists>r' w'. echo_loop closed_io 3 0 (fresh_reader, [1, 2, 3, 4, 5, 6, 7], [0]) = Some (r', w') \<and>
     snd w' = [0, 1, 2, 3, 4, 5, 6, 7] \<and> ahead r' @ fst w' = []"
  using echo_server_echoes [OF closed_closing fresh_reader_ok(1), of 3 0 "([1, 2, 3, 4, 5, 6, 7], [0])"]
  by (simp add: fresh_reader_ok)

text \<open>
  Claim C35: when the connection breaks, so that every read fails, the callback of the echo server never returns: it looks for
  the end of the stream only, and the server, which runs it in its event loop, serves nobody any more.
\<close>

theorem echo_server_spins:
  assumes "\<forall>n m w. \<exists>w'. io_readv io fd n m w = (Inl e, w')" and "e \<noteq> EAGAIN"
    and "io = so_io so" and "fd = m_event (obj workerSocket s)"
    and "reader_ok (m_bufferedReader (obj workerSocket s))" and "ahead (m_bufferedReader (obj workerSocket s)) = []"
  shows "server_cb so os buffer workerSocket s = None"
  using echo_loop_broken [OF assms(1,2,5,6)] assms(3,4) by (simp add: server_cb_def)

theorem echo_server_spins_witness:
  "server_cb (quiet_socket_os\<lparr>so_io := broken_io\<rparr>) plain_epoll 0 demo_this
     (empty_loop (\<lparr>m_event = 6, m_bufferedReader = fresh_reader, m_inDataHandler = None, m_outDataHandler = None\<rparr>, ())
       :: (unit, unit SocketNonblocking \<times> unit) EventLoop) = None"
  by (rule echo_server_spins [of broken_io 6 ECONNRESET])
    (simp_all add: broken_io_def ECONNRESET_def EAGAIN_def obj_def demo_this_def empty_loop_def fresh_reader_ok)

text \<open>
  Claim C20: against a peer that echoes, on a connection that stays alive, the client returns success after any number of
  cycles, without a report, and nothing is left on the way.
\<close>

theorem client_gets_echo:
  assumes "alive io fd p" and "send_laws io fd back" and "readv_laws (io_readv io) fd back" and "arriving io fd back q"
    and "reader_ok r" and "ahead r = []" and "back w = []"
  shows "\<exists>r' w'. client_loop io fd cycles sndBuffer recvBuffer (r, w) = Some ((EXIT_SUCCESS, []), r', w') \<and>
    ahead r' = [] \<and> back w' = []"
  using client_loop_succeeds [OF assms] by blast

theorem client_gets_echo_witness:
  "\<exists>r' w'. client_loop pipe_io 3 10 (snprintf (greeting 42) (replicate 128 0)) (replicate 1024 0) (fresh_reader, [], 7) =
     Some ((EXIT_SUCCESS, []), r', w') \<and> ahead r' = [] \<and> fst w' = []"
  by (rule client_gets_echo [OF pipe_laws(4,1-3) fresh_reader_ok]) simp

end
