(* ===== verification/LoopTools.thy ===== *)
theory LoopTools
  imports Notifier
begin

text \<open>
  \<open>tool/sys/eventloopperformance.cpp\<close>: a notifier and the event loop working together. A callback notifies its own
  notifier until it has run \<open>EVENTLIMIT\<close> times and then stops the loop; notifiers are created and destroyed. The static variables
  are objects in the world of the loop; \<open>()\<close> is the callback \<open>notifierCb\<close>. Clocks and the console are not modelled.
\<close>

section \<open>The data and operations\<close>

definition EVENTLIMIT :: "64 word" where "EVENTLIMIT = 100000"

definition notifierCb :: "'w epoll_os \<Rightarrow> 'w notifier_os \<Rightarrow> ('w, unit Notifier) ref \<Rightarrow> ('w, 64 word) ref \<Rightarrow>
    (unit, 'h, 'w) notifier_cb" where
  "notifierCb os nos notifier eventCount c s =
     (let s = set_obj eventCount (obj eventCount s + 1) s in
      if EVENTLIMIT \<le> obj eventCount s then (Ret 0, stop os s)
      else (Ret 0, snd (Notifier_notify nos notifier s)))"

definition performance_notify :: "'w epoll_os \<Rightarrow> 'w notifier_os \<Rightarrow> ('h, ('h, 'w) EventLoop) runner \<Rightarrow>
    ('w, unit Notifier) ref \<Rightarrow> ('h, 'w) EventLoop \<Rightarrow> (int option \<times> ('h, 'w) EventLoop) option" where
  "performance_notify os nos run notifier s =
     (let (_, s) = Notifier_set (User ()) notifier s;
          (_, s) = Notifier_notify nos notifier s in
      execute os run s)"

text \<open>The loop of \<open>addRemove\<close> with the number of turns left; \<open>h\<close> binds \<open>process\<close> of the temporary notifier.\<close>

fun addRemove_loop :: "nat \<Rightarrow> 'w epoll_os \<Rightarrow> 'w notifier_os \<Rightarrow> ('h, ('h, 'w) EventLoop) runner \<Rightarrow> 'h \<Rightarrow>
    ('w, unit Notifier) ref \<Rightarrow> ('h, 'w) EventLoop \<Rightarrow> (outcome \<times> ('h, 'w) EventLoop) option" where
  "addRemove_loop 0 os nos run h tempNotifier s = Some (Ret 0, s)"
| "addRemove_loop (Suc n) os nos run h tempNotifier s =
     andThen (Notifier_ctor os nos run h tempNotifier s) (\<lambda>_ s.
       addRemove_loop n os nos run h tempNotifier (Notifier_dtor os nos tempNotifier s))"

definition addRemove :: "'w epoll_os \<Rightarrow> 'w notifier_os \<Rightarrow> ('h, ('h, 'w) EventLoop) runner \<Rightarrow> 'h \<Rightarrow>
    ('w, unit Notifier) ref \<Rightarrow> ('h, 'w) EventLoop \<Rightarrow> (outcome \<times> ('h, 'w) EventLoop) option" where
  "addRemove os nos run h tempNotifier s = addRemove_loop (unat EVENTLIMIT) os nos run h tempNotifier s"

text \<open>\<open>main\<close>, after the static objects are constructed.\<close>

definition performance_main :: "'w epoll_os \<Rightarrow> 'w notifier_os \<Rightarrow> ('h, ('h, 'w) EventLoop) runner \<Rightarrow> 'h \<Rightarrow>
    ('w, unit Notifier) ref \<Rightarrow> ('w, unit Notifier) ref \<Rightarrow> ('h, 'w) EventLoop \<Rightarrow>
    (outcome \<times> ('h, 'w) EventLoop) option" where
  "performance_main os nos run h notifier tempNotifier s =
     (case performance_notify os nos run notifier s of
        None \<Rightarrow> None
      | Some (None, s) \<Rightarrow> Some (Throw UndefinedBehaviour, s)
      | Some (Some _, s) \<Rightarrow> addRemove os nos run h tempNotifier s)"

section \<open>The counter and the loop\<close>

text \<open>
  What the tool relies on, over five views of the world: the object of the notifier, the count, the counter of its descriptor, and
  the edges that \<open>epoll_wait\<close> has yet to report, of the notifier and of the stop notification. Both are registered edge triggered:
  writing makes an edge, also when the counter was not 0, and reporting it takes it away, whether the counter is
  read or not; nothing is said of \<open>epoll_wait\<close> without an edge. Writing and reading \<open>eventfd\<close> are as documented.
\<close>

definition view :: "('w, unit Notifier) ref \<Rightarrow> ('w, 64 word) ref \<Rightarrow> ('w \<Rightarrow> 64 word) \<Rightarrow> ('w \<Rightarrow> bool) \<Rightarrow> ('w \<Rightarrow> bool) \<Rightarrow>
    'w \<Rightarrow> unit Notifier \<times> 64 word \<times> 64 word \<times> bool \<times> bool" where
  "view notifier eventCount counter edge stopping w =
     (deref notifier w, deref eventCount w, counter w, edge w, stopping w)"

definition performance_env :: "'w epoll_os \<Rightarrow> 'w notifier_os \<Rightarrow> ('w, unit Notifier) ref \<Rightarrow> ('w, 64 word) ref \<Rightarrow>
    addr \<Rightarrow> int \<Rightarrow> int \<Rightarrow> ('w \<Rightarrow> 64 word) \<Rightarrow> ('w \<Rightarrow> bool) \<Rightarrow> ('w \<Rightarrow> bool) \<Rightarrow> bool" where
  "performance_env os nos notifier eventCount p fd stopFd counter edge stopping \<longleftrightarrow>
     (let V = view notifier eventCount counter edge stopping in
      (\<forall>w. edge w \<longrightarrow> counter w \<noteq> 0 \<longrightarrow> \<not> stopping w \<longrightarrow>
         (\<exists>w'. os_epoll_wait os w = (Inr [\<lparr>ev_events = EPOLLIN, ev_ptr = Some p\<rparr>], w') \<and>
           V w' = (deref notifier w, deref eventCount w, counter w, False, False))) \<and>
      (\<forall>w. \<not> edge w \<longrightarrow> stopping w \<longrightarrow>
         (\<exists>w'. os_epoll_wait os w = (Inr [\<lparr>ev_events = EPOLLIN, ev_ptr = None\<rparr>], w') \<and>
           V w' = (deref notifier w, deref eventCount w, counter w, False, False))) \<and>
      (\<forall>w. V (snd (n_write8 nos fd 1 w)) = (deref notifier w, deref eventCount w, counter w + 1, True, stopping w)) \<and>
      (\<forall>w. counter w \<noteq> 0 \<longrightarrow> (\<exists>w'. n_read8 nos fd w = ((8, counter w), w') \<and>
         V w' = (deref notifier w, deref eventCount w, 0, edge w, stopping w))) \<and>
      (\<forall>w. V (snd (os_write8 os stopFd notifyValue w)) = (deref notifier w, deref eventCount w, counter w, edge w, True)) \<and>
      (\<forall>k w. V (assign eventCount k w) = (deref notifier w, k, counter w, edge w, stopping w)) \<and>
      (\<forall>ob w. V (assign notifier ob w) = (ob, deref eventCount w, counter w, edge w, stopping w)))"

definition performance_state :: "('h, 'w) EventLoop \<Rightarrow> addr \<Rightarrow> 'h \<Rightarrow> int \<Rightarrow> bool" where
  "performance_state s p h stopFd \<longleftrightarrow>
     handlers_at p (m_eventInfos s) = Some \<lparr>inEvent = Some h, outEvent = None\<rparr> \<and> m_stopFd s = stopFd"

abbreviation perf_notifier :: "int \<Rightarrow> unit Notifier" where
  "perf_notifier fd \<equiv> \<lparr>notifier_fd = fd, notifier_handler = User ()\<rparr>"

lemma performance_envD:
  assumes "performance_env os nos notifier eventCount p fd stopFd counter edge stopping"
  shows "view notifier eventCount counter edge stopping w = (t, k, 1, True, False) \<Longrightarrow>
      \<exists>w'. os_epoll_wait os w = (Inr [\<lparr>ev_events = EPOLLIN, ev_ptr = Some p\<rparr>], w') \<and>
        view notifier eventCount counter edge stopping w' = (t, k, 1, False, False)"
    and "view notifier eventCount counter edge stopping w = (t, k, 0, False, True) \<Longrightarrow>
      \<exists>w'. os_epoll_wait os w = (Inr [\<lparr>ev_events = EPOLLIN, ev_ptr = None\<rparr>], w') \<and>
        view notifier eventCount counter edge stopping w' = (t, k, 0, False, False)"
    and "view notifier eventCount counter edge stopping w = (t, k, 1, False, False) \<Longrightarrow>
      \<exists>w'. n_read8 nos fd w = ((8, 1), w') \<and> view notifier eventCount counter edge stopping w' = (t, k, 0, False, False)"
proof -
  note env = assms [unfolded performance_env_def Let_def]
  show "view notifier eventCount counter edge stopping w = (t, k, 1, True, False) \<Longrightarrow>
      \<exists>w'. os_epoll_wait os w = (Inr [\<lparr>ev_events = EPOLLIN, ev_ptr = Some p\<rparr>], w') \<and>
        view notifier eventCount counter edge stopping w' = (t, k, 1, False, False)"
    using env [THEN conjunct1, rule_format, of w] by (simp add: view_def)
  show "view notifier eventCount counter edge stopping w = (t, k, 0, False, True) \<Longrightarrow>
      \<exists>w'. os_epoll_wait os w = (Inr [\<lparr>ev_events = EPOLLIN, ev_ptr = None\<rparr>], w') \<and>
        view notifier eventCount counter edge stopping w' = (t, k, 0, False, False)"
    using env [THEN conjunct2, THEN conjunct1, rule_format, of w] by (simp add: view_def)
  show "view notifier eventCount counter edge stopping w = (t, k, 1, False, False) \<Longrightarrow>
      \<exists>w'. n_read8 nos fd w = ((8, 1), w') \<and> view notifier eventCount counter edge stopping w' = (t, k, 0, False, False)"
    using env [THEN conjunct2, THEN conjunct2, THEN conjunct2, THEN conjunct1, rule_format, of w] by (simp add: view_def)
qed

lemma notifierCb_step:
  assumes "performance_env os nos notifier eventCount p fd stopFd counter edge stopping"
    and "view notifier eventCount counter edge stopping (world s) = (perf_notifier fd, k, 0, False, False)" and "m_stopFd s = stopFd"
  shows "\<exists>w'. notifierCb os nos notifier eventCount c s = (Ret 0, s\<lparr>world := w'\<rparr>) \<and>
    view notifier eventCount counter edge stopping w' =
      (if EVENTLIMIT \<le> k + 1 then (perf_notifier fd, k + 1, 0, False, True) else (perf_notifier fd, k + 1, 1, True, False))"
proof -
  let ?V = "view notifier eventCount counter edge stopping"
  let ?w = "assign eventCount (deref eventCount (world s) + 1) (world s)"
  have w: "?V ?w = (perf_notifier fd, k + 1, 0, False, False)"
    using assms(1,2) by (simp add: performance_env_def view_def)
  show ?thesis
  proof (cases "EVENTLIMIT \<le> k + 1")
    case True
    then have "notifierCb os nos notifier eventCount c s = (Ret 0, s\<lparr>world := snd (os_write8 os stopFd notifyValue ?w)\<rparr>)"
      using w assms(3) by (simp add: notifierCb_def stop_def set_obj_def obj_def view_def)
    moreover have "?V (snd (os_write8 os stopFd notifyValue ?w)) = (perf_notifier fd, k + 1, 0, False, True)"
      using assms(1) w by (simp add: performance_env_def view_def)
    ultimately show ?thesis using True by auto
  next
    case False
    then have "notifierCb os nos notifier eventCount c s = (Ret 0, s\<lparr>world := snd (n_write8 nos fd 1 ?w)\<rparr>)"
      using w by (simp add: notifierCb_def Notifier_notify_def sys_def set_obj_def obj_def view_def split_beta)
    moreover have "?V (snd (n_write8 nos fd 1 ?w)) = (perf_notifier fd, k + 1, 1, True, False)"
      using assms(1) w by (simp add: performance_env_def view_def)
    ultimately show ?thesis using False by auto
  qed
qed

lemma process_step:
  assumes "performance_env os nos notifier eventCount p fd stopFd counter edge stopping"
    and "view notifier eventCount counter edge stopping (world s) = (perf_notifier fd, k, 1, False, False)" and "m_stopFd s = stopFd"
  shows "\<exists>w'. Notifier_process nos (notifierCb os nos notifier eventCount) notifier s = (Ret 0, s\<lparr>world := w'\<rparr>) \<and>
    view notifier eventCount counter edge stopping w' =
      (if EVENTLIMIT \<le> k + 1 then (perf_notifier fd, k + 1, 0, False, True) else (perf_notifier fd, k + 1, 1, True, False))"
proof -
  let ?V = "view notifier eventCount counter edge stopping"
  have now: "deref notifier (world s) = perf_notifier fd" "counter (world s) = 1" using assms(2) by (simp_all add: view_def)
  obtain w1 where w1: "n_read8 nos fd (world s) = ((8, 1), w1)" "?V w1 = (perf_notifier fd, k, 0, False, False)"
    using performance_envD(3) [OF assms(1,2)] by blast
  obtain w' where w': "notifierCb os nos notifier eventCount () (s\<lparr>world := w1\<rparr>) = (Ret 0, s\<lparr>world := w1\<rparr>\<lparr>world := w'\<rparr>)"
      "?V w' = (if EVENTLIMIT \<le> k + 1 then (perf_notifier fd, k + 1, 0, False, True) else (perf_notifier fd, k + 1, 1, True, False))"
    using notifierCb_step [OF assms(1), of "s\<lparr>world := w1\<rparr>" k "()"] w1(2) assms(3) by auto
  have "deref notifier w1 = perf_notifier fd" using w1(2) by (simp add: view_def)
  then have "Notifier_process nos (notifierCb os nos notifier eventCount) notifier s = (Ret 0, s\<lparr>world := w'\<rparr>)"
    using w1(1) w'(1) now by (simp add: Notifier_process_def sys_def obj_def invoke_def)
  then show ?thesis using w'(2) by blast
qed

lemma one_event_round:
  assumes "performance_state s p h stopFd" and "run h (store_events [\<lparr>ev_events = EPOLLIN, ev_ptr = Some p\<rparr>] w s) =
      (Ret 0, store_events [\<lparr>ev_events = EPOLLIN, ev_ptr = Some p\<rparr>] w' s)"
  shows "\<exists>s'. rounds run (store_events [\<lparr>ev_events = EPOLLIN, ev_ptr = Some p\<rparr>] w s) = Some (Done 0 s') \<and>
    performance_state s' p h stopFd \<and> world s' = w'"
proof -
  let ?e = "\<lparr>ev_events = EPOLLIN, ev_ptr = Some p\<rparr>"
  let ?t = "clear_flag 0 EPOLLIN (store_events [?e] w' s)"
  have "call_handler run inEvent EPOLLIN 0 p 0 (store_events [?e] w s) = Done 0 ?t"
    using assms by (simp add: call_handler_def performance_state_def store_events_def EPOLLIN_def)
  moreover have "call_handler run outEvent EPOLLOUT 0 p 0 ?t = Done 0 ?t"
    by (simp add: call_handler_def clear_flag_def store_events_def EPOLLIN_def EPOLLOUT_def)
  ultimately have "event_pass run 0 0 (store_events [?e] w s) = event_pass run 1 0 ?t"
    by (subst event_pass.simps) (simp add: store_events_def MAXEVENTS_def)
  also have "\<dots> = Done 0 ?t" by (subst event_pass.simps) (simp add: store_events_def clear_flag_def)
  finally have "rounds run (store_events [?e] w s) = Some (Done 0 ?t)" by (subst rounds.simps) simp
  moreover have "performance_state ?t p h stopFd \<and> world ?t = w'"
    using assms(1) by (simp add: performance_state_def clear_flag_def store_events_def)
  ultimately show ?thesis by blast
qed

lemma stop_event_round:
  "rounds run (store_events [\<lparr>ev_events = EPOLLIN, ev_ptr = None\<rparr>] w s) =
     Some (Stopped (store_events [\<lparr>ev_events = EPOLLIN, ev_ptr = None\<rparr>] w s))"
  by (subst rounds.simps, subst event_pass.simps) (simp add: store_events_def MAXEVENTS_def)

lemma execute_stopped:
  assumes "performance_env os nos notifier eventCount p fd stopFd counter edge stopping"
    and "view notifier eventCount counter edge stopping (world s) = (t, k, 0, False, True)"
  shows "\<exists>s'. execute os run s = Some (Some 0, s') \<and> deref eventCount (world s') = k \<and> m_eventInfos s' = m_eventInfos s"
proof -
  obtain w where "os_epoll_wait os (world s) = (Inr [\<lparr>ev_events = EPOLLIN, ev_ptr = None\<rparr>], w)"
      "view notifier eventCount counter edge stopping w = (t, k, 0, False, False)"
    using performance_envD(2) [OF assms] by blast
  then show ?thesis
    by (simp add: execute.simps [of os run s] stop_event_round view_def Let_def) (simp add: store_events_def)
qed

lemma unat_next: "k < EVENTLIMIT \<Longrightarrow> unat (k + 1) = unat k + 1"
  by (simp add: EVENTLIMIT_def word_less_nat_alt unat_word_ariths)

lemma left_decreases:
  assumes "k < EVENTLIMIT" and "k + 1 < EVENTLIMIT"
  shows "unat (EVENTLIMIT - (k + 1)) < unat (EVENTLIMIT - k)"
  using assms unat_next [OF assms(1)]
  by (simp add: unat_sub less_imp_le) (simp add: word_less_nat_alt)

lemma execute_counts:
  assumes env: "performance_env os nos notifier eventCount p fd stopFd counter edge stopping"
    and run: "run h = Notifier_process nos (notifierCb os nos notifier eventCount) notifier"
  shows "performance_state s p h stopFd \<Longrightarrow>
    view notifier eventCount counter edge stopping (world s) = (perf_notifier fd, k, 1, True, False) \<Longrightarrow> k < EVENTLIMIT \<Longrightarrow>
    \<exists>s'. execute os run s = Some (Some 0, s') \<and> deref eventCount (world s') = EVENTLIMIT"
proof (induction "unat (EVENTLIMIT - k)" arbitrary: s k rule: less_induct)
  case less
  let ?V = "view notifier eventCount counter edge stopping"
  let ?e = "\<lparr>ev_events = EPOLLIN, ev_ptr = Some p\<rparr>"
  obtain w where w: "os_epoll_wait os (world s) = (Inr [?e], w)" "?V w = (perf_notifier fd, k, 1, False, False)"
    using performance_envD(1) [OF env less.prems(2)] by blast
  obtain w' where w': "run h (store_events [?e] w s) = (Ret 0, store_events [?e] w' s)"
      "?V w' = (if EVENTLIMIT \<le> k + 1 then (perf_notifier fd, k + 1, 0, False, True) else (perf_notifier fd, k + 1, 1, True, False))"
    using process_step [OF env, of "store_events [?e] w s" k] w(2) less.prems(1)
    by (auto simp: run store_events_def performance_state_def)
  obtain s2 where s2: "rounds run (store_events [?e] w s) = Some (Done 0 s2)" "performance_state s2 p h stopFd"
      "world s2 = w'"
    using one_event_round [of s p h stopFd run w w'] less.prems(1) w'(1) by blast
  have ex: "execute os run s = execute os run s2" using w(1) s2(1) by (subst execute.simps) simp
  show ?case
  proof (cases "EVENTLIMIT \<le> k + 1")
    case True
    then have "k + 1 = EVENTLIMIT" using less.prems(3) unat_next [of k] by (simp add: word_le_nat_alt word_less_nat_alt word_unat_eq_iff)
    then show ?thesis using execute_stopped [OF env, of s2 _ "k + 1" run] w'(2) s2(3) True ex by auto
  next
    case False
    then have "unat (EVENTLIMIT - (k + 1)) < unat (EVENTLIMIT - k)" by (intro left_decreases less.prems(3)) simp
    moreover have "view notifier eventCount counter edge stopping (world s2) = (perf_notifier fd, k + 1, 1, True, False)"
      using w'(2) s2(3) False by simp
    ultimately show ?thesis unfolding ex using less.hyps s2(2) False not_le by blast
  qed
qed

section \<open>Creating and destroying notifiers\<close>

text \<open>
  What a temporary notifier relies on: every new \<open>eventfd\<close> has a descriptor that is not registered and a counter of 0, and a
  read of a counter of 0 fails; registering succeeds and, like assigning the object, leaves the counters alone.
\<close>

definition temporary_env :: "'w epoll_os \<Rightarrow> 'w notifier_os \<Rightarrow> ('w, unit Notifier) ref \<Rightarrow> (int \<Rightarrow> 'w \<Rightarrow> 64 word) \<Rightarrow>
    int set \<Rightarrow> bool" where
  "temporary_env os nos this counter used \<longleftrightarrow> ref_laws this \<and> epoll_keeps os this \<and>
     (\<forall>w fd w'. n_eventfd nos w = (fd, w') \<longrightarrow> 0 \<le> fd \<and> fd \<notin> used \<and> counter fd w' = 0) \<and>
     (\<forall>fd w. counter fd w = 0 \<longrightarrow> fst (fst (n_read8 nos fd w)) = - 1) \<and>
     (\<forall>fd w. deref this (snd (n_read8 nos fd w)) = deref this w) \<and>
     (\<forall>op fd ev w. fst (os_epoll_ctl os op fd ev w) = 0) \<and>
     (\<forall>op fd ev w. \<forall>fd'. counter fd' (snd (os_epoll_ctl os op fd ev w)) = counter fd' w) \<and>
     (\<forall>ob w fd. counter fd (assign this ob w) = counter fd w)"

lemma addEvent_locked_ctl:
  "\<exists>op ev. addEvent_locked os fd h s = (if fst (os_epoll_ctl os op fd ev (world s)) = - 1 then - 1 else 0,
     snd (addEvent_locked os fd h s)) \<and> world (snd (addEvent_locked os fd h s)) = snd (os_epoll_ctl os op fd ev (world s))"
proof (cases "map_of (m_eventInfos s) fd")
  case None
  then show ?thesis
    by (intro exI [of _ CTL_ADD] exI [of _ "Some \<lparr>ev_events = EPOLLIN OR EPOLLET,
        ev_ptr = Some (os_alloc os (map (fst \<circ> snd) (m_eventInfos s)))\<rparr>"]) (simp add: addEvent_locked_def split_beta Let_def)
next
  case (Some e)
  then show ?thesis
    by (intro exI [of _ CTL_MOD] exI [of _ "Some \<lparr>ev_events = if outEvent (snd e) \<noteq> None then EPOLLIN OR EPOLLET OR EPOLLOUT
        else EPOLLIN OR EPOLLET, ev_ptr = Some (fst e)\<rparr>"]) (simp add: addEvent_locked_def split_beta Let_def)
qed

lemma Notifier_ctor_registers:
  assumes env: "temporary_env os nos this counter used" and run: "run h = Notifier_process nos user this"
  shows "\<exists>s' fd. Notifier_ctor os nos run h this s = Some (Ret 0, s') \<and> fd \<notin> used \<and>
    in_handler s' = (in_handler s)(fd := Some h) \<and> out_handler s' = out_handler s \<and> notifier_fd (obj this s') = fd"
proof -
  have laws: "ref_laws this" "epoll_keeps os this" using env by (simp_all add: temporary_env_def)
  obtain fd w1 where w1: "n_eventfd nos (world s) = (fd, w1)" by fastforce
  then have fd: "0 \<le> fd" "fd \<notin> used" "counter fd w1 = 0" using env unfolding temporary_env_def by blast+
  let ?s2 = "set_obj this \<lparr>notifier_fd = fd, notifier_handler = Nop\<rparr> (s\<lparr>world := w1\<rparr>)"
  have ob2: "obj this ?s2 = \<lparr>notifier_fd = fd, notifier_handler = Nop\<rparr>" by (rule obj_set_obj [OF laws(1)])
  have c2: "counter fd (world ?s2) = 0" using env fd(3) by (simp add: set_obj_def temporary_env_def)
  obtain op ev where ctl: "addEvent_locked os fd h ?s2 = (if fst (os_epoll_ctl os op fd ev (world ?s2)) = - 1 then - 1 else 0,
      snd (addEvent_locked os fd h ?s2))"
      "world (snd (addEvent_locked os fd h ?s2)) = snd (os_epoll_ctl os op fd ev (world ?s2))"
    using addEvent_locked_ctl [of os fd h ?s2] by (elim exE conjE) (rule that)
  let ?s3 = "snd (addEvent_locked os fd h ?s2)"
  have add: "addEvent_locked os fd h ?s2 = (0, ?s3)" using ctl(1) env by (simp add: temporary_env_def)
  have ob3: "obj this ?s3 = \<lparr>notifier_fd = fd, notifier_handler = Nop\<rparr>" using obj_loop_ops(3) [OF laws(2)] ob2 by metis
  have "counter fd (world ?s3) = 0" using ctl(2) c2 env by (simp add: temporary_env_def)
  then have "fst (fst (n_read8 nos fd (world ?s3))) = - 1" using env by (simp add: temporary_env_def)
  then obtain v w4 where w4: "n_read8 nos fd (world ?s3) = ((- 1, v), w4)" by (metis prod.collapse)
  have "deref this w4 = deref this (world ?s3)" using env w4 unfolding temporary_env_def by (metis snd_conv)
  then have ob4: "obj this (?s3\<lparr>world := w4\<rparr>) = \<lparr>notifier_fd = fd, notifier_handler = Nop\<rparr>" using ob3 by (simp add: obj_def)
  have "run h ?s3 = (Ret (- 1), ?s3\<lparr>world := w4\<rparr>)" using w4 ob3 by (simp add: run Notifier_process_def sys_def)
  then have "addEvent os run fd (Some h) ?s2 = Some (Ret 0, ?s3\<lparr>world := w4\<rparr>)"
    using addEvent_idle [OF _ add, of run "- 1"] fd(1) by simp
  then have "Notifier_ctor os nos run h this s = Some (Ret 0, ?s3\<lparr>world := w4\<rparr>)"
    using w1 fd(1) by (simp add: Notifier_ctor_def sys_def Let_def andThen_def)
  moreover have "in_handler (?s3\<lparr>world := w4\<rparr>) = (in_handler s)(fd := Some h)"
      "out_handler (?s3\<lparr>world := w4\<rparr>) = out_handler s"
    by (simp_all add: in_handler_ops other_side_ops)
  ultimately show ?thesis using fd(2) ob4 by fastforce
qed

lemma addRemove_loop_restores:
  assumes "temporary_env os nos this counter {fd. in_handler s fd \<noteq> None}" and "run h = Notifier_process nos user this"
  shows "\<exists>s'. addRemove_loop n os nos run h this s = Some (Ret 0, s') \<and> in_handler s' = in_handler s \<and>
    out_handler s' = out_handler s"
  using assms(1)
proof (induction n arbitrary: s)
  case (Suc n)
  obtain s1 fd where s1: "Notifier_ctor os nos run h this s = Some (Ret 0, s1)" "in_handler s fd = None"
      "in_handler s1 = (in_handler s)(fd := Some h)" "out_handler s1 = out_handler s" "notifier_fd (obj this s1) = fd"
    using Notifier_ctor_registers [of os nos this counter "{fd. in_handler s fd \<noteq> None}" run h user s] Suc.prems assms(2) by auto
  let ?s2 = "Notifier_dtor os nos this s1"
  have s2: "in_handler ?s2 = in_handler s" "out_handler ?s2 = out_handler s"
    using s1(2-5) by (simp_all add: Notifier_dtor_def Let_def split_beta in_handler_ops other_side_ops fun_upd_idem)
  then obtain s3 where "addRemove_loop n os nos run h this ?s2 = Some (Ret 0, s3)" "in_handler s3 = in_handler s"
      "out_handler s3 = out_handler s"
    using Suc.IH [of ?s2] Suc.prems by auto
  then show ?case using s1(1) by (simp add: andThen_def)
qed simp

section \<open>A concrete loop\<close>

text \<open>
  The notifier, the count, the counter of the descriptor and the edges that are not reported yet; the node has the address 7.
  Without an edge the call fails.
\<close>

type_synonym tool_world = "unit Notifier \<times> 64 word \<times> 64 word \<times> bool \<times> bool"

definition tool_epoll :: "tool_world epoll_os" where
  "tool_epoll = \<lparr>os_alloc = (\<lambda>as. Suc (sum_list as)), os_epoll_create = (\<lambda>w. (Inr 3, w)), os_eventfd = (\<lambda>w. (4, w)),
     os_epoll_ctl = (\<lambda>op fd ev w. (0, w)),
     os_epoll_wait = (\<lambda>(t, k, c, e, q).
       if q then (Inr [\<lparr>ev_events = EPOLLIN, ev_ptr = None\<rparr>], t, k, c, e, False)
       else if e then (Inr [\<lparr>ev_events = EPOLLIN, ev_ptr = Some 7\<rparr>], t, k, c, False, q)
       else (Inl 9, t, k, c, e, q)),
     os_write8 = (\<lambda>fd v (t, k, c, e, q). (8, t, k, c, e, True)), os_close = (\<lambda>fd w. (0, w)), os_strerror = (\<lambda>w. [])\<rparr>"

definition tool_notifier_os :: "tool_world notifier_os" where
  "tool_notifier_os = \<lparr>n_eventfd = (\<lambda>w. (5, w)), n_write8 = (\<lambda>fd v (t, k, c, e, q). (8, t, k, c + v, True, q)),
     n_read8 = (\<lambda>fd (t, k, c, e, q). ((if c = 0 then - 1 else 8, c), t, k, 0, e, q)), n_close = (\<lambda>fd w. (0, w))\<rparr>"

definition tool_notifier :: "(tool_world, unit Notifier) ref" where
  "tool_notifier = \<lparr>deref = fst, assign = (\<lambda>t w. (t, snd w))\<rparr>"

definition tool_count :: "(tool_world, 64 word) ref" where
  "tool_count = \<lparr>deref = fst \<circ> snd, assign = (\<lambda>k w. (fst w, k, snd (snd w)))\<rparr>"

definition tool_loop :: "int \<Rightarrow> 'w \<Rightarrow> (unit, 'w) EventLoop" where
  "tool_loop fd w = \<lparr>m_events = replicate MAXEVENTS \<lparr>ev_events = 0, ev_ptr = None\<rparr>, m_eventCount = 0,
     m_eventInfos = [(fd, 7, \<lparr>inEvent = Some (), outEvent = None\<rparr>)], m_epollfd = 3, m_stopFd = 4, world = w\<rparr>"

lemma tool_env:
  "performance_env tool_epoll tool_notifier_os tool_notifier tool_count 7 5 4
    (fst \<circ> snd \<circ> snd) (fst \<circ> snd \<circ> snd \<circ> snd) (snd \<circ> snd \<circ> snd \<circ> snd)"
  by (simp add: performance_env_def view_def tool_epoll_def tool_notifier_os_def tool_notifier_def tool_count_def
      split_beta)

text \<open>A world without notifications: every read of a counter fails.\<close>

definition idle_notifier_os :: "tool_world notifier_os" where
  "idle_notifier_os = \<lparr>n_eventfd = (\<lambda>w. (5, w)), n_write8 = (\<lambda>fd v w. (8, w)), n_read8 = (\<lambda>fd w. ((- 1, 0), w)),
     n_close = (\<lambda>fd w. (0, w))\<rparr>"

definition idle_loop :: "(unit, tool_world) EventLoop" where
  "idle_loop = tool_loop 6 (\<lparr>notifier_fd = 5, notifier_handler = Nop\<rparr>, 0, 0, False, False)"

lemma tool_temporary:
  "5 \<notin> used \<Longrightarrow> temporary_env tool_epoll idle_notifier_os tool_notifier (\<lambda>fd w. 0) used"
  by (simp add: temporary_env_def ref_laws_def epoll_keeps_def keeps_def tool_notifier_def tool_epoll_def
      idle_notifier_os_def)

section \<open>Properties\<close>

text \<open>
  Claim C18: the notifier and the event loop together make progress: started once, the callback that notifies itself is called exactly
  \<open>EVENTLIMIT\<close> times, then \<open>stop\<close> ends \<open>execute\<close>, which returns 0. With edge triggered notification this needs one write for
  each report, which the callback makes.
\<close>

theorem performance_counts:
  assumes "performance_env os nos notifier eventCount p fd stopFd counter edge stopping"
    and "run h = Notifier_process nos (notifierCb os nos notifier eventCount) notifier"
    and "performance_state s p h stopFd" and "notifier_fd (obj notifier s) = fd" and "obj eventCount s = 0"
    and "counter (world s) = 0" and "\<not> edge (world s)" and "\<not> stopping (world s)"
  shows "\<exists>s'. performance_notify os nos run notifier s = Some (Some 0, s') \<and> obj eventCount s' = EVENTLIMIT"
proof -
  let ?V = "view notifier eventCount counter edge stopping"
  let ?s1 = "snd (Notifier_set (User ()) notifier s)"
  let ?s2 = "snd (Notifier_notify nos notifier ?s1)"
  have "?V (world ?s1) = (perf_notifier fd, 0, 0, False, False)"
    using assms(1,4-8) by (simp add: performance_env_def view_def Notifier_set_def set_obj_def obj_def)
  then have "?V (world ?s2) = (perf_notifier fd, 0, 1, True, False)"
    using assms(1) by (simp add: performance_env_def view_def Notifier_notify_def sys_def obj_def split_beta)
  moreover have "performance_state ?s2 p h stopFd"
    using assms(3) by (simp add: performance_state_def Notifier_set_def Notifier_notify_def set_obj_def sys_def split_beta)
  ultimately obtain s' where "execute os run ?s2 = Some (Some 0, s')" "deref eventCount (world s') = EVENTLIMIT"
    using execute_counts [where run = run and h = h and s = ?s2 and k = 0, OF assms(1,2)] by (auto simp: EVENTLIMIT_def)
  then show ?thesis by (simp add: performance_notify_def split_beta obj_def)
qed

theorem performance_counts_witness:
  "\<exists>s'. performance_notify tool_epoll tool_notifier_os
     (\<lambda>h. Notifier_process tool_notifier_os (notifierCb tool_epoll tool_notifier_os tool_notifier tool_count) tool_notifier)
     tool_notifier (tool_loop 5 (\<lparr>notifier_fd = 5, notifier_handler = Nop\<rparr>, 0, 0, False, False)) = Some (Some 0, s') \<and>
   obj tool_count s' = EVENTLIMIT"
  by (rule performance_counts [OF tool_env]) (rule refl | simp add: performance_state_def tool_loop_def handlers_at_def
      obj_def tool_notifier_def tool_count_def)+

text \<open>
  Creating and destroying a notifier, any number of times, leaves the registrations of the event loop as they were.
\<close>

theorem addRemove_restores:
  assumes "temporary_env os nos this counter {fd. in_handler s fd \<noteq> None}" and "run h = Notifier_process nos user this"
  shows "\<exists>s'. addRemove os nos run h this s = Some (Ret 0, s') \<and> in_handler s' = in_handler s \<and>
    out_handler s' = out_handler s"
  using addRemove_loop_restores [where run = run and h = h, OF assms] by (simp add: addRemove_def)

theorem addRemove_restores_witness:
  "\<exists>s'. addRemove tool_epoll idle_notifier_os (\<lambda>h. Notifier_process idle_notifier_os (\<lambda>c s. (Ret 0, s)) tool_notifier) ()
     tool_notifier idle_loop = Some (Ret 0, s') \<and>
   in_handler s' = in_handler idle_loop \<and>
   out_handler s' = out_handler idle_loop"
  by (rule addRemove_restores [where counter = "\<lambda>fd w. 0" and user = "\<lambda>c s. (Ret 0, s)"])
    (simp_all add: tool_temporary idle_loop_def tool_loop_def in_handler_def)

end
