(* ===== verification/NetTools.thy ===== *)
theory NetTools
  imports NetlinkTelegrams
begin

text \<open>
  \<open>tool/communication/netlinkview.cpp\<close> and \<open>netadapterview.cpp\<close>: the programs that show the list of network adapters and what
  the kernel reports about them. The console is a list of lines; the static variables are objects in the world of the loop.
\<close>

section \<open>netadapterview\<close>

definition adapter_lines :: "Netadapter \<Rightarrow> string list" where
  "adapter_lines adapter =
     [m_name adapter] @
     map (\<lambda>ipV4Address. [CHR 0x09] @ address ipV4Address @ '' '' @ netmask ipV4Address) (m_ipv4Addresses adapter) @
     map (\<lambda>ipV6Address. [CHR 0x09] @ address6 ipV6Address @ ''/'' @ to_string (unat (prefix6 ipV6Address)))
       (m_ipv6Addresses adapter)"

definition netadapterview_main :: "net_env \<Rightarrow> inet_lib \<Rightarrow> cxx_exception + string list" where
  "netadapterview_main env lib =
     (case NetadapterList_ctor env lib of
        Inl ex \<Rightarrow> Inl ex
      | Inr adapterList \<Rightarrow>
          Inr (foldl (\<lambda>out iter. out @ adapter_lines (snd iter)) [''netadapterview''] (get_adapters adapterList)))"

section \<open>netlinkview\<close>

definition event_text :: "event_t \<Rightarrow> 32 word \<Rightarrow> string \<Rightarrow> string \<Rightarrow> string" where
  "event_text event adapterIndex adapterName ipv4Address =
     (case event of
        ADDRESS_ADDED \<Rightarrow> ''new interface address appeared (adapter '' @ to_string (unat adapterIndex) @ '' ('' @
          adapterName @ ''), ipv4 address='' @ ipv4Address @ '')''
      | ADDRESS_REMOVED \<Rightarrow> ''interface address disappeared (adapter '' @ to_string (unat adapterIndex) @ '' ('' @
          adapterName @ ''), ipv4 address='' @ ipv4Address @ '')''
      | COMPLETE \<Rightarrow> ''complete reconfiguration''
      | LINK_ADDED \<Rightarrow> ''interface '' @ to_string (unat adapterIndex) @ '' ('' @ adapterName @ '') got up''
      | LINK_REMOVED \<Rightarrow> ''interface '' @ to_string (unat adapterIndex) @ '' ('' @ adapterName @ '') went down'')"

text \<open>
  The callback: an adapter that is not in the list any more has no name, because the exception of the lookup, which is a
  \<open>std::runtime_error\<close>, is caught.
\<close>

definition netlinkCb :: "('w, NetadapterList) ref \<Rightarrow> ('w, 32 word) ref \<Rightarrow> ('w, string list) ref \<Rightarrow>
    (unit, ('h, 'w) EventLoop) interfaceAddressCb_t" where
  "netlinkCb adapters eventCount console c event adapterIndex ipv4Address s =
     (let adapterName = (case getAdapterByInterfaceIndex (obj adapters s) adapterIndex of
            Inl _ \<Rightarrow> []
          | Inr adapter \<Rightarrow> m_name adapter);
          s = set_obj eventCount (obj eventCount s + 1) s;
          line = to_string (unat (obj eventCount s)) @ '': '' @ event_text event adapterIndex adapterName ipv4Address;
          s = set_obj console (obj console s @ [line]) s in
      (Ret 0, s))"

text \<open>\<open>main\<close>, on an event loop and the static list of adapters that are constructed; \<open>h\<close> binds \<open>Netlink::process\<close>.\<close>

definition netlinkview_main :: "'w netlink_os \<Rightarrow> 'w epoll_os \<Rightarrow> ('h, ('h, 'w) EventLoop) runner \<Rightarrow> 'h \<Rightarrow>
    ('w, 32 word) ref \<Rightarrow> ('w, string list) ref \<Rightarrow> ('w, unit Netlink) ref \<Rightarrow> ('h, 'w) EventLoop \<Rightarrow>
    (outcome \<times> ('h, 'w) EventLoop) option" where
  "netlinkview_main nl os run h eventCount console netlink s =
     (case Netlink_ctor nl netlink s of
        (Throw ex, s) \<Rightarrow> Some (Throw ex, s)
      | (Ret _, s) \<Rightarrow>
          andThen (Netlink_start os run h (netlinkCb (nl_list nl) eventCount console) (Some ()) netlink s) (\<lambda>_ s.
            case execute os run s of
              None \<Rightarrow> None
            | Some (None, s) \<Rightarrow> Some (Throw UndefinedBehaviour, s)
            | Some (Some _, s) \<Rightarrow> Some (Ret 0, Netlink_dtor nl os netlink s)))"

section \<open>What is shown\<close>

lemma foldl_append: "foldl (\<lambda>out x. out @ f x) out xs = out @ concat (map f xs)"
  by (induction xs arbitrary: out) auto

lemma netadapterview_lines:
  assumes "NetadapterList_ctor env lib = Inr l"
  shows "netadapterview_main env lib = Inr (''netadapterview'' # concat (map (adapter_lines \<circ> snd) (m_adapters l)))"
  using assms by (simp add: netadapterview_main_def get_adapters_def foldl_append [of "adapter_lines \<circ> snd", simplified] comp_def)

text \<open>The three variables are different objects, and none of them is the netlink object.\<close>

definition separate :: "('w, 'a) ref \<Rightarrow> ('w, 'b) ref \<Rightarrow> bool" where
  "separate x y \<longleftrightarrow> (\<forall>ob w. deref x (assign y ob w) = deref x w)"

definition view_env :: "('w, NetadapterList) ref \<Rightarrow> ('w, 32 word) ref \<Rightarrow> ('w, string list) ref \<Rightarrow> ('w, 'o) ref \<Rightarrow> bool" where
  "view_env adapters eventCount console this \<longleftrightarrow> ref_laws eventCount \<and> ref_laws console \<and>
     separate adapters eventCount \<and> separate adapters console \<and> separate eventCount console \<and>
     separate console eventCount \<and> separate this eventCount \<and> separate this console"

fun view_lines :: "NetadapterList \<Rightarrow> 32 word \<Rightarrow> (event_t \<times> 32 word \<times> string) list \<Rightarrow> string list" where
  "view_lines l n [] = []"
| "view_lines l n ((ev, i, a) # evs) =
     (to_string (unat (n + 1)) @ '': '' @
       event_text ev i (case smap_find (m_adapters l) i of None \<Rightarrow> [] | Some A \<Rightarrow> m_name A) a) #
     view_lines l (n + 1) evs"

lemma netlinkCb_line:
  assumes "view_env adapters eventCount console this"
  shows "\<exists>s'. netlinkCb adapters eventCount console c ev i a s = (Ret 0, s') \<and>
    obj console s' = obj console s @ view_lines (obj adapters s) (obj eventCount s) [(ev, i, a)] \<and>
    obj eventCount s' = obj eventCount s + 1 \<and> obj adapters s' = obj adapters s \<and> obj this s' = obj this s"
  using assms by (auto simp: netlinkCb_def view_env_def separate_def ref_laws_def obj_def set_obj_def Let_def
      getAdapterByInterfaceIndex_def split: option.splits)

text \<open>
  The events of a message appear in their order, one line each, numbered on from those before, with the name the adapter has in
  the list.
\<close>

theorem netlinkview_lines:
  assumes "view_env (nl_list nl) eventCount console this" and "m_interfaceAddressEventHandler (obj this s) = Some ()"
  shows "\<exists>s'. deliver (netlinkCb (nl_list nl) eventCount console) this evs s = (Ret 0, s') \<and>
    obj console s' = obj console s @ view_lines (obj (nl_list nl) s) (obj eventCount s) evs \<and>
    obj eventCount s' = obj eventCount s + of_nat (length evs)"
  using assms(2)
proof (induction evs arbitrary: s)
  case (Cons e evs)
  obtain ev i a where e: "e = (ev, i, a)" by (cases e)
  obtain s1 where s1: "netlinkCb (nl_list nl) eventCount console () ev i a s = (Ret 0, s1)"
      "obj console s1 = obj console s @ view_lines (obj (nl_list nl) s) (obj eventCount s) [(ev, i, a)]"
      "obj eventCount s1 = obj eventCount s + 1" "obj (nl_list nl) s1 = obj (nl_list nl) s" "obj this s1 = obj this s"
    using netlinkCb_line [OF assms(1), of "()" ev i a s] by blast
  then show ?case using Cons.IH [of s1] Cons.prems by (auto simp: e seq_def add.assoc)
qed simp

end
