(* ===== verification/WinEventLoop.thy ===== *)
theory WinEventLoop
  imports LoopClient InetText
begin

text \<open>
  \<open>lib/sys/windows/eventloop.cpp\<close>: the event loop on top of an I/O completion port. The table \<open>m_eventInfos\<close> maps the
  event handle of a client to its handler. A completion carries a key: the event handle, cut to the 32 bits of \<open>ULONG\<close>
  by \<open>addEvent\<close>; the null handle is the stop condition. As on Linux a handler is an abstract value that \<open>run\<close> executes.
\<close>

section \<open>The data\<close>

type_synonym handle = "64 word"

definition INVALID_HANDLE_VALUE :: handle where "INVALID_HANDLE_VALUE = - 1"
definition WSA_INVALID_EVENT :: handle where "WSA_INVALID_EVENT = 0"

definition ERROR_NETNAME_DELETED :: int where "ERROR_NETNAME_DELETED = 64"
definition ERROR_INVALID_PARAMETER :: int where "ERROR_INVALID_PARAMETER = 87"
definition ERROR_OPERATION_ABORTED :: int where "ERROR_OPERATION_ABORTED = 995"

text \<open>\<open>OVERLAPPED\<close>, of which the library uses the status, the number of bytes and the event, and \<open>sys::event\<close>.\<close>

record overlapped =
  ov_Internal :: "64 word"
  ov_InternalHigh :: "64 word"
  ov_hEvent :: handle

record win_event =
  completionPort :: handle
  overlapped :: overlapped
  fileHandle :: handle

definition win_event_ctor :: win_event where
  "win_event_ctor = \<lparr>completionPort = INVALID_HANDLE_VALUE,
     overlapped = \<lparr>ov_Internal = 0, ov_InternalHigh = 0, ov_hEvent = 0\<rparr>, fileHandle = INVALID_HANDLE_VALUE\<rparr>"

abbreviation hEvent :: "win_event \<Rightarrow> handle" where
  "hEvent fd \<equiv> ov_hEvent (overlapped fd)"

text \<open>
  What \<open>GetQueuedCompletionStatus\<close> yields: a completion with its key, a failed operation with its key and
  \<open>GetLastError\<close>, or failure without a dequeued operation.
\<close>

datatype completion = Completed handle | FailedIO handle int | NothingDequeued

text \<open>
  The system calls: \<open>io_associate file port key\<close> is \<open>CreateIoCompletionPort\<close> on an existing port, \<open>Inl\<close> the error;
  \<open>io_post port key\<close> is \<open>PostQueuedCompletionStatus\<close>; \<open>io_report\<close> writes to the event log.
\<close>

record 'w iocp_os =
  io_create_port :: "'w \<Rightarrow> handle \<times> 'w"
  io_register_source :: "'w \<Rightarrow> handle \<times> 'w"
  io_deregister_source :: "handle \<Rightarrow> 'w \<Rightarrow> bool \<times> 'w"
  io_close_handle :: "handle \<Rightarrow> 'w \<Rightarrow> bool \<times> 'w"
  io_associate :: "handle \<Rightarrow> handle \<Rightarrow> 64 word \<Rightarrow> 'w \<Rightarrow> (int + unit) \<times> 'w"
  io_get_status :: "handle \<Rightarrow> 'w \<Rightarrow> completion \<times> 'w"
  io_post :: "handle \<Rightarrow> 64 word \<Rightarrow> 'w \<Rightarrow> bool \<times> 'w"
  io_report :: "handle \<Rightarrow> string \<Rightarrow> 'w \<Rightarrow> bool \<times> 'w"

record ('h, 'w) WinEventLoop =
  m_completionPort :: handle
  m_hEventLog :: handle
  m_handlers :: "(handle \<times> 'h) list"
  wworld :: 'w

text \<open>Calls on the world of the loop, and the objects of the clients in it.\<close>

definition wsys :: "('w \<Rightarrow> 'a \<times> 'w) \<Rightarrow> ('h, 'w) WinEventLoop \<Rightarrow> 'a \<times> ('h, 'w) WinEventLoop" where
  "wsys call s = (case call (wworld s) of (x, w) \<Rightarrow> (x, s\<lparr>wworld := w\<rparr>))"

definition wobj :: "('w, 'o) ref \<Rightarrow> ('h, 'w) WinEventLoop \<Rightarrow> 'o" where
  "wobj this s = deref this (wworld s)"

definition wset :: "('w, 'o) ref \<Rightarrow> 'o \<Rightarrow> ('h, 'w) WinEventLoop \<Rightarrow> ('h, 'w) WinEventLoop" where
  "wset this ob s = s\<lparr>wworld := assign this ob (wworld s)\<rparr>"

section \<open>The operations\<close>

definition win_EventLoop_ctor :: "'w iocp_os \<Rightarrow> 'w \<Rightarrow> ('h, 'w) WinEventLoop" where
  "win_EventLoop_ctor os w =
     (let (port, w) = io_create_port os w;
          (log, w) = io_register_source os w
      in \<lparr>m_completionPort = port, m_hEventLog = log, m_handlers = [], wworld = w\<rparr>)"

definition win_stop :: "'w iocp_os \<Rightarrow> ('h, 'w) WinEventLoop \<Rightarrow> ('h, 'w) WinEventLoop" where
  "win_stop os s = snd (wsys (io_post os (m_completionPort s) WSA_INVALID_EVENT) s)"

definition win_EventLoop_dtor :: "'w iocp_os \<Rightarrow> ('h, 'w) WinEventLoop \<Rightarrow> 'w" where
  "win_EventLoop_dtor os s =
     (let s = win_stop os s;
          (_, s) = wsys (io_deregister_source os (m_hEventLog s)) s;
          (_, s) = wsys (io_close_handle os (m_completionPort s)) s in wworld s)"

text \<open>The key of a file: the event handle through \<open>ULONG\<close>, which has 32 bits.\<close>

definition completion_key :: "handle \<Rightarrow> 64 word" where
  "completion_key h = ucast (ucast h :: 32 word)"

definition to_string_int :: "int \<Rightarrow> string" where
  "to_string_int i = (if i < 0 then CHR ''-'' # to_string (nat (- i)) else to_string (nat i))"

definition win_addEvent :: "'w iocp_os \<Rightarrow> win_event \<Rightarrow> 'h option \<Rightarrow> ('h, 'w) WinEventLoop \<Rightarrow>
    int \<times> ('h, 'w) WinEventLoop" where
  "win_addEvent os fd eventHandler s =
     (case eventHandler of
        None \<Rightarrow> (- 1, s)
      | Some h \<Rightarrow>
          (let s = s\<lparr>m_handlers := AList.update (hEvent fd) h (m_handlers s)\<rparr> in
           if fileHandle fd = INVALID_HANDLE_VALUE then (0, s)
           else case wsys (io_associate os (fileHandle fd) (m_completionPort s) (completion_key (hEvent fd))) s of
               (Inl lastError, s) \<Rightarrow>
                 if lastError \<noteq> ERROR_INVALID_PARAMETER then
                   (let (_, s) = wsys (io_report os (m_hEventLog s)
                      (''Could not add event to event loop '' @ [char_of (39 :: nat)] @ to_string_int lastError @
                       [char_of (39 :: nat)])) s in (- 1, s))
                 else (0, s)
             | (Inr _, s) \<Rightarrow> (0, s)))"

definition win_eraseEvent :: "win_event \<Rightarrow> ('h, 'w) WinEventLoop \<Rightarrow> int \<times> ('h, 'w) WinEventLoop" where
  "win_eraseEvent fd s = (0, s\<lparr>m_handlers := AList.delete (hEvent fd) (m_handlers s)\<rparr>)"

text \<open>
  The inner loop of \<open>execute\<close> for one completion. \<open>retval\<close> keeps its value when the handler is not found.
\<close>

partial_function (option) win_dispatch :: "('h, ('h, 'w) WinEventLoop) runner \<Rightarrow> handle \<Rightarrow> int \<Rightarrow>
    ('h, 'w) WinEventLoop \<Rightarrow> (outcome \<times> ('h, 'w) WinEventLoop) option" where
  "win_dispatch run event retval s =
     (case map_of (m_handlers s) event of
        None \<Rightarrow> if 0 < retval then win_dispatch run event retval s else Some (Ret 0, s)
      | Some h \<Rightarrow>
          (case run h s of
             (Throw ex, s) \<Rightarrow> Some (Throw ex, s)
           | (Ret retval, s) \<Rightarrow> if 0 < retval then win_dispatch run event retval s else Some (Ret 0, s)))"

partial_function (option) win_loop :: "'w iocp_os \<Rightarrow> ('h, ('h, 'w) WinEventLoop) runner \<Rightarrow>
    ('h, 'w) WinEventLoop \<Rightarrow> (outcome \<times> ('h, 'w) WinEventLoop) option" where
  "win_loop os run s =
     (case wsys (io_get_status os (m_completionPort s)) s of
        (NothingDequeued, s) \<Rightarrow>
          (case wsys (io_report os (m_hEventLog s)
             ''Event loop woke up but nothing was dequeued. Waiting for next events...'') s of
             (_, s) \<Rightarrow> win_loop os run s)
      | (FailedIO event lastError, s) \<Rightarrow>
          if lastError = ERROR_NETNAME_DELETED then
            (case map_of (m_handlers s) event of
               None \<Rightarrow> win_loop os run s
             | Some h \<Rightarrow>
                 (case run h s of
                    (Throw ex, s) \<Rightarrow> Some (Throw ex, s)
                  | (Ret _, s) \<Rightarrow> win_loop os run s))
          else if lastError \<noteq> ERROR_OPERATION_ABORTED then
            (case wsys (io_report os (m_hEventLog s)
               (''Event loop stopped with error '' @ to_string_int lastError)) s of
               (_, s) \<Rightarrow> Some (Ret 0, s))
          else win_loop os run s
      | (Completed event, s) \<Rightarrow>
          if event = WSA_INVALID_EVENT then Some (Ret 0, s)
          else (case win_dispatch run event 0 s of
                  None \<Rightarrow> None
                | Some (Throw ex, s) \<Rightarrow> Some (Throw ex, s)
                | Some (Ret _, s) \<Rightarrow> win_loop os run s))"

definition win_execute :: "'w iocp_os \<Rightarrow> ('h, ('h, 'w) WinEventLoop) runner \<Rightarrow>
    ('h, 'w) WinEventLoop \<Rightarrow> (outcome \<times> ('h, 'w) WinEventLoop) option" where
  "win_execute os run s =
     (if m_completionPort s = 0 then
        (case wsys (io_report os (m_hEventLog s) ''Could not create io completion port!'') s of
           (_, s) \<Rightarrow> Some (Ret (- 1), s))
      else win_loop os run s)"

end
