(* ===== verification/WinEventLoopBehaviour.thy ===== *)
theory WinEventLoopBehaviour
  imports WinEventLoop
begin

text \<open>
  What the event loop on a completion port does: which handlers run, for which completions, in which order; that a
  completion of a file reaches the handler registered with it; and when the dispatch does not return.
\<close>

section \<open>The table of handlers\<close>

lemma wsys_simps [simp]:
  "m_handlers (snd (wsys call s)) = m_handlers s"
  "m_completionPort (snd (wsys call s)) = m_completionPort s"
  "m_hEventLog (snd (wsys call s)) = m_hEventLog s"
  "wworld (snd (wsys call s)) = snd (call (wworld s))"
  "fst (wsys call s) = fst (call (wworld s))"
  by (simp_all add: wsys_def split_beta)

lemma wset_simps [simp]:
  "m_handlers (wset this ob s) = m_handlers s"
  "m_completionPort (wset this ob s) = m_completionPort s"
  "m_hEventLog (wset this ob s) = m_hEventLog s"
  by (simp_all add: wset_def)

lemma wobj_wset: "ref_laws this \<Longrightarrow> wobj this (wset this ob s) = ob"
  by (simp add: wobj_def wset_def ref_laws_def)

lemma wobj_wsys: "keeps this call \<Longrightarrow> wobj this (snd (wsys call s)) = wobj this s"
  by (simp add: wobj_def deref_keeps)

lemma win_eraseEvent_handlers [simp]:
  "map_of (m_handlers (snd (win_eraseEvent fd s))) = (map_of (m_handlers s))(hEvent fd := None)"
  "wworld (snd (win_eraseEvent fd s)) = wworld s"
  "m_completionPort (snd (win_eraseEvent fd s)) = m_completionPort s"
  by (simp_all add: win_eraseEvent_def delete_conv')

lemma win_addEvent_handlers [simp]:
  "map_of (m_handlers (snd (win_addEvent os fd (Some h) s))) = (map_of (m_handlers s))(hEvent fd \<mapsto> h)"
  "m_completionPort (snd (win_addEvent os fd eh s)) = m_completionPort s"
  by (auto simp: win_addEvent_def Let_def update_conv' wsys_def split_beta split: option.splits sum.splits)

text \<open>A handle whose upper half is zero is its own key.\<close>

lemma completion_key_id: "completion_key h = h \<longleftrightarrow> unat h < 2 ^ 32"
proof -
  have "unat (completion_key h) = unat h mod 2 ^ 32"
    by (simp add: completion_key_def unsigned_ucast_eq take_bit_eq_mod unat_mod)
  then show ?thesis by (metis mod_less mod_less_divisor unsigned_word_eqI zero_less_numeral zero_less_power)
qed

section \<open>Dispatching\<close>

lemma win_dispatch_none: "map_of (m_handlers s) event = None \<Longrightarrow> win_dispatch run event 0 s = Some (Ret 0, s)"
  by (simp add: win_dispatch.simps)

text \<open>With a positive result left from the last call and the handler gone, the loop goes on forever.\<close>

lemma win_dispatch_spins:
  assumes "map_of (m_handlers s) event = None" and "0 < retval"
  shows "win_dispatch run event retval s = None"
proof -
  have "\<not> (map_of (m_handlers s) event = None \<and> 0 < retval)" if "win_dispatch run event retval s = Some x" for x
    using that
  proof (induction rule: win_dispatch.raw_induct [rotated, consumes 1, case_names step])
    case (step dispatch run event retval s x)
    show ?case
    proof
      assume a: "map_of (m_handlers s) event = None \<and> 0 < retval"
      then have "dispatch run event retval s = Some x" using step(2) by simp
      from step(1) [OF this] a show False by blast
    qed
  qed
  with assms show ?thesis by (cases "win_dispatch run event retval s") auto
qed

section \<open>The queue of completions\<close>

text \<open>The documented port: a queue, to which posting appends. \<open>queue\<close> is its contents.\<close>

definition port_laws :: "'w iocp_os \<Rightarrow> handle \<Rightarrow> ('w \<Rightarrow> completion list) \<Rightarrow> bool" where
  "port_laws os port queue \<longleftrightarrow>
     (\<forall>w. queue w \<noteq> [] \<longrightarrow> fst (io_get_status os port w) = hd (queue w) \<and>
        queue (snd (io_get_status os port w)) = tl (queue w)) \<and>
     (\<forall>key w. queue (snd (io_post os port key w)) =
        (if fst (io_post os port key w) then queue w @ [Completed key] else queue w)) \<and>
     (\<forall>log t w. queue (snd (io_report os log t w)) = queue w)"

lemma port_lawsD:
  assumes "port_laws os port queue"
  shows "queue w = c # cs \<Longrightarrow> fst (io_get_status os port w) = c \<and> queue (snd (io_get_status os port w)) = cs"
    and "queue (snd (io_post os port key w)) =
      (if fst (io_post os port key w) then queue w @ [Completed key] else queue w)"
    and "queue (snd (io_report os log t w)) = queue w"
  using assms by (auto simp: port_laws_def)

text \<open>
  The handlers \<open>H\<close> do not throw, ask to be called again only after having done some of a finite amount of \<open>work\<close>, add to the
  queue at most and do not change the registrations; \<open>calls\<close> records each call with its result, which the system calls
  leave alone, and \<open>good\<close> is what the handlers rely on in the world.
\<close>

definition quiet_handlers :: "'w iocp_os \<Rightarrow> ('h, ('h, 'w) WinEventLoop) runner \<Rightarrow> 'h set \<Rightarrow> ('w \<Rightarrow> bool) \<Rightarrow>
    ('w \<Rightarrow> nat) \<Rightarrow> ('w \<Rightarrow> completion list) \<Rightarrow> ('w \<Rightarrow> ('h \<times> int) list) \<Rightarrow> bool" where
  "quiet_handlers os run H good work queue calls \<longleftrightarrow>
     (\<forall>h \<in> H. \<forall>s. good (wworld s) \<longrightarrow>
       (\<exists>r s' xs. run h s = (Ret r, s') \<and> (0 < r \<longrightarrow> work (wworld s') < work (wworld s)) \<and>
        calls (wworld s') = calls (wworld s) @ [(h, r)] \<and>
        queue (wworld s') = queue (wworld s) @ xs \<and> m_handlers s' = m_handlers s \<and>
        m_completionPort s' = m_completionPort s \<and> good (wworld s'))) \<and>
     (\<forall>port w. good w \<longrightarrow> calls (snd (io_get_status os port w)) = calls w \<and> good (snd (io_get_status os port w))) \<and>
     (\<forall>log t w. good w \<longrightarrow> calls (snd (io_report os log t w)) = calls w \<and> good (snd (io_report os log t w)))"

lemma quiet_handlersD:
  assumes "quiet_handlers os run H good work queue calls" and "good w"
  shows "calls (snd (io_get_status os port w)) = calls w" "good (snd (io_get_status os port w))"
    "calls (snd (io_report os log t w)) = calls w" "good (snd (io_report os log t w))"
  using assms by (simp_all add: quiet_handlers_def)

text \<open>
  The completions that end the loop, the handlers any other completion calls, and the calls: a completion calls its handler
  until the result is not positive, a lost connection calls it once.
\<close>

fun stops :: "completion \<Rightarrow> bool" where
  "stops (Completed k) \<longleftrightarrow> k = WSA_INVALID_EVENT"
| "stops (FailedIO k e) \<longleftrightarrow> e \<noteq> ERROR_NETNAME_DELETED \<and> e \<noteq> ERROR_OPERATION_ABORTED"
| "stops NothingDequeued \<longleftrightarrow> False"

fun called :: "(handle \<times> 'h) list \<Rightarrow> completion \<Rightarrow> 'h list" where
  "called hs (Completed k) = (case map_of hs k of None \<Rightarrow> [] | Some h \<Rightarrow> [h])"
| "called hs (FailedIO k e) =
     (if e = ERROR_NETNAME_DELETED then (case map_of hs k of None \<Rightarrow> [] | Some h \<Rightarrow> [h]) else [])"
| "called hs NothingDequeued = []"

definition until_done :: "int list \<Rightarrow> bool" where
  "until_done rs \<longleftrightarrow> rs \<noteq> [] \<and> (\<forall>r \<in> set (butlast rs). 0 < r) \<and> last rs \<le> 0"

definition served :: "(handle \<times> 'h) list \<Rightarrow> completion \<Rightarrow> ('h \<times> int) list \<Rightarrow> bool" where
  "served hs c log \<longleftrightarrow>
     (case called hs c of
        [] \<Rightarrow> log = []
      | h # _ \<Rightarrow> \<exists>rs. log = map (Pair h) rs \<and>
          (case c of Completed k \<Rightarrow> until_done rs | _ \<Rightarrow> length rs = 1))"

lemma until_done_simps [simp]: "until_done [r] \<longleftrightarrow> r \<le> 0" "rs \<noteq> [] \<Longrightarrow> until_done (r # rs) \<longleftrightarrow> 0 < r \<and> until_done rs"
  by (auto simp: until_done_def)

lemma until_done_nonempty: "until_done rs \<Longrightarrow> rs \<noteq> []" by (simp add: until_done_def)

lemma win_dispatch_serves:
  assumes "quiet_handlers os run H good work queue calls" and "h \<in> H"
  shows "map_of (m_handlers s) k = Some h \<Longrightarrow> good (wworld s) \<Longrightarrow>
    \<exists>s' rs xs. win_dispatch run k v s = Some (Ret 0, s') \<and> until_done rs \<and>
      calls (wworld s') = calls (wworld s) @ map (Pair h) rs \<and> queue (wworld s') = queue (wworld s) @ xs \<and>
      m_handlers s' = m_handlers s \<and> m_completionPort s' = m_completionPort s \<and> good (wworld s')"
proof (induction "work (wworld s)" arbitrary: s v rule: less_induct)
  case less
  obtain r s1 xs where r: "run h s = (Ret r, s1)" "0 < r \<longrightarrow> work (wworld s1) < work (wworld s)"
      "calls (wworld s1) = calls (wworld s) @ [(h, r)]" "queue (wworld s1) = queue (wworld s) @ xs"
      "m_handlers s1 = m_handlers s" "m_completionPort s1 = m_completionPort s" "good (wworld s1)"
    using assms less.prems(2) unfolding quiet_handlers_def by blast
  show ?case
  proof (cases "0 < r")
    case True
    then obtain s' rs ys where "win_dispatch run k r s1 = Some (Ret 0, s')" "until_done rs"
        "calls (wworld s') = calls (wworld s1) @ map (Pair h) rs" "queue (wworld s') = queue (wworld s1) @ ys"
        "m_handlers s' = m_handlers s1" "m_completionPort s' = m_completionPort s1" "good (wworld s')"
      using less.hyps [of s1 r] r less.prems(1) by auto
    then show ?thesis
      using r True less.prems(1) until_done_nonempty
      by (intro exI [of _ s'] exI [of _ "r # rs"] exI [of _ "xs @ ys"]) (simp add: win_dispatch.simps [of run k v s])
  next
    case False
    then show ?thesis
      using r less.prems(1)
      by (intro exI [of _ s1] exI [of _ "[r]"] exI [of _ xs]) (simp add: win_dispatch.simps [of run k v s])
  qed
qed

lemma win_loop_stops:
  assumes laws: "port_laws os (m_completionPort s) queue" "quiet_handlers os run H good work queue calls"
    and "good (wworld s)" and q: "queue (wworld s) = c # rest" and "stops c"
  shows "\<exists>s'. win_loop os run s = Some (Ret 0, s') \<and> calls (wworld s') = calls (wworld s)"
proof -
  obtain s1 where s1: "wsys (io_get_status os (m_completionPort s)) s = (c, s1)"
    using port_lawsD(1) [OF laws(1) q] by (metis wsys_simps(5) prod.collapse)
  then have "calls (wworld s1) = calls (wworld s)" "good (wworld s1)"
    using quiet_handlersD [OF laws(2) assms(3)] by (metis wsys_simps(4) snd_conv)+
  then show ?thesis
    using s1 assms(5) quiet_handlersD [OF laws(2)]
    by (cases c) (simp_all add: win_loop.simps [of os run s] split_beta)
qed

text \<open>One completion that does not end the loop: its handler is served, and the loop goes on.\<close>

lemma win_loop_step:
  assumes laws: "port_laws os (m_completionPort s) queue" "quiet_handlers os run H good work queue calls"
    and "snd ` set (m_handlers s) \<subseteq> H" and "good (wworld s)"
    and q: "queue (wworld s) = c # cs" and "\<not> stops c"
  shows "\<exists>s' xs log. win_loop os run s = win_loop os run s' \<and> queue (wworld s') = cs @ xs \<and>
    calls (wworld s') = calls (wworld s) @ log \<and> served (m_handlers s) c log \<and> m_handlers s' = m_handlers s \<and>
    m_completionPort s' = m_completionPort s \<and> good (wworld s')"
proof -
  obtain s1 where s1: "wsys (io_get_status os (m_completionPort s)) s = (c, s1)"
    using port_lawsD(1) [OF laws(1) q] by (metis wsys_simps(5) prod.collapse)
  then have keep: "queue (wworld s1) = cs" "calls (wworld s1) = calls (wworld s)" "m_handlers s1 = m_handlers s"
      "m_completionPort s1 = m_completionPort s" "good (wworld s1)"
    using port_lawsD(1) [OF laws(1) q] quiet_handlersD [OF laws(2) assms(4)]
      wsys_simps [of "io_get_status os (m_completionPort s)" s] by simp_all
  have H: "h \<in> H" if "map_of (m_handlers s1) k = Some h" for h k
    using map_of_SomeD [OF that] assms(3) keep(3) by force
  show ?thesis
  proof (cases c)
    case (Completed k)
    with assms(6) have "k \<noteq> WSA_INVALID_EVENT" by simp
    then have eq: "win_loop os run s = (case win_dispatch run k 0 s1 of None \<Rightarrow> None
        | Some (Throw ex, s) \<Rightarrow> Some (Throw ex, s) | Some (Ret _, s) \<Rightarrow> win_loop os run s)"
      using s1 Completed by (simp add: win_loop.simps [of os run s])
    show ?thesis
    proof (cases "map_of (m_handlers s1) k")
      case None
      then show ?thesis using eq keep Completed by (auto simp: win_dispatch_none served_def)
    next
      case (Some h)
      obtain s' rs xs where d: "win_dispatch run k 0 s1 = Some (Ret 0, s')" "until_done rs" and
          post: "calls (wworld s') = calls (wworld s1) @ map (Pair h) rs" "queue (wworld s') = queue (wworld s1) @ xs"
          "m_handlers s' = m_handlers s1" "m_completionPort s' = m_completionPort s1" "good (wworld s')"
        using win_dispatch_serves [OF laws(2) H [OF Some] Some keep(5), of 0] by blast
      have "served (m_handlers s) c (map (Pair h) rs)" using d(2) Some keep(3) Completed by (auto simp: served_def)
      then show ?thesis using d(1) eq post keep by (intro exI [of _ s'] exI [of _ xs] exI) simp
    qed
  next
    case (FailedIO k e)
    show ?thesis
    proof (cases "e = ERROR_NETNAME_DELETED \<and> map_of (m_handlers s1) k \<noteq> None")
      case True
      then obtain h where h: "map_of (m_handlers s1) k = Some h" by blast
      obtain r s' xs where r: "run h s1 = (Ret r, s')" and post: "calls (wworld s') = calls (wworld s1) @ [(h, r)]"
          "queue (wworld s') = queue (wworld s1) @ xs" "m_handlers s' = m_handlers s1"
          "m_completionPort s' = m_completionPort s1" "good (wworld s')"
        using laws(2) keep(5) H [OF h] unfolding quiet_handlers_def by blast
      have "win_loop os run s = win_loop os run s'"
        using s1 FailedIO True h r by (simp add: win_loop.simps [of os run s])
      moreover have "served (m_handlers s) c [(h, r)]"
        using h keep(3) FailedIO True by (auto simp: served_def intro: exI [of _ "[r]"])
      ultimately show ?thesis using post keep by (intro exI [of _ s'] exI [of _ xs] exI) simp
    next
      case False
      then have "win_loop os run s = win_loop os run s1"
        using s1 FailedIO assms(6) by (auto simp: win_loop.simps [of os run s] split: option.split)
      moreover have "called (m_handlers s) c = []" using False FailedIO keep by auto
      ultimately show ?thesis using keep by (intro exI [of _ s1] exI [of _ "[]"] exI [of _ "[]"]) (simp add: served_def)
    qed
  next
    case NothingDequeued
    obtain x s2 where s2: "wsys (io_report os (m_hEventLog s1)
        ''Event loop woke up but nothing was dequeued. Waiting for next events...'') s1 = (x, s2)" by fastforce
    then have "wworld s2 = snd (io_report os (m_hEventLog s1)
          ''Event loop woke up but nothing was dequeued. Waiting for next events...'' (wworld s1))"
        "m_handlers s2 = m_handlers s1" "m_completionPort s2 = m_completionPort s1"
      using wsys_simps [of "io_report os (m_hEventLog s1)
        ''Event loop woke up but nothing was dequeued. Waiting for next events...''" s1] by simp_all
    moreover have "win_loop os run s = win_loop os run s2"
      using s1 s2 NothingDequeued by (simp add: win_loop.simps [of os run s])
    ultimately show ?thesis
      using keep port_lawsD(3) [OF laws(1)] quiet_handlersD [OF laws(2) keep(5)] NothingDequeued
      by (intro exI [of _ s2] exI [of _ "[]"] exI [of _ "[]"]) (simp add: served_def)
  qed
qed

lemma win_loop_calls:
  assumes "quiet_handlers os run H good work queue calls" and "\<forall>c \<in> set cs. \<not> stops c" and "stops c"
  shows "port_laws os (m_completionPort s) queue \<Longrightarrow> queue (wworld s) = cs @ c # rest \<Longrightarrow>
    snd ` set (m_handlers s) \<subseteq> H \<Longrightarrow> good (wworld s) \<Longrightarrow>
    \<exists>s' logs. win_loop os run s = Some (Ret 0, s') \<and> list_all2 (served (m_handlers s)) cs logs \<and>
      calls (wworld s') = calls (wworld s) @ concat logs"
  using assms(2)
proof (induction cs arbitrary: s rest)
  case Nil
  then show ?case using win_loop_stops [OF Nil(1) assms(1) Nil(4) _ assms(3)] by simp
next
  case (Cons d cs)
  obtain s1 xs log where s1: "win_loop os run s = win_loop os run s1" "queue (wworld s1) = (cs @ c # rest) @ xs"
      "calls (wworld s1) = calls (wworld s) @ log" "served (m_handlers s) d log" "m_handlers s1 = m_handlers s"
      "m_completionPort s1 = m_completionPort s" "good (wworld s1)"
    using win_loop_step [OF Cons.prems(1) assms(1) Cons.prems(3,4), of d "cs @ c # rest"] Cons.prems by auto
  then obtain s' logs where "win_loop os run s1 = Some (Ret 0, s')" "list_all2 (served (m_handlers s)) cs logs"
      "calls (wworld s') = calls (wworld s1) @ concat logs"
    using Cons.IH [of s1 "rest @ xs"] Cons.prems by auto
  then show ?case using s1 by (intro exI [of _ s'] exI [of _ "log # logs"]) simp
qed

text \<open>
  The key of a file on the port: associating sets it, or fails with \<open>ERROR_INVALID_PARAMETER\<close> when there is one.
\<close>

definition associate_laws :: "'w iocp_os \<Rightarrow> handle \<Rightarrow> ('w \<Rightarrow> handle \<Rightarrow> 64 word option) \<Rightarrow> bool" where
  "associate_laws os port key_of \<longleftrightarrow>
     (\<forall>file key w. case io_associate os file port key w of
        (Inr _, w') \<Rightarrow> key_of w' = (key_of w)(file \<mapsto> key)
      | (Inl e, w') \<Rightarrow> key_of w' = key_of w \<and> (e = ERROR_INVALID_PARAMETER \<longleftrightarrow> key_of w file \<noteq> None))"

section \<open>A concrete port\<close>

text \<open>The queue, the calls of handlers so far, the keys of files, and what handler 2 has to do.\<close>

record port_world =
  pw_queue :: "completion list"
  pw_calls :: "(nat \<times> int) list"
  pw_keys :: "(handle \<times> 64 word) list"
  pw_work :: nat

definition demo_iocp :: "port_world iocp_os" where
  "demo_iocp = \<lparr>io_create_port = (\<lambda>w. (7, w)), io_register_source = (\<lambda>w. (8, w)),
     io_deregister_source = (\<lambda>h w. (True, w)), io_close_handle = (\<lambda>h w. (True, w)),
     io_associate = (\<lambda>file port key w.
       if map_of (pw_keys w) file = None then (Inr (), w\<lparr>pw_keys := (file, key) # pw_keys w\<rparr>)
       else (Inl ERROR_INVALID_PARAMETER, w)),
     io_get_status = (\<lambda>port w.
       (if pw_queue w = [] then NothingDequeued else hd (pw_queue w), w\<lparr>pw_queue := tl (pw_queue w)\<rparr>)),
     io_post = (\<lambda>port key w. (True, w\<lparr>pw_queue := pw_queue w @ [Completed key]\<rparr>)),
     io_report = (\<lambda>log t w. (True, w))\<rparr>"

text \<open>A handler records its call and returns 0; handler 0 asks to be called again and erases its event 40.\<close>

definition demo_run :: "(nat, (nat, port_world) WinEventLoop) runner" where
  "demo_run h s =
     (let s = s\<lparr>wworld := (wworld s)\<lparr>pw_calls := pw_calls (wworld s) @ [(h, if h = 0 then 1 else 0)]\<rparr>\<rparr> in
      if h = 0 then (Ret 1, s\<lparr>m_handlers := AList.delete 40 (m_handlers s)\<rparr>) else (Ret 0, s))"

text \<open>Handler 2 asks to be called again while it has something to do, the others do not.\<close>

definition record_run :: "(nat, (nat, port_world) WinEventLoop) runner" where
  "record_run h s =
     (let w = wworld s; r = (if h = 2 then int (pw_work w) else 0) in
      (Ret r, s\<lparr>wworld := w\<lparr>pw_calls := pw_calls w @ [(h, r)], pw_work := pw_work w - 1\<rparr>\<rparr>))"

definition demo_port_loop :: "completion list \<Rightarrow> (nat, port_world) WinEventLoop" where
  "demo_port_loop q = \<lparr>m_completionPort = 7, m_hEventLog = 8, m_handlers = [(40, 0), (44, 1), (48, 2)],
     wworld = \<lparr>pw_queue = q, pw_calls = [], pw_keys = [], pw_work = 2\<rparr>\<rparr>"

lemma demo_port_laws: "port_laws demo_iocp port pw_queue"
  by (simp add: port_laws_def demo_iocp_def)

lemma demo_associate_laws: "associate_laws demo_iocp port (\<lambda>w. map_of (pw_keys w))"
  by (auto simp: associate_laws_def demo_iocp_def fun_eq_iff)

lemma record_run_quiet: "quiet_handlers demo_iocp record_run UNIV (\<lambda>_. True) pw_work pw_queue pw_calls"
  by (auto simp: quiet_handlers_def record_run_def demo_iocp_def Let_def)

section \<open>Properties\<close>

text \<open>
  Claim C9: \<open>execute\<close> works off the completions in order up to the first one that ends it (the stop condition, or an
  error other than a lost connection or a cancelled operation): a completion calls the handler registered under its key
  until its result is not positive, a lost connection calls it exactly once, an unknown key and a cancelled operation call
  none. The result is 0 in both cases, although the header announces -1 for an error. The handlers do not throw, leave the
  registrations alone, and ask to be called again only after having done some of a finite amount of work.
\<close>

theorem win_execute_calls:
  assumes "port_laws os (m_completionPort s) queue" and "quiet_handlers os run H good work queue calls"
    and "snd ` set (m_handlers s) \<subseteq> H" and "good (wworld s)" and "m_completionPort s \<noteq> 0"
    and "queue (wworld s) = cs @ c # rest" and "\<forall>c \<in> set cs. \<not> stops c" and "stops c"
  shows "\<exists>s' logs. win_execute os run s = Some (Ret 0, s') \<and> list_all2 (served (m_handlers s)) cs logs \<and>
    calls (wworld s') = calls (wworld s) @ concat logs"
  using win_loop_calls [OF assms(2,7,8,1,6,3,4)] assms(5) by (simp add: win_execute_def)

theorem win_execute_calls_witness:
  "\<exists>s' logs. win_execute demo_iocp record_run
     (demo_port_loop [Completed 44, Completed 52, FailedIO 44 995, Completed 48, FailedIO 44 64, FailedIO 44 5]) =
     Some (Ret 0, s') \<and>
     list_all2 (served (m_handlers (demo_port_loop [])))
       [Completed 44, Completed 52, FailedIO 44 995, Completed 48, FailedIO 44 64] logs \<and>
     pw_calls (wworld s') = concat logs"
proof -
  let ?cs = "[Completed 44, Completed 52, FailedIO 44 995, Completed 48, FailedIO 44 64]"
  let ?s = "demo_port_loop [Completed 44, Completed 52, FailedIO 44 995, Completed 48, FailedIO 44 64, FailedIO 44 5]"
  have "\<exists>s' logs. win_execute demo_iocp record_run ?s = Some (Ret 0, s') \<and> list_all2 (served (m_handlers ?s)) ?cs logs \<and>
      pw_calls (wworld s') = pw_calls (wworld ?s) @ concat logs"
    by (rule win_execute_calls [OF demo_port_laws record_run_quiet, where c = "FailedIO 44 5" and rest = "[]"])
      (simp_all add: demo_port_loop_def WSA_INVALID_EVENT_def ERROR_NETNAME_DELETED_def ERROR_OPERATION_ABORTED_def)
  moreover have "m_handlers ?s = m_handlers (demo_port_loop [])" "pw_calls (wworld ?s) = []"
    by (simp_all add: demo_port_loop_def)
  ultimately show ?thesis by simp
qed

text \<open>
  Claim C37: the event loop hangs when a handler asks to be called again and has removed its own event: the result of the
  last call is kept, the handler is not found any more, and the loop around it never ends; \<open>execute\<close> does not
  return, not even when the stop condition is posted.
\<close>

theorem win_execute_hangs:
  assumes "port_laws os (m_completionPort s) queue" and "m_completionPort s \<noteq> 0"
    and "queue (wworld s) = Completed k # rest" and "k \<noteq> WSA_INVALID_EVENT" and "map_of (m_handlers s) k = Some h"
    and "\<forall>s. map_of (m_handlers s) k = Some h \<longrightarrow>
      (\<exists>r s'. run h s = (Ret r, s') \<and> 0 < r \<and> map_of (m_handlers s') k = None)"
  shows "win_execute os run s = None"
proof -
  obtain s1 where s1: "wsys (io_get_status os (m_completionPort s)) s = (Completed k, s1)" "m_handlers s1 = m_handlers s"
    using port_lawsD(1) [OF assms(1,3)] by (metis wsys_simps(1,5) prod.collapse)
  then have h: "map_of (m_handlers s1) k = Some h" using assms(5) by simp
  then obtain r s2 where "run h s1 = (Ret r, s2)" "0 < r" "map_of (m_handlers s2) k = None"
    using assms(6) by blast
  then have "win_dispatch run k 0 s1 = None"
    using h win_dispatch_spins [of s2 k r run] by (simp add: win_dispatch.simps [of run k 0 s1])
  then show ?thesis using s1(1) assms(2,4) by (simp add: win_execute_def win_loop.simps [of os run s])
qed

theorem win_execute_hangs_witness:
  "win_execute demo_iocp demo_run (demo_port_loop [Completed 40, Completed 0]) = None"
proof (rule win_execute_hangs [OF demo_port_laws])
  show "\<forall>s. map_of (m_handlers s) 40 = Some 0 \<longrightarrow>
      (\<exists>r s'. demo_run 0 s = (Ret r, s') \<and> 0 < r \<and> map_of (m_handlers s') 40 = None)"
    by (simp add: demo_run_def delete_conv')
qed (simp_all add: demo_port_loop_def WSA_INVALID_EVENT_def)

text \<open>
  Completions of a newly associated file call the handler registered with it when the event handle fits
  into 32 bits. Otherwise they carry a cut key, and call whatever is registered under that.
\<close>

theorem win_addEvent_reaches:
  assumes "associate_laws os (m_completionPort s) key_of" and "fileHandle fd \<noteq> INVALID_HANDLE_VALUE"
    and "key_of (wworld s) (fileHandle fd) = None" and "win_addEvent os fd (Some h) s = (0, s')"
  shows "\<exists>k. key_of (wworld s') (fileHandle fd) = Some k \<and>
    called (m_handlers s') (Completed k) =
      (if unat (hEvent fd) < 2 ^ 32 then [h] else called (m_handlers s) (Completed k))"
proof -
  obtain x w where x: "io_associate os (fileHandle fd) (m_completionPort s) (completion_key (hEvent fd)) (wworld s) = (x, w)"
    by fastforce
  then have law: "case x of Inr _ \<Rightarrow> key_of w = (key_of (wworld s))(fileHandle fd \<mapsto> completion_key (hEvent fd))
      | Inl e \<Rightarrow> key_of w = key_of (wworld s) \<and> (e = ERROR_INVALID_PARAMETER \<longleftrightarrow> key_of (wworld s) (fileHandle fd) \<noteq> None)"
    using spec [OF spec [OF spec [OF assms(1) [unfolded associate_laws_def], of "fileHandle fd"],
      of "completion_key (hEvent fd)"], of "wworld s"] by (cases x) simp_all
  have hs: "map_of (m_handlers s') = (map_of (m_handlers s))(hEvent fd \<mapsto> h)"
    using win_addEvent_handlers(1) [of os fd h s] assms(4) by simp
  have "isl x \<Longrightarrow> False"
    using assms(2-4) x law by (cases x) (auto simp: win_addEvent_def wsys_def Let_def split_beta)
  then obtain u where u: "x = Inr u" by (cases x) auto
  then have "wworld s' = w" using assms(2,4) x by (auto simp: win_addEvent_def wsys_def Let_def)
  then have "key_of (wworld s') (fileHandle fd) = Some (completion_key (hEvent fd))" using law u by simp
  moreover have "completion_key (hEvent fd) = hEvent fd \<longleftrightarrow> unat (hEvent fd) < 2 ^ 32" by (rule completion_key_id)
  ultimately show ?thesis using hs by auto
qed

theorem win_addEvent_reaches_witness:
  "\<exists>k. pw_keys (wworld (snd (win_addEvent demo_iocp
       \<lparr>completionPort = 7, overlapped = \<lparr>ov_Internal = 0, ov_InternalHigh = 0, ov_hEvent = 60\<rparr>, fileHandle = 100\<rparr>
       (Some 5) (demo_port_loop [])))) = [(100, k)] \<and>
     called (m_handlers (snd (win_addEvent demo_iocp
       \<lparr>completionPort = 7, overlapped = \<lparr>ov_Internal = 0, ov_InternalHigh = 0, ov_hEvent = 60\<rparr>, fileHandle = 100\<rparr>
       (Some 5) (demo_port_loop [])))) (Completed k) = [5]"
proof -
  let ?fd = "\<lparr>completionPort = 7, overlapped = \<lparr>ov_Internal = 0, ov_InternalHigh = 0, ov_hEvent = 60\<rparr>, fileHandle = 100\<rparr>"
  obtain s' where s': "win_addEvent demo_iocp ?fd (Some 5) (demo_port_loop []) = (0, s')"
      "pw_keys (wworld s') = [(100, completion_key 60)]"
    by (simp add: win_addEvent_def wsys_def demo_iocp_def demo_port_loop_def INVALID_HANDLE_VALUE_def Let_def)
  have "\<exists>k. map_of (pw_keys (wworld s')) (fileHandle ?fd) = Some k \<and> called (m_handlers s') (Completed k) =
      (if unat (hEvent ?fd) < 2 ^ 32 then [5] else called (m_handlers (demo_port_loop [])) (Completed k))"
    by (rule win_addEvent_reaches [OF demo_associate_laws _ _ s'(1)])
      (simp_all add: demo_port_loop_def INVALID_HANDLE_VALUE_def)
  then show ?thesis using s' by simp
qed

end
