(* ===== verification/WinTimerNotifier.thy ===== *)
theory WinTimerNotifier
  imports WinEventLoopBehaviour
begin

text \<open>
  \<open>lib/sys/windows/timer.cpp\<close> and \<open>lib/sys/windows/notifier.cpp\<close>: a timer of the timer queue and a notifier, which post
  completions to the port of the event loop. The objects live in the world of the loop; \<open>user c\<close> runs a callback of the user.
\<close>

section \<open>Timer\<close>

text \<open>\<open>wt_create period repeat\<close> is \<open>CreateTimerQueueTimer\<close>, with the new handle on success.\<close>

record 'w win_timer_os =
  wt_create :: "32 word \<Rightarrow> 32 word \<Rightarrow> 'w \<Rightarrow> handle option \<times> 'w"
  wt_delete :: "handle \<Rightarrow> 'w \<Rightarrow> bool \<times> 'w"

record 'c WinTimer =
  wtimer_fd :: win_event
  wtimer_handler :: "'c callback"

type_synonym ('c, 'h, 'w) win_timer_cb = "'c \<Rightarrow> bool \<Rightarrow> ('h, 'w) WinEventLoop \<Rightarrow> outcome \<times> ('h, 'w) WinEventLoop"

definition win_Timer_ctor :: "handle \<Rightarrow> 'c WinTimer" where
  "win_Timer_ctor completion_port =
     \<lparr>wtimer_fd = win_event_ctor\<lparr>completionPort := completion_port\<rparr>, wtimer_handler = NoFunction\<rparr>"

text \<open>The callback the timer queue runs when the timer fires.\<close>

definition timerCb :: "'w iocp_os \<Rightarrow> win_event \<Rightarrow> bool \<Rightarrow> 'w \<Rightarrow> 'w" where
  "timerCb os pEvent fired w =
     (if fired then snd (io_post os (completionPort pEvent) (hEvent pEvent) w) else w)"

definition set_hEvent :: "handle \<Rightarrow> win_event \<Rightarrow> win_event" where
  "set_hEvent h fd = fd\<lparr>overlapped := (overlapped fd)\<lparr>ov_hEvent := h\<rparr>\<rparr>"

text \<open>Deleting a running timer of the queue, in \<open>set\<close> and \<open>cancel\<close>.\<close>

definition delete_timer :: "'w win_timer_os \<Rightarrow> ('w, 'c WinTimer) ref \<Rightarrow> ('h, 'w) WinEventLoop \<Rightarrow>
    ('h, 'w) WinEventLoop" where
  "delete_timer tos this s =
     (if hEvent (wtimer_fd (wobj this s)) \<noteq> 0
      then (let (_, s) = wsys (wt_delete tos (hEvent (wtimer_fd (wobj this s)))) s
            in wset this ((wobj this s)\<lparr>wtimer_fd := set_hEvent 0 (wtimer_fd (wobj this s))\<rparr>) s)
      else s)"

definition win_Timer_dtor :: "'w win_timer_os \<Rightarrow> ('w, 'c WinTimer) ref \<Rightarrow> ('h, 'w) WinEventLoop \<Rightarrow>
    ('h, 'w) WinEventLoop" where
  "win_Timer_dtor tos this s =
     (let (_, s) = win_eraseEvent (wtimer_fd (wobj this s)) s in
      if hEvent (wtimer_fd (wobj this s)) \<noteq> 0
      then snd (wsys (wt_delete tos (hEvent (wtimer_fd (wobj this s)))) s) else s)"

text \<open>\<open>h\<close> is the handler that \<open>std::bind(&Timer::process, std::ref(*this))\<close> makes.\<close>

definition win_Timer_set :: "'w iocp_os \<Rightarrow> 'w win_timer_os \<Rightarrow> 'h \<Rightarrow> 32 word \<Rightarrow> bool \<Rightarrow> 'c callback \<Rightarrow>
    ('w, 'c WinTimer) ref \<Rightarrow> ('h, 'w) WinEventLoop \<Rightarrow> int \<times> ('h, 'w) WinEventLoop" where
  "win_Timer_set os tos h period_ms repeated eventHandler this s =
     (let (_, s) = win_eraseEvent (wtimer_fd (wobj this s)) s;
          s = delete_timer tos this s;
          repeatPeriod = (if repeated then period_ms else 0);
          s = wset this ((wobj this s)\<lparr>wtimer_handler := eventHandler\<rparr>) s in
      case wsys (wt_create tos period_ms repeatPeriod) s of
        (Some timer, s) \<Rightarrow>
          (let s = wset this ((wobj this s)\<lparr>wtimer_fd := set_hEvent timer (wtimer_fd (wobj this s))\<rparr>) s
           in win_addEvent os (wtimer_fd (wobj this s)) (Some h) s)
      | (None, s) \<Rightarrow> (- 1, s))"

definition win_Timer_set_chrono :: "'w iocp_os \<Rightarrow> 'w win_timer_os \<Rightarrow> 'h \<Rightarrow> 64 word \<Rightarrow> bool \<Rightarrow> 'c callback \<Rightarrow>
    ('w, 'c WinTimer) ref \<Rightarrow> ('h, 'w) WinEventLoop \<Rightarrow> int \<times> ('h, 'w) WinEventLoop" where
  "win_Timer_set_chrono os tos h period repeated eventHandler this s =
     win_Timer_set os tos h (ucast period) repeated eventHandler this s"

definition call_timer :: "('c, 'h, 'w) win_timer_cb \<Rightarrow> bool \<Rightarrow> ('w, 'c WinTimer) ref \<Rightarrow> ('h, 'w) WinEventLoop \<Rightarrow>
    outcome \<times> ('h, 'w) WinEventLoop" where
  "call_timer user fired this s =
     (if wtimer_handler (wobj this s) \<noteq> NoFunction
      then (case invoke (\<lambda>c. user c fired) (wtimer_handler (wobj this s)) s of
              (Throw ex, s) \<Rightarrow> (Throw ex, s)
            | (Ret _, s) \<Rightarrow> (Ret 0, s))
      else (Ret 0, s))"

definition win_Timer_process :: "('c, 'h, 'w) win_timer_cb \<Rightarrow> ('w, 'c WinTimer) ref \<Rightarrow> ('h, 'w) WinEventLoop \<Rightarrow>
    outcome \<times> ('h, 'w) WinEventLoop" where
  "win_Timer_process user this s = call_timer user True this s"

definition win_Timer_cancel :: "'w win_timer_os \<Rightarrow> ('c, 'h, 'w) win_timer_cb \<Rightarrow> ('w, 'c WinTimer) ref \<Rightarrow>
    ('h, 'w) WinEventLoop \<Rightarrow> outcome \<times> ('h, 'w) WinEventLoop" where
  "win_Timer_cancel tos user this s =
     (let (_, s) = win_eraseEvent (wtimer_fd (wobj this s)) s;
          s = delete_timer tos this s in call_timer user False this s)"

section \<open>Notifier\<close>

text \<open>\<open>wn_create_event\<close> is \<open>CreateEvent\<close>, \<open>wn_close\<close> closes its handle.\<close>

record 'w win_notifier_os =
  wn_create_event :: "'w \<Rightarrow> handle \<times> 'w"
  wn_close :: "handle \<Rightarrow> 'w \<Rightarrow> bool \<times> 'w"

record 'c WinNotifier =
  wnotifier_fd :: win_event
  wnotifier_handler :: "'c callback"

type_synonym ('c, 'h, 'w) win_notifier_cb = "'c \<Rightarrow> ('h, 'w) WinEventLoop \<Rightarrow> outcome \<times> ('h, 'w) WinEventLoop"

definition win_Notifier_ctor :: "'w iocp_os \<Rightarrow> 'w win_notifier_os \<Rightarrow> 'h \<Rightarrow> ('w, 'c WinNotifier) ref \<Rightarrow>
    ('h, 'w) WinEventLoop \<Rightarrow> ('h, 'w) WinEventLoop" where
  "win_Notifier_ctor os nos h this s =
     (let fd = win_event_ctor\<lparr>completionPort := m_completionPort s\<rparr>;
          (event, s) = wsys (wn_create_event nos) s;
          s = wset this \<lparr>wnotifier_fd = set_hEvent event fd, wnotifier_handler = NoFunction\<rparr> s
      in snd (win_addEvent os (wnotifier_fd (wobj this s)) (Some h) s))"

definition win_Notifier_dtor :: "'w win_notifier_os \<Rightarrow> ('w, 'c WinNotifier) ref \<Rightarrow> ('h, 'w) WinEventLoop \<Rightarrow>
    ('h, 'w) WinEventLoop" where
  "win_Notifier_dtor nos this s =
     (let (_, s) = win_eraseEvent (wnotifier_fd (wobj this s)) s
      in snd (wsys (wn_close nos (hEvent (wnotifier_fd (wobj this s)))) s))"

definition win_Notifier_notify :: "'w iocp_os \<Rightarrow> ('w, 'c WinNotifier) ref \<Rightarrow> ('h, 'w) WinEventLoop \<Rightarrow>
    int \<times> ('h, 'w) WinEventLoop" where
  "win_Notifier_notify os this s =
     (let fd = wnotifier_fd (wobj this s) in
      case wsys (io_post os (completionPort fd) (hEvent fd)) s of
        (posted, s) \<Rightarrow> if posted then (0, s) else (- 1, s))"

definition win_Notifier_process :: "('c, 'h, 'w) win_notifier_cb \<Rightarrow> ('w, 'c WinNotifier) ref \<Rightarrow>
    ('h, 'w) WinEventLoop \<Rightarrow> outcome \<times> ('h, 'w) WinEventLoop" where
  "win_Notifier_process user this s =
     (if wnotifier_handler (wobj this s) \<noteq> NoFunction
      then (case invoke user (wnotifier_handler (wobj this s)) s of
              (Throw ex, s) \<Rightarrow> (Throw ex, s)
            | (Ret _, s) \<Rightarrow> (Ret 0, s))
      else (Ret 0, s))"

definition win_Notifier_set :: "'c callback \<Rightarrow> ('w, 'c WinNotifier) ref \<Rightarrow> ('h, 'w) WinEventLoop \<Rightarrow>
    int \<times> ('h, 'w) WinEventLoop" where
  "win_Notifier_set eventHandler this s = (0, wset this ((wobj this s)\<lparr>wnotifier_handler := eventHandler\<rparr>) s)"

section \<open>Cancelling a timer\<close>

definition win_timer_frame :: "'w win_timer_os \<Rightarrow> ('w, 'c WinTimer) ref \<Rightarrow> bool" where
  "win_timer_frame tos this \<longleftrightarrow> ref_laws this \<and> (\<forall>h. keeps this (wt_delete tos h)) \<and>
     (\<forall>p r. keeps this (wt_create tos p r))"

lemma hEvent_set [simp]: "hEvent (set_hEvent h fd) = h" "fileHandle (set_hEvent h fd) = fileHandle fd"
  by (simp_all add: set_hEvent_def)

lemma delete_timer_obj:
  assumes "win_timer_frame tos this"
  shows "wobj this (delete_timer tos this s) =
      (wobj this s)\<lparr>wtimer_fd := (if hEvent (wtimer_fd (wobj this s)) \<noteq> 0
         then set_hEvent 0 (wtimer_fd (wobj this s)) else wtimer_fd (wobj this s))\<rparr>"
    and "m_handlers (delete_timer tos this s) = m_handlers s"
    and "m_completionPort (delete_timer tos this s) = m_completionPort s"
proof -
  have laws: "ref_laws this" "keeps this (wt_delete tos h)" for h
    using assms by (simp_all add: win_timer_frame_def)
  show "m_handlers (delete_timer tos this s) = m_handlers s"
      "m_completionPort (delete_timer tos this s) = m_completionPort s"
    by (simp_all add: delete_timer_def split_beta)
  show "wobj this (delete_timer tos this s) =
      (wobj this s)\<lparr>wtimer_fd := (if hEvent (wtimer_fd (wobj this s)) \<noteq> 0
         then set_hEvent 0 (wtimer_fd (wobj this s)) else wtimer_fd (wobj this s))\<rparr>"
    by (simp add: delete_timer_def split_beta wobj_wset [OF laws(1)] wobj_wsys [OF laws(2)])
qed

text \<open>What \<open>cancel\<close> has done when it calls the user: the handler is erased, the handle of the timer reset.\<close>

lemma win_Timer_cancel_state:
  assumes "win_timer_frame tos this"
  shows "\<exists>s1. win_Timer_cancel tos user this s = call_timer user False this s1 \<and>
    map_of (m_handlers s1) = (map_of (m_handlers s))(hEvent (wtimer_fd (wobj this s)) := None) \<and>
    hEvent (wtimer_fd (wobj this s1)) = 0 \<and> wtimer_handler (wobj this s1) = wtimer_handler (wobj this s) \<and>
    fileHandle (wtimer_fd (wobj this s1)) = fileHandle (wtimer_fd (wobj this s))"
proof -
  let ?s1 = "delete_timer tos this (snd (win_eraseEvent (wtimer_fd (wobj this s)) s))"
  have "wobj this (snd (win_eraseEvent (wtimer_fd (wobj this s)) s)) = wobj this s" by (simp add: wobj_def)
  moreover have "win_Timer_cancel tos user this s = call_timer user False this ?s1"
    by (simp add: win_Timer_cancel_def split_beta)
  ultimately show ?thesis by (intro exI [of _ ?s1]) (simp add: delete_timer_obj [OF assms])
qed

text \<open>Setting a timer registers its handler under the new handle only.\<close>

lemma win_Timer_set_state:
  assumes "win_timer_frame tos this" and "fileHandle (wtimer_fd (wobj this s)) = INVALID_HANDLE_VALUE"
    and "\<forall>w. fst (wt_create tos p (if rep then p else 0) w) = Some t"
  shows "\<exists>s'. win_Timer_set os tos h p rep cb this s = (0, s') \<and> hEvent (wtimer_fd (wobj this s')) = t \<and>
    wtimer_handler (wobj this s') = cb \<and>
    map_of (m_handlers s') = (map_of (m_handlers s))(hEvent (wtimer_fd (wobj this s)) := None, t \<mapsto> h)"
proof -
  have laws: "ref_laws this" "keeps this (wt_create tos p r)" for r
    using assms(1) by (simp_all add: win_timer_frame_def)
  let ?s1 = "delete_timer tos this (snd (win_eraseEvent (wtimer_fd (wobj this s)) s))"
  have e: "wobj this (snd (win_eraseEvent (wtimer_fd (wobj this s)) s)) = wobj this s" by (simp add: wobj_def)
  let ?s2 = "wset this ((wobj this ?s1)\<lparr>wtimer_handler := cb\<rparr>) ?s1"
  define q where "q = (if rep then p else 0)"
  have "fst (wsys (wt_create tos p q) ?s2) = Some t"
    unfolding wsys_simps(5) q_def by (rule assms(3) [rule_format])
  then obtain s3 where s3: "wsys (wt_create tos p q) ?s2 = (Some t, s3)"
    by (cases "wsys (wt_create tos p q) ?s2") simp
  then have o3: "wobj this s3 = (wobj this ?s1)\<lparr>wtimer_handler := cb\<rparr>" "m_handlers s3 = m_handlers ?s1"
    using wobj_wsys [OF laws(2), of q ?s2] wsys_simps(1) [of "wt_create tos p q" ?s2]
    by (simp_all add: wobj_wset [OF laws(1)])
  let ?s4 = "wset this ((wobj this s3)\<lparr>wtimer_fd := set_hEvent t (wtimer_fd (wobj this s3))\<rparr>) s3"
  have "win_Timer_set os tos h p rep cb this s = win_addEvent os (wtimer_fd (wobj this ?s4)) (Some h) ?s4"
    using s3 by (simp add: win_Timer_set_def split_beta Let_def q_def [symmetric] del: wsys_simps(5))
  also have "\<dots> = (0, ?s4\<lparr>m_handlers := AList.update t h (m_handlers ?s4)\<rparr>)"
    using assms(2) by (simp add: win_addEvent_def wobj_wset [OF laws(1)] o3 delete_timer_obj [OF assms(1)] e)
  finally show ?thesis
    by (auto simp: wobj_wset [OF laws(1)] o3 delete_timer_obj [OF assms(1)] update_conv')
      (simp_all add: wobj_def wset_def laws(1) [unfolded ref_laws_def] o3 [unfolded wobj_def])
qed

text \<open>The callback is called although no timer is running, contrary to the header.\<close>

lemma win_Timer_cancel_idle:
  assumes "win_timer_frame tos this" and "hEvent (wtimer_fd (wobj this s)) = 0" and "wtimer_handler (wobj this s) = User c"
  shows "\<exists>s1. wworld s1 = wworld s \<and> win_Timer_cancel tos user this s =
    (case user c False s1 of (Throw ex, s) \<Rightarrow> (Throw ex, s) | (Ret _, s) \<Rightarrow> (Ret 0, s))"
proof -
  let ?s1 = "snd (win_eraseEvent (wtimer_fd (wobj this s)) s)"
  have "wobj this ?s1 = wobj this s" by (simp add: wobj_def)
  then have "win_Timer_cancel tos user this s =
      (case user c False ?s1 of (Throw ex, s) \<Rightarrow> (Throw ex, s) | (Ret _, s) \<Rightarrow> (Ret 0, s))"
    using assms(2,3) by (simp add: win_Timer_cancel_def delete_timer_def call_timer_def invoke_def split_beta Let_def)
  then show ?thesis by (intro exI [of _ ?s1]) simp
qed

section \<open>Counting notifications\<close>

fun win_notify_times :: "'w iocp_os \<Rightarrow> ('w, 'c WinNotifier) ref \<Rightarrow> nat \<Rightarrow> ('h, 'w) WinEventLoop \<Rightarrow>
    ('h, 'w) WinEventLoop" where
  "win_notify_times os this 0 s = s"
| "win_notify_times os this (Suc n) s = win_notify_times os this n (snd (win_Notifier_notify os this s))"

text \<open>
  The environment: posting succeeds, the port leaves the notifier and the counter of the user's callback \<open>c\<close> alone; the
  callback counts, may post, and changes neither the registrations nor the notifier.
\<close>

definition win_notifier_env :: "'w iocp_os \<Rightarrow> ('w, 'c WinNotifier) ref \<Rightarrow> ('c, 'h, 'w) win_notifier_cb \<Rightarrow> 'c \<Rightarrow>
    ('w \<Rightarrow> completion list) \<Rightarrow> ('w \<Rightarrow> nat) \<Rightarrow> bool" where
  "win_notifier_env os this user c queue count \<longleftrightarrow>
     (\<forall>port. port_laws os port queue) \<and>
     (\<forall>port key w. fst (io_post os port key w) \<and> deref this (snd (io_post os port key w)) = deref this w \<and>
        count (snd (io_post os port key w)) = count w) \<and>
     (\<forall>port w. deref this (snd (io_get_status os port w)) = deref this w \<and>
        count (snd (io_get_status os port w)) = count w) \<and>
     (\<forall>log t w. deref this (snd (io_report os log t w)) = deref this w \<and>
        count (snd (io_report os log t w)) = count w) \<and>
     (\<forall>s. \<exists>r s' xs. user c s = (Ret r, s') \<and> wobj this s' = wobj this s \<and> count (wworld s') = Suc (count (wworld s)) \<and>
        queue (wworld s') = queue (wworld s) @ xs \<and> m_handlers s' = m_handlers s \<and>
        m_completionPort s' = m_completionPort s)"

lemma win_notify_posts:
  assumes "win_notifier_env os this user c queue count"
  shows "queue (wworld (win_notify_times os this n s)) =
      queue (wworld s) @ replicate n (Completed (hEvent (wnotifier_fd (wobj this s)))) \<and>
    wobj this (win_notify_times os this n s) = wobj this s \<and>
    count (wworld (win_notify_times os this n s)) = count (wworld s) \<and>
    m_handlers (win_notify_times os this n s) = m_handlers s \<and>
    m_completionPort (win_notify_times os this n s) = m_completionPort s"
proof (induction n arbitrary: s)
  case (Suc n)
  let ?s = "snd (win_Notifier_notify os this s)"
  have post: "fst (io_post os port key w)" "deref this (snd (io_post os port key w)) = deref this w"
      "count (snd (io_post os port key w)) = count w"
      "queue (snd (io_post os port key w)) = queue w @ [Completed key]" for port key w
    using assms port_lawsD(2) [of os port queue key w] by (simp_all add: win_notifier_env_def)
  have "?s = snd (wsys (io_post os (completionPort (wnotifier_fd (wobj this s))) (hEvent (wnotifier_fd (wobj this s)))) s)"
    by (simp add: win_Notifier_notify_def Let_def split_beta)
  then have "wworld ?s = snd (io_post os (completionPort (wnotifier_fd (wobj this s)))
        (hEvent (wnotifier_fd (wobj this s))) (wworld s))" "m_handlers ?s = m_handlers s"
      "m_completionPort ?s = m_completionPort s" by simp_all
  then show ?case using Suc [of ?s] by (simp add: wobj_def post)
qed simp

lemma win_notifier_quiet:
  assumes "win_notifier_env os this user c queue count" and "\<forall>s. run h s = win_Notifier_process user this s"
  shows "quiet_handlers os run {h} (\<lambda>w. wnotifier_handler (deref this w) = User c) (\<lambda>_. 0) queue
    (\<lambda>w. replicate (count w) (h, 0))"
proof -
  have "\<exists>r s' xs. run h s = (Ret r, s') \<and> (0 < r \<longrightarrow> (0 :: nat) < 0) \<and>
      replicate (count (wworld s')) (h, 0) = replicate (count (wworld s)) (h, 0) @ [(h, r)] \<and>
      queue (wworld s') = queue (wworld s) @ xs \<and> m_handlers s' = m_handlers s \<and>
      m_completionPort s' = m_completionPort s \<and> wnotifier_handler (deref this (wworld s')) = User c"
    if "wnotifier_handler (deref this (wworld s)) = User c" for s
  proof -
    obtain r s' xs where u: "user c s = (Ret r, s')" "wobj this s' = wobj this s"
        "count (wworld s') = Suc (count (wworld s))" "queue (wworld s') = queue (wworld s) @ xs"
        "m_handlers s' = m_handlers s" "m_completionPort s' = m_completionPort s"
      using assms(1) unfolding win_notifier_env_def by metis
    then have "run h s = (Ret 0, s')"
      using assms(2) that by (simp add: win_Notifier_process_def wobj_def invoke_def)
    then show ?thesis using u that by (auto simp: wobj_def replicate_append_same)
  qed
  then show ?thesis using assms(1) by (auto simp: quiet_handlers_def win_notifier_env_def)
qed

text \<open>A handler that returns 0 is called once for each completion.\<close>

lemma served_once:
  "set (concat logs) \<subseteq> {(h, 0)} \<Longrightarrow> list_all2 (served [(e, h)]) (replicate n (Completed e)) logs \<Longrightarrow>
     length (concat logs) = n"
proof (induction n arbitrary: logs)
  case (Suc n)
  then obtain log logs' where l: "logs = log # logs'" "served [(e, h)] (Completed e) log"
      "list_all2 (served [(e, h)]) (replicate n (Completed e)) logs'" by (auto simp: list_all2_Cons1)
  then obtain rs where rs: "log = map (Pair h) rs" "until_done rs" by (auto simp: served_def)
  moreover have "\<forall>r \<in> set rs. r = 0" using Suc.prems(1) l(1) rs(1) by auto
  ultimately have "length rs = 1" by (cases rs rule: rev_cases; cases "butlast rs") (auto simp: until_done_def)
  then show ?case using Suc.IH [OF _ l(3)] Suc.prems(1) l(1) rs(1) by simp
qed simp

section \<open>A concrete notifier and timer\<close>

record client_world =
  cw_port :: port_world
  cw_notifier :: "unit WinNotifier"
  cw_timer :: "unit WinTimer"
  cw_count :: nat

definition lift_port :: "(port_world \<Rightarrow> 'a \<times> port_world) \<Rightarrow> client_world \<Rightarrow> 'a \<times> client_world" where
  "lift_port call w = (case call (cw_port w) of (x, p) \<Rightarrow> (x, w\<lparr>cw_port := p\<rparr>))"

definition client_iocp :: "client_world iocp_os" where
  "client_iocp = \<lparr>io_create_port = lift_port (io_create_port demo_iocp),
     io_register_source = lift_port (io_register_source demo_iocp),
     io_deregister_source = (\<lambda>h. lift_port (io_deregister_source demo_iocp h)),
     io_close_handle = (\<lambda>h. lift_port (io_close_handle demo_iocp h)),
     io_associate = (\<lambda>f p k. lift_port (io_associate demo_iocp f p k)),
     io_get_status = (\<lambda>p. lift_port (io_get_status demo_iocp p)),
     io_post = (\<lambda>p k. lift_port (io_post demo_iocp p k)),
     io_report = (\<lambda>l t. lift_port (io_report demo_iocp l t))\<rparr>"

definition the_notifier :: "(client_world, unit WinNotifier) ref" where
  "the_notifier = \<lparr>deref = cw_notifier, assign = (\<lambda>n. cw_notifier_update (\<lambda>_. n))\<rparr>"

definition the_timer :: "(client_world, unit WinTimer) ref" where
  "the_timer = \<lparr>deref = cw_timer, assign = (\<lambda>t. cw_timer_update (\<lambda>_. t))\<rparr>"

definition count_cb :: "(unit, nat, client_world) win_notifier_cb" where
  "count_cb c s = (Ret 0, s\<lparr>wworld := (wworld s)\<lparr>cw_count := Suc (cw_count (wworld s))\<rparr>\<rparr>)"

definition event_of :: "handle \<Rightarrow> win_event" where
  "event_of h = set_hEvent h (win_event_ctor\<lparr>completionPort := 7\<rparr>)"

definition client_loop :: "(nat, client_world) WinEventLoop" where
  "client_loop = \<lparr>m_completionPort = 7, m_hEventLog = 8, m_handlers = [(44, 1)],
     wworld = \<lparr>cw_port = \<lparr>pw_queue = [], pw_calls = [], pw_keys = [], pw_work = 0\<rparr>,
       cw_notifier = \<lparr>wnotifier_fd = event_of 44, wnotifier_handler = User ()\<rparr>,
       cw_timer = \<lparr>wtimer_fd = event_of 44, wtimer_handler = User ()\<rparr>, cw_count = 0\<rparr>\<rparr>"

definition demo_win_timer_os :: "client_world win_timer_os" where
  "demo_win_timer_os = \<lparr>wt_create = (\<lambda>p r w. (Some 48, w)), wt_delete = (\<lambda>h w. (True, w))\<rparr>"

lemma the_timer_frame: "win_timer_frame demo_win_timer_os the_timer"
  by (simp add: win_timer_frame_def ref_laws_def keeps_def the_timer_def demo_win_timer_os_def)

lemma count_cb_env:
  "win_notifier_env client_iocp the_notifier count_cb () (\<lambda>w. pw_queue (cw_port w)) cw_count"
  by (auto simp: win_notifier_env_def port_laws_def client_iocp_def demo_iocp_def lift_port_def the_notifier_def
      count_cb_def wobj_def)

section \<open>Properties\<close>

text \<open>
  N notifications of an idle notifier execute its callback exactly n times before the event loop stops, whatever
  else the callback posts.
\<close>

theorem win_Notifier_counts:
  assumes "win_notifier_env os this user c queue count" and "\<forall>s. run h s = win_Notifier_process user this s"
    and "hEvent (wnotifier_fd (wobj this s)) = e" and "e \<noteq> WSA_INVALID_EVENT" and "m_handlers s = [(e, h)]"
    and "wnotifier_handler (wobj this s) = User c" and "queue (wworld s) = []" and "m_completionPort s \<noteq> 0"
  shows "\<exists>s'. win_execute os run (win_stop os (win_notify_times os this n s)) = Some (Ret 0, s') \<and>
    count (wworld s') = count (wworld s) + n"
proof -
  let ?s = "win_stop os (win_notify_times os this n s)"
  note quiet = win_notifier_quiet [where h = h and run = run, OF assms(1,2)]
  note posts = win_notify_posts [OF assms(1), of n s]
  have port: "port_laws os port queue" "fst (io_post os port key w)"
      "deref this (snd (io_post os port key w)) = deref this w" "count (snd (io_post os port key w)) = count w" for port key w
    using assms(1) by (simp_all add: win_notifier_env_def)
  have st: "queue (wworld ?s) = replicate n (Completed e) @ Completed WSA_INVALID_EVENT # []"
      "m_handlers ?s = [(e, h)]" "m_completionPort ?s \<noteq> 0" "wnotifier_handler (deref this (wworld ?s)) = User c"
      "count (wworld ?s) = count (wworld s)"
    using posts assms(3,5-8) by (simp_all add: win_stop_def port port_lawsD(2) [OF port(1)] wobj_def)
  obtain s' logs where s': "win_loop os run ?s = Some (Ret 0, s')"
      "list_all2 (served [(e, h)]) (replicate n (Completed e)) logs"
      "replicate (count (wworld s')) (h, 0) = replicate (count (wworld s)) (h, 0) @ concat logs"
    using win_loop_calls [OF quiet _ _ port(1) st(1) _ st(4)] assms(4) st(2,5) by auto
  have "set (concat logs) \<subseteq> {(h, 0)}" by (metis s'(3) set_replicate_conv_if set_append Un_subset_iff subset_refl empty_subsetI)
  then have "length (concat logs) = n" using s'(2) by (rule served_once)
  then have "count (wworld s') = count (wworld s) + n" using arg_cong [OF s'(3), of length] by simp
  moreover have "win_execute os run ?s = Some (Ret 0, s')" using s'(1) st(3) by (simp add: win_execute_def)
  ultimately show ?thesis by blast
qed

theorem win_Notifier_counts_witness:
  "\<exists>s'. win_execute client_iocp (\<lambda>h. win_Notifier_process count_cb the_notifier)
     (win_stop client_iocp (win_notify_times client_iocp the_notifier 3 client_loop)) = Some (Ret 0, s') \<and>
     cw_count (wworld s') = 3"
proof -
  have "\<exists>s'. win_execute client_iocp (\<lambda>h. win_Notifier_process count_cb the_notifier)
     (win_stop client_iocp (win_notify_times client_iocp the_notifier 3 client_loop)) = Some (Ret 0, s') \<and>
     cw_count (wworld s') = cw_count (wworld client_loop) + 3"
    by (rule win_Notifier_counts [OF count_cb_env, where e = 44 and h = 1])
      (simp_all add: client_loop_def wobj_def the_notifier_def event_of_def WSA_INVALID_EVENT_def)
  then show ?thesis by (simp add: client_loop_def)
qed

text \<open>
  Once \<open>cancel\<close> calls the user, the timer does not fire any more: its handler is erased, so that a completion
  posted before, dispatched later, calls nothing. A timer set in the callback keeps running, unlike on Linux.
\<close>

theorem win_Timer_cancel_silences:
  assumes "win_timer_frame tos this" and "hEvent (wtimer_fd (wobj this s)) = t"
    and "fileHandle (wtimer_fd (wobj this s)) = INVALID_HANDLE_VALUE" and "wtimer_handler (wobj this s) = User c"
    and "\<forall>s. user c False s = (case win_Timer_set os tos h p rep (User c) this s of (r, s) \<Rightarrow> (Ret r, s))"
    and "\<forall>w. fst (wt_create tos p (if rep then p else 0) w) = Some t'" and "t' \<noteq> t"
  shows "\<exists>s'. win_Timer_cancel tos user this s = (Ret 0, s') \<and> win_dispatch run t 0 s' = Some (Ret 0, s') \<and>
    hEvent (wtimer_fd (wobj this s')) = t' \<and> map_of (m_handlers s') t' = Some h"
proof -
  obtain s1 where s1: "win_Timer_cancel tos user this s = call_timer user False this s1"
      "map_of (m_handlers s1) = (map_of (m_handlers s))(t := None)"
      "wtimer_handler (wobj this s1) = User c" "fileHandle (wtimer_fd (wobj this s1)) = INVALID_HANDLE_VALUE"
    using win_Timer_cancel_state [OF assms(1), of user s] assms(2-4) by auto
  obtain s2 where s2: "win_Timer_set os tos h p rep (User c) this s1 = (0, s2)" "hEvent (wtimer_fd (wobj this s2)) = t'"
      "map_of (m_handlers s2) = (map_of (m_handlers s1))(hEvent (wtimer_fd (wobj this s1)) := None, t' \<mapsto> h)"
    using win_Timer_set_state [OF assms(1) s1(4) assms(6)] by blast
  have "win_Timer_cancel tos user this s = (Ret 0, s2)"
    using s1 s2 assms(5) by (simp add: call_timer_def invoke_def)
  moreover have "map_of (m_handlers s2) t = None" using s1(2) s2(3) assms(7) by simp
  ultimately show ?thesis using s2 by (auto simp: win_dispatch_none)
qed

theorem win_Timer_cancel_silences_witness:
  "\<exists>s'. win_Timer_cancel demo_win_timer_os
     (\<lambda>c fired s. case win_Timer_set client_iocp demo_win_timer_os 2 10 True (User ()) the_timer s of (r, s) \<Rightarrow> (Ret r, s))
     the_timer client_loop = (Ret 0, s') \<and> win_dispatch (\<lambda>h. win_Notifier_process count_cb the_notifier) 44 0 s' = Some (Ret 0, s') \<and>
     hEvent (wtimer_fd (wobj the_timer s')) = 48 \<and> map_of (m_handlers s') 48 = Some 2"
  by (rule win_Timer_cancel_silences [where c = "()" and p = 10 and rep = True and os = client_iocp and tos = demo_win_timer_os, OF the_timer_frame])
    (simp_all add: client_loop_def wobj_def the_timer_def event_of_def demo_win_timer_os_def win_event_ctor_def)

end
