(* ===== verification/WinBufferedReader.thy ===== *)
theory WinBufferedReader
  imports WinEventLoop SocketIO
begin

text \<open>
  \<open>lib/communication/windows/bufferedreader.cpp\<close>: reading with read-ahead through \<open>WSARecv\<close>. When there is nothing to read,
  an overlapped receive of no bytes is ordered, whose completion wakes the event loop up; while it is pending, nothing is
  read. The class is the one of the Linux backend, and it keeps the contract of that: the same abstract reader.
\<close>

section \<open>The operation\<close>

definition STATUS_PENDING :: "64 word" where "STATUS_PENDING = 0x103"

definition WSA_IO_PENDING :: int where "WSA_IO_PENDING = 997"
definition WSAEINTR :: int where "WSAEINTR = 10004"
definition WSAEWOULDBLOCK :: int where "WSAEWOULDBLOCK = 10035"
definition WSAEINPROGRESS :: int where "WSAEINPROGRESS = 10036"

lemmas wsa_errors = WSA_IO_PENDING_def WSAEINTR_def WSAEWOULDBLOCK_def WSAEINPROGRESS_def

text \<open>
  \<open>wsa_recv socket n m\<close> is the receive into two areas of the lengths \<open>n\<close> and \<open>m\<close>; \<open>wsa_signal\<close> the overlapped receive of
  no bytes, which changes the \<open>OVERLAPPED\<close>. \<open>Inl\<close> is the error of \<open>WSAGetLastError\<close>.
\<close>

record 'w wsa_os =
  wsa_recv :: "handle \<Rightarrow> nat \<Rightarrow> nat \<Rightarrow> 'w \<Rightarrow> (int + bytes) \<times> 'w"
  wsa_signal :: "handle \<Rightarrow> overlapped \<Rightarrow> 'w \<Rightarrow> (int + unit) \<times> overlapped \<times> 'w"

text \<open>
  The result: -1 with the last error, the returned number with the bytes stored for the caller, or a number read from a
  variable without a value.
\<close>

datatype recv_result = RecvError int | Received int bytes | RecvUndefined

text \<open>A \<open>size_t\<close> through \<open>ULONG\<close> or \<open>DWORD\<close>.\<close>

definition to_ulong :: "nat \<Rightarrow> nat" where
  "to_ulong n = n mod 2 ^ 32"

text \<open>The evaluation of a successful receive: what did not fit into the caller's buffer stays in \<open>m_buffer\<close>.\<close>

definition take_received :: "nat \<Rightarrow> bytes \<Rightarrow> BufferedReader \<Rightarrow> recv_result \<times> BufferedReader" where
  "take_received desiredLen data self =
     (let self = self\<lparr>m_buffer := drop (to_ulong desiredLen) data @
                        drop (length data - to_ulong desiredLen) (m_buffer self)\<rparr> in
      if to_ulong desiredLen < length data
      then (Received (to_int32 desiredLen) (take (to_ulong desiredLen) data),
            self\<lparr>m_fillLevel := size_minus (length data) desiredLen\<rparr>)
      else (Received (to_int32 (length data)) data, self\<lparr>m_fillLevel := 0\<rparr>))"

definition win_recv :: "'w wsa_os \<Rightarrow> nat \<Rightarrow> win_event \<times> BufferedReader \<times> 'w \<Rightarrow>
    recv_result \<times> win_event \<times> BufferedReader \<times> 'w" where
  "win_recv wos desiredLen s =
     (let (ev, self, w) = s; bytesLeft = size_minus (m_fillLevel self) (m_alreadyRead self) in
      if desiredLen \<le> bytesLeft then
        (Received (to_int32 desiredLen) (take desiredLen (drop (m_alreadyRead self) (m_buffer self))),
         ev, self\<lparr>m_alreadyRead := m_alreadyRead self + desiredLen\<rparr>, w)
      else if 0 < bytesLeft then
        (Received (to_int32 bytesLeft) (take bytesLeft (drop (m_alreadyRead self) (m_buffer self))),
         ev, self\<lparr>m_alreadyRead := m_fillLevel self\<rparr>, w)
      else if ov_Internal (overlapped ev) = STATUS_PENDING then (RecvError WSA_IO_PENDING, ev, self, w)
      else case wsa_recv wos (fileHandle ev) (to_ulong desiredLen) (length (m_buffer self)) w of
          (Inr data, w) \<Rightarrow>
            (case take_received desiredLen data (self\<lparr>m_alreadyRead := 0\<rparr>) of (res, self) \<Rightarrow> (res, ev, self, w))
        | (Inl e, w) \<Rightarrow>
            (let self = self\<lparr>m_alreadyRead := 0\<rparr> in
             if e = WSAEWOULDBLOCK then
               (case wsa_signal wos (fileHandle ev) (overlapped ev) w of
                  (Inl e, ov, w) \<Rightarrow> (RecvError e, ev\<lparr>overlapped := ov\<rparr>, self\<lparr>m_fillLevel := 0\<rparr>, w)
                | (Inr _, ov, w) \<Rightarrow>
                    (case wsa_recv wos (fileHandle ev) (to_ulong desiredLen) (length (m_buffer self)) w of
                       (Inl _, w) \<Rightarrow> (RecvUndefined, ev\<lparr>overlapped := ov\<rparr>, self, w)
                     | (Inr data, w) \<Rightarrow>
                         (case take_received desiredLen data self of
                            (res, self) \<Rightarrow> (res, ev\<lparr>overlapped := ov\<rparr>, self, w))))
             else (RecvError e, ev, self\<lparr>m_fillLevel := 0\<rparr>, w)))"

section \<open>The contract\<close>

text \<open>
  The calls together as one scatter read on the socket and its \<open>OVERLAPPED\<close>: nothing while a receive is pending; one more
  attempt when the receive of no bytes completes at once.
\<close>

definition wsa_readv :: "'w wsa_os \<Rightarrow> handle \<Rightarrow> (overlapped \<times> 'w) readv" where
  "wsa_readv wos socket fd n m s =
     (let (ov, w) = s in
      if ov_Internal ov = STATUS_PENDING then (Inl WSA_IO_PENDING, ov, w)
      else case wsa_recv wos socket n m w of
        (Inr data, w) \<Rightarrow> (Inr data, ov, w)
      | (Inl e, w) \<Rightarrow>
          if e = WSAEWOULDBLOCK then
            (case wsa_signal wos socket ov w of
               (Inl e, ov, w) \<Rightarrow> (Inl e, ov, w)
             | (Inr _, ov, w) \<Rightarrow> (case wsa_recv wos socket n m w of (x, w) \<Rightarrow> (x, ov, w)))
          else (Inl e, ov, w))"

text \<open>
  The receive of no bytes completes at once, but the attempt that follows fails: its result is not checked, and the number of
  bytes that the code goes on with was never assigned.
\<close>

definition second_attempt_fails :: "'w wsa_os \<Rightarrow> nat \<Rightarrow> win_event \<times> BufferedReader \<times> 'w \<Rightarrow> bool" where
  "second_attempt_fails wos n s =
     (let (ev, r, w) = s in
      ahead r = [] \<and> 0 < n \<and> ov_Internal (overlapped ev) \<noteq> STATUS_PENDING \<and>
      (case wsa_recv wos (fileHandle ev) n BUFFER_SIZE w of
         (Inr data, w) \<Rightarrow> False
       | (Inl e, w) \<Rightarrow> e = WSAEWOULDBLOCK \<and>
           (case wsa_signal wos (fileHandle ev) (overlapped ev) w of
              (Inl e, ov, w) \<Rightarrow> False
            | (Inr _, ov, w) \<Rightarrow> isl (fst (wsa_recv wos (fileHandle ev) n BUFFER_SIZE w)))))"

text \<open>The result as the caller sees it; the returned number counts the bytes.\<close>

fun result_is :: "recv_result \<Rightarrow> errno + bytes \<Rightarrow> bool" where
  "result_is (RecvError e) r \<longleftrightarrow> r = Inl e"
| "result_is (Received k d) r \<longleftrightarrow> r = Inr d \<and> k = int (length d)"
| "result_is RecvUndefined r \<longleftrightarrow> False"

lemma to_ulong_small: "n < 2 ^ 32 \<Longrightarrow> to_ulong n = n"
  by (simp add: to_ulong_def)

lemma take_received_eq:
  assumes "n < 2 ^ 31" and "length data \<le> n + BUFFER_SIZE"
  shows "take_received n data self =
    (if n < length data
     then (Received (int n) (take n data),
           self\<lparr>m_buffer := drop n data @ drop (length data - n) (m_buffer self), m_fillLevel := length data - n\<rparr>)
     else (Received (int (length data)) data, self\<lparr>m_fillLevel := 0\<rparr>))"
proof -
  have "to_ulong n = n" "to_int32 n = int n" using assms(1) by (simp_all add: to_ulong_small to_int32_small)
  moreover have "size_minus (length data) n = length data - n" if "n < length data"
    using that assms by (intro size_minus_le) (simp_all add: BUFFER_SIZE_def)
  moreover have "to_int32 (length data) = int (length data)" if "\<not> n < length data"
    using that assms(1) by (intro to_int32_small) simp
  ultimately show ?thesis by (simp add: take_received_def)
qed

text \<open>With a request below 2 GB, a call with nothing pending is the one of the Linux backend on that scatter read.\<close>

lemma win_recv_linux:
  assumes "\<not> second_attempt_fails wos n (ev, r, w)" and "reader_ok r" and "n < 2 ^ 31"
    and "readv_laws (wsa_readv wos (fileHandle ev)) fd incoming"
    and "ov_Internal (overlapped ev) \<noteq> STATUS_PENDING \<or> n \<le> length (ahead r) \<or> ahead r \<noteq> []"
    and step: "win_recv wos n (ev, r, w) = (res, ev', r', w')"
  shows "\<exists>out. recv (wsa_readv wos (fileHandle ev)) fd n (r, overlapped ev, w) = (out, r', overlapped ev', w') \<and>
    result_is res out \<and> fileHandle ev' = fileHandle ev"
proof -
  have n: "to_ulong n = n" "to_int32 n = int n" using assms(3) by (simp_all add: to_ulong_small to_int32_small)
  have len: "size_minus (m_fillLevel r) (m_alreadyRead r) = length (ahead r)" by (rule bytesLeft_ahead [OF assms(2)])
  have ok: "length (m_buffer r) = BUFFER_SIZE" "length (ahead r) = m_fillLevel r - m_alreadyRead r"
      "m_alreadyRead r \<le> m_fillLevel r" "m_fillLevel r \<le> BUFFER_SIZE"
    using assms(2) ahead_length [OF assms(2)] by (simp_all add: reader_ok_def)
  have small: "k \<le> length (ahead r) \<Longrightarrow> to_int32 k = int k" for k
    using ok by (intro to_int32_small) (simp add: BUFFER_SIZE_def)
  consider (enough) "n \<le> length (ahead r)" | (rest) "\<not> n \<le> length (ahead r)" "0 < length (ahead r)"
    | (read) "\<not> n \<le> length (ahead r)" "length (ahead r) = 0" "ov_Internal (overlapped ev) \<noteq> STATUS_PENDING"
    using assms(5) by (cases "ahead r") auto
  then show ?thesis
  proof cases
    case enough
    then show ?thesis using step n ok by (simp add: win_recv_def recv_def len) (auto simp: min_def)
  next
    case rest
    then show ?thesis using step small ok by (simp add: win_recv_def recv_def len) auto
  next
    case read
    define bl where "bl = wsa_recv wos (fileHandle ev) n BUFFER_SIZE"
    have rv: "wsa_readv wos (fileHandle ev) fd n BUFFER_SIZE (overlapped ev, w) = (case bl w of
          (Inr data, w) \<Rightarrow> (Inr data, overlapped ev, w)
        | (Inl e, w) \<Rightarrow> if e = WSAEWOULDBLOCK then
              (case wsa_signal wos (fileHandle ev) (overlapped ev) w of
                 (Inl e, ov, w) \<Rightarrow> (Inl e, ov, w)
               | (Inr _, ov, w) \<Rightarrow> (case bl w of (x, w) \<Rightarrow> (x, ov, w)))
            else (Inl e, overlapped ev, w))" (is "?readv = _")
      unfolding wsa_readv_def bl_def using read by simp
    have bound: "length data \<le> n + BUFFER_SIZE" if "?readv = (Inr data, s)" for data s
      using assms(4) that by (cases s) (auto simp: readv_laws_def)
    have lin: "recv (wsa_readv wos (fileHandle ev)) fd n (r, overlapped ev, w) = (case ?readv of
          (Inl e, s) \<Rightarrow> (Inl e, r\<lparr>m_alreadyRead := 0, m_fillLevel := 0\<rparr>, s)
        | (Inr data, s) \<Rightarrow>
            (let r = r\<lparr>m_buffer := drop n data @ drop (length data - n) (m_buffer r), m_alreadyRead := 0\<rparr> in
             if n < length data then (Inr (take n data), r\<lparr>m_fillLevel := length data - n\<rparr>, s)
             else (Inr data, r\<lparr>m_fillLevel := 0\<rparr>, s)))"
      using read by (simp add: recv_def len ok)
    have win: "(res, ev', r', w') = (case bl w of
          (Inr data, w) \<Rightarrow>
            (case take_received n data (r\<lparr>m_alreadyRead := 0\<rparr>) of (res, self) \<Rightarrow> (res, ev, self, w))
        | (Inl e, w) \<Rightarrow> if e = WSAEWOULDBLOCK then
               (case wsa_signal wos (fileHandle ev) (overlapped ev) w of
                  (Inl e, ov, w) \<Rightarrow>
                    (RecvError e, ev\<lparr>overlapped := ov\<rparr>, r\<lparr>m_alreadyRead := 0, m_fillLevel := 0\<rparr>, w)
                | (Inr _, ov, w) \<Rightarrow>
                    (case bl w of
                       (Inl _, w) \<Rightarrow> (RecvUndefined, ev\<lparr>overlapped := ov\<rparr>, r\<lparr>m_alreadyRead := 0\<rparr>, w)
                     | (Inr data, w) \<Rightarrow>
                         (case take_received n data (r\<lparr>m_alreadyRead := 0\<rparr>) of
                            (res, self) \<Rightarrow> (res, ev\<lparr>overlapped := ov\<rparr>, self, w))))
             else (RecvError e, ev, r\<lparr>m_alreadyRead := 0, m_fillLevel := 0\<rparr>, w))"
      using read step by (simp add: win_recv_def len n(1) ok(1) bl_def [symmetric] Let_def cong: sum.case_cong prod.case_cong if_cong)
    have buf: "length data \<le> n \<Longrightarrow> r\<lparr>m_buffer := drop n data @ drop (length data - n) (m_buffer r), m_alreadyRead := 0, m_fillLevel := 0\<rparr> =
        r\<lparr>m_alreadyRead := 0, m_fillLevel := 0\<rparr>" for data :: bytes by simp
    obtain x w1 where x: "bl w = (x, w1)" by fastforce
    show ?thesis
    proof (cases x)
      case (Inr data)
      then have rd: "?readv = (Inr data, overlapped ev, w1)" using rv x by simp
      then show ?thesis
        using lin win x Inr take_received_eq [OF assms(3) bound [OF rd]] buf by (auto simp: Let_def)
    next
      case (Inl e)
      obtain y ov w2 where y: "wsa_signal wos (fileHandle ev) (overlapped ev) w1 = (y, ov, w2)"
        using prod_cases3 by blast
      show ?thesis
      proof (cases "e = WSAEWOULDBLOCK \<and> \<not> isl y")
        case True
        then obtain u where u: "y = Inr u" by (cases y) auto
        obtain data w3 where d: "bl w2 = (Inr data, w3)"
          using assms(1) read x Inl True y u
          by (cases "bl w2"; cases "fst (bl w2)") (auto simp: second_attempt_fails_def bl_def)
        then have rd: "?readv = (Inr data, ov, w3)" using rv x Inl True y u by simp
        then show ?thesis
          using lin win x Inl True y u d take_received_eq [OF assms(3) bound [OF rd]] buf by (auto simp: Let_def)
      next
        case False
        then show ?thesis using lin win x Inl y rv by (cases y) auto
      qed
    qed
  qed
qed

lemma win_recv_undefined:
  assumes "reader_ok r" and "n < 2 ^ 31" and "second_attempt_fails wos n (ev, r, w)"
    and "win_recv wos n (ev, r, w) = (res, ev', r', w')"
  shows "res = RecvUndefined" "fileHandle ev' = fileHandle ev"
    "\<exists>e. wsa_readv wos (fileHandle ev) fd n BUFFER_SIZE (overlapped ev, w) = (Inl e, overlapped ev', w')"
proof -
  have n: "to_ulong n = n" using assms(2) by (simp add: to_ulong_small)
  have len: "size_minus (m_fillLevel r) (m_alreadyRead r) = length (ahead r)" by (rule bytesLeft_ahead [OF assms(1)])
  have buf: "length (m_buffer r) = BUFFER_SIZE" using assms(1) by (simp add: reader_ok_def)
  obtain x1 w1 where 1: "wsa_recv wos (fileHandle ev) n BUFFER_SIZE w = (x1, w1)" by fastforce
  obtain y ov w2 where 2: "wsa_signal wos (fileHandle ev) (overlapped ev) w1 = (y, ov, w2)" using prod_cases3 by blast
  obtain x3 w3 where 3: "wsa_recv wos (fileHandle ev) n BUFFER_SIZE w2 = (x3, w3)" by fastforce
  have f: "ahead r = []" "0 < n" "ov_Internal (overlapped ev) \<noteq> STATUS_PENDING" "x1 = Inl WSAEWOULDBLOCK"
    using assms(3) 1 by (auto simp: second_attempt_fails_def split: sum.splits)
  obtain u where u: "y = Inr u" using assms(3) 1 2 f(4) by (cases y) (auto simp: second_attempt_fails_def)
  obtain e where e: "x3 = Inl e" using assms(3) 1 2 3 f(4) u by (cases x3) (auto simp: second_attempt_fails_def)
  have "win_recv wos n (ev, r, w) = (RecvUndefined, ev\<lparr>overlapped := ov\<rparr>, r\<lparr>m_alreadyRead := 0\<rparr>, w3)"
    using f n len buf 1 2 3 u e by (simp add: win_recv_def)
  moreover have "wsa_readv wos (fileHandle ev) fd n BUFFER_SIZE (overlapped ev, w) = (Inl e, ov, w3)"
    using f 1 2 3 u e by (simp add: wsa_readv_def)
  ultimately show "res = RecvUndefined" "fileHandle ev' = fileHandle ev"
    "\<exists>e. wsa_readv wos (fileHandle ev) fd n BUFFER_SIZE (overlapped ev, w) = (Inl e, overlapped ev', w')"
    using assms(4) by auto
qed

lemma win_recv_refines:
  assumes "readv_laws (wsa_readv wos (fileHandle ev)) fd incoming"
    and "reader_ok r" and "n < 2 ^ 31" and step: "win_recv wos n (ev, r, w) = (res, ev', r', w')"
    and good: "\<not> second_attempt_fails wos n (ev, r, w)"
  shows "\<exists>out. recv_spec (wsa_readv wos (fileHandle ev)) fd n (ahead r, overlapped ev, w) =
      (out, ahead r', overlapped ev', w') \<and>
    result_is res out \<and> reader_ok r' \<and> fileHandle ev' = fileHandle ev"
proof (cases "ov_Internal (overlapped ev) \<noteq> STATUS_PENDING \<or> n \<le> length (ahead r) \<or> ahead r \<noteq> []")
  case True
  then obtain out where "recv (wsa_readv wos (fileHandle ev)) fd n (r, overlapped ev, w) = (out, r', overlapped ev', w')"
      and *: "result_is res out \<and> fileHandle ev' = fileHandle ev"
    using win_recv_linux [OF good assms(2,3,1) _ step] by blast
  from recv_refines [OF assms(1,2) this(1)] * show ?thesis by blast
next
  case False
  then have len: "size_minus (m_fillLevel r) (m_alreadyRead r) = 0" and n: "0 < n"
    using bytesLeft_ahead [OF assms(2)] by auto
  then have "res = RecvError WSA_IO_PENDING" "ev' = ev" "r' = r" "w' = w"
    using step False by (simp_all add: win_recv_def)
  moreover have "recv_spec (wsa_readv wos (fileHandle ev)) fd n (ahead r, overlapped ev, w) =
      (Inl WSA_IO_PENDING, [], overlapped ev, w)"
    using False n by (simp add: recv_spec_def wsa_readv_def)
  ultimately show ?thesis using False assms(2) by auto
qed

text \<open>
  The reader as a source of bytes, with requests below 2 GB. After an undefined result the members of the reader mean
  nothing; the source keeps the old ones.
\<close>

fun view_result :: "recv_result \<Rightarrow> errno + bytes" where
  "view_result (RecvError e) = Inl e"
| "view_result (Received k d) = Inr d"
| "view_result RecvUndefined = Inl 0"

definition win_read :: "'w wsa_os \<Rightarrow> nat \<Rightarrow> win_event \<times> BufferedReader \<times> 'w \<Rightarrow>
    (errno + bytes) \<times> win_event \<times> BufferedReader \<times> 'w" where
  "win_read wos n s =
     (case win_recv wos (min n (2 ^ 31 - 1)) s of (res, ev, r, w) \<Rightarrow>
        (view_result res, ev, if res = RecvUndefined then fst (snd s) else r, w))"

lemma result_is_view: "result_is res out \<Longrightarrow> view_result res = out"
  by (cases res) simp_all

interpretation win_buffered: byte_source
  "\<lambda>(ev, r, w). fileHandle ev = socket \<and>
     readv_laws (wsa_readv wos socket) 0 (\<lambda>(ov, w). incoming w) \<and> reader_ok r"
  "win_read wos" "\<lambda>(ev, r, w). ahead r @ incoming w"
  for wos socket incoming
proof unfold_locales
  fix s :: "win_event \<times> BufferedReader \<times> 'a" and n :: nat
  let ?n = "min n (2 ^ 31 - 1)"
  obtain ev r w where s: "s = (ev, r, w)" by (cases s)
  obtain res ev' r' w' where step: "win_recv wos ?n s = (res, ev', r', w')" by (metis surj_pair)
  assume "case s of (ev, r, w) \<Rightarrow> fileHandle ev = socket \<and>
    readv_laws (wsa_readv wos socket) 0 (\<lambda>(ov, w). incoming w) \<and> reader_ok r"
  then have laws: "readv_laws (wsa_readv wos (fileHandle ev)) 0 (\<lambda>(ov, w). incoming w)"
      "reader_ok r" "fileHandle ev = socket" by (simp_all add: s)
  have lt: "?n < 2 ^ 31" by (simp add: min_def)
  have both: "(case snd (win_read wos n s) of (ev, r, w) \<Rightarrow> fileHandle ev = socket \<and>
        readv_laws (wsa_readv wos socket) 0 (\<lambda>(ov, w). incoming w) \<and> reader_ok r) \<and>
      (\<forall>d s'. win_read wos n s = (Inr d, s') \<longrightarrow> length d \<le> n \<and> (case s of (ev, r, w) \<Rightarrow> ahead r @ incoming w) =
        d @ (case s' of (ev, r, w) \<Rightarrow> ahead r @ incoming w)) \<and>
      (\<forall>e s'. win_read wos n s = (Inl e, s') \<longrightarrow>
        (case s' of (ev, r, w) \<Rightarrow> ahead r @ incoming w) = (case s of (ev, r, w) \<Rightarrow> ahead r @ incoming w))"
  proof (cases "second_attempt_fails wos ?n (ev, r, w)")
    case True
    note u = win_recv_undefined(1,2) [OF laws(2) lt True step [unfolded s]]
    obtain e where "wsa_readv wos (fileHandle ev) 0 ?n BUFFER_SIZE (overlapped ev, w) = (Inl e, overlapped ev', w')"
      using win_recv_undefined(3) [OF laws(2) lt True step [unfolded s], of 0] by blast
    then have "incoming w' = incoming w" using laws(1) unfolding readv_laws_def by (metis case_prod_conv)
    moreover have "win_read wos n s = (Inl 0, ev', r, w')" using step u(1) by (simp add: win_read_def s)
    ultimately show ?thesis using laws u(2) by (simp add: s)
  next
    case False
    obtain out where out: "recv_spec (wsa_readv wos (fileHandle ev)) 0 ?n (ahead r, overlapped ev, w) =
        (out, ahead r', overlapped ev', w')" "result_is res out" "reader_ok r'" "fileHandle ev' = fileHandle ev"
      using win_recv_refines [OF laws(1,2) lt step [unfolded s] False] by blast
    then have "win_read wos n s = (out, ev', r', w')" using step by (auto simp: win_read_def result_is_view)
    then show ?thesis using laws out recv_spec_stream [OF laws(1) out(1)] by (auto simp: s)
  qed
  then show "case snd (win_read wos n s) of (ev, r, w) \<Rightarrow> fileHandle ev = socket \<and>
      readv_laws (wsa_readv wos socket) 0 (\<lambda>(ov, w). incoming w) \<and> reader_ok r" by (rule conjunct1)
  {
    fix d s' assume "win_read wos n s = (Inr d, s')"
    then show "length d \<le> n \<and> (case s of (ev, r, w) \<Rightarrow> ahead r @ incoming w) =
        d @ (case s' of (ev, r, w) \<Rightarrow> ahead r @ incoming w)"
      using both by blast
  next
    fix e s' assume "win_read wos n s = (Inl e, s')"
    then show "(case s' of (ev, r, w) \<Rightarrow> ahead r @ incoming w) = (case s of (ev, r, w) \<Rightarrow> ahead r @ incoming w)"
      using both by blast
  }
qed

section \<open>Properties\<close>

text \<open>
  Claim C13: \<open>recv\<close> on Windows implements the abstract reader of the Linux backend, on the scatter read that the
  calls of \<open>WSARecv\<close> make together: the bytes, their number and the bytes read ahead are those of the specification, and the
  buffer stays within its bounds, for requests below 2 GB; with one exception: when the receive of no bytes completes at once
  and the attempt after it fails, and then only, a variable without a value is read.
\<close>

theorem win_recv_implements_spec:
  assumes "readv_laws (wsa_readv wos (fileHandle ev)) fd incoming"
    and "reader_ok r" and "n < 2 ^ 31" and "win_recv wos n (ev, r, w) = (res, ev', r', w')"
  shows "if second_attempt_fails wos n (ev, r, w) then res = RecvUndefined
    else \<exists>out. recv_spec (wsa_readv wos (fileHandle ev)) fd n (ahead r, overlapped ev, w) =
        (out, ahead r', overlapped ev', w') \<and>
      result_is res out \<and> reader_ok r' \<and> fileHandle ev' = fileHandle ev"
  using win_recv_refines [OF assms] win_recv_undefined(1) [OF assms(2,3) _ assms(4)] by simp

text \<open>
  A socket with the bytes that have arrived and those that arrive as soon as a receive of no bytes is ordered, which
  then completes at once; when there are none, it stays pending.
\<close>

definition arriving_wsa :: "(bytes \<times> bytes) wsa_os" where
  "arriving_wsa = \<lparr>wsa_recv = (\<lambda>h n m w.
       if fst w = [] then (Inl WSAEWOULDBLOCK, w) else (Inr (take (n + m) (fst w)), drop (n + m) (fst w), snd w)),
     wsa_signal = (\<lambda>h ov w.
       if fst w @ snd w = [] then (Inl WSA_IO_PENDING, ov\<lparr>ov_Internal := STATUS_PENDING\<rparr>, w)
       else (Inr (), ov, fst w @ snd w, []))\<rparr>"

lemma arriving_wsa_laws:
  "readv_laws (wsa_readv arriving_wsa socket) fd (\<lambda>(ov, w). fst w @ snd w)"
  "\<not> second_attempt_fails arriving_wsa n (ev, r, w)"
  by (auto simp: arriving_wsa_def readv_laws_def wsa_readv_def second_attempt_fails_def split: if_splits)

theorem win_recv_implements_spec_witness:
  "\<exists>ev r. win_recv arriving_wsa 2 (win_event_ctor, fresh_reader, [], [1, 2, 3]) = (Received 2 [1, 2], ev, r, [], []) \<and>
     ahead r = [3]"
proof -
  obtain res ev r w where step: "win_recv arriving_wsa 2 (win_event_ctor, fresh_reader, [], [1, 2, 3]) = (res, ev, r, w)"
    by (metis surj_pair)
  have "\<exists>out. recv_spec (wsa_readv arriving_wsa (fileHandle win_event_ctor)) 0 2
      (ahead fresh_reader, overlapped win_event_ctor, [], [1, 2, 3]) = (out, ahead r, overlapped ev, w) \<and>
      result_is res out \<and> reader_ok r \<and> fileHandle ev = fileHandle win_event_ctor"
    using win_recv_implements_spec [OF arriving_wsa_laws(1) fresh_reader_ok(1) _ step, of 0] arriving_wsa_laws(2) by simp
  moreover have "recv_spec (wsa_readv arriving_wsa (fileHandle win_event_ctor)) 0 2
      (ahead fresh_reader, overlapped win_event_ctor, [], [1, 2, 3]) =
      (Inr [1, 2], [3], overlapped win_event_ctor, [], [])"
    by (simp add: fresh_reader_ok recv_spec_def wsa_readv_def arriving_wsa_def win_event_ctor_def STATUS_PENDING_def
        BUFFER_SIZE_def)
  ultimately have "result_is res (Inr [1, 2])" "ahead r = [3]" "w = ([], [])" by auto
  then show ?thesis using step by (cases res) auto
qed

end
