(* ===== verification/WinSocketNonblocking.thy ===== *)
theory WinSocketNonblocking
  imports WinBufferedReader WinEventLoopBehaviour SocketNonblocking
begin

text \<open>
  \<open>lib/communication/windows/socketnonblocking.cpp\<close>: the connection on overlapped I/O. The object lives in the world of the
  event loop; the transfer functions take its parts: the event, the buffered reader and the world. The system calls
  are the record \<open>win_socket_os\<close>; the kernel writes the \<open>OVERLAPPED\<close> of a pending receive while the code waits, so
  \<open>wso_select_read\<close> takes and returns it. Sizes are below 2 GB, where the casts to \<open>int\<close> keep them.
\<close>

section \<open>The data\<close>

record 'w win_socket_os =
  wso_startup :: "'w \<Rightarrow> int \<times> 'w"
  wso_create_event :: "'w \<Rightarrow> handle \<times> 'w"
  wso_close_event :: "handle \<Rightarrow> 'w \<Rightarrow> bool \<times> 'w"
  wso_ioctl_nonblock :: "handle \<Rightarrow> 'w \<Rightarrow> int \<times> 'w"
  wso_nodelay :: "handle \<Rightarrow> 'w \<Rightarrow> int \<times> 'w"
  wso_keepalive :: "handle \<Rightarrow> 32 word \<Rightarrow> 32 word \<Rightarrow> 'w \<Rightarrow> int \<times> 'w"
  wso_getaddrinfo :: "string \<Rightarrow> string \<Rightarrow> 'w \<Rightarrow> (nat \<times> sock_addr) option \<times> 'w"
  wso_socket :: "nat \<Rightarrow> 'w \<Rightarrow> handle \<times> 'w"
  wso_connect :: "handle \<Rightarrow> sock_addr \<Rightarrow> 'w \<Rightarrow> (int + unit) \<times> 'w"
  wso_select_write :: "handle \<Rightarrow> int option \<Rightarrow> 'w \<Rightarrow> (int + int) \<times> 'w"
  wso_select_read :: "handle \<Rightarrow> int option \<Rightarrow> overlapped \<times> 'w \<Rightarrow> (int + int) \<times> overlapped \<times> 'w"
  wso_error :: "handle \<Rightarrow> 'w \<Rightarrow> int \<times> 'w"
  wso_send :: "handle \<Rightarrow> bytes \<Rightarrow> 'w \<Rightarrow> (int + nat) \<times> 'w"
  wso_wsasend :: "handle \<Rightarrow> bytes list \<Rightarrow> 'w \<Rightarrow> (int + nat) \<times> 'w"
  wso_shutdown :: "handle \<Rightarrow> 'w \<Rightarrow> int \<times> 'w"
  wso_closesocket :: "handle \<Rightarrow> 'w \<Rightarrow> int \<times> 'w"
  wso_getpeername :: "handle \<Rightarrow> 'w \<Rightarrow> sock_addr option \<times> 'w"
  wso_getnameinfo :: "sock_addr \<Rightarrow> 'w \<Rightarrow> (string \<times> string) option \<times> 'w"
  wso_wsa :: "'w wsa_os"

record 'd WinSocketNonblocking =
  ws_event :: win_event
  ws_bufferedReader :: BufferedReader
  ws_inDataHandler :: "'d option"

type_synonym ('d, 'h, 'w) win_data_cb =
  "'d \<Rightarrow> ('w, 'd WinSocketNonblocking) ref \<Rightarrow> ('h, 'w) WinEventLoop \<Rightarrow> outcome \<times> ('h, 'w) WinEventLoop"

section \<open>Construction and callbacks\<close>

text \<open>What both constructors begin with: the event of the connection.\<close>

definition win_connection_event :: "'w win_socket_os \<Rightarrow> ('h, 'w) WinEventLoop \<Rightarrow> win_event \<times> ('h, 'w) WinEventLoop" where
  "win_connection_event so s =
     (let (_, s) = wsys (wso_startup so) s;
          (event, s) = wsys (wso_create_event so) s
      in (\<lparr>completionPort = m_completionPort s,
           overlapped = (overlapped win_event_ctor)\<lparr>ov_hEvent := event\<rparr>, fileHandle = INVALID_HANDLE_VALUE\<rparr>, s))"

definition win_SocketNonblocking_ctor :: "'w win_socket_os \<Rightarrow> bytes \<Rightarrow> ('w, 'd WinSocketNonblocking) ref \<Rightarrow>
    ('h, 'w) WinEventLoop \<Rightarrow> ('h, 'w) WinEventLoop" where
  "win_SocketNonblocking_ctor so uninit this s =
     (let (event, s) = win_connection_event so s
      in wset this \<lparr>ws_event = event, ws_bufferedReader = BufferedReader_ctor uninit, ws_inDataHandler = None\<rparr> s)"

definition win_setSocketOptions :: "'w win_socket_os \<Rightarrow> handle \<Rightarrow> 'w \<Rightarrow> int \<times> 'w" where
  "win_setSocketOptions so sock w =
     (case wso_ioctl_nonblock so sock w of
        (result, w) \<Rightarrow>
          if result = - 1 then (- 1, w)
          else (case wso_nodelay so sock w of
                  (result, w) \<Rightarrow>
                    if result = - 1 then (- 1, w)
                    else (case wso_keepalive so sock 1000 1000 w of
                            (result, w) \<Rightarrow> if result = - 1 then (- 1, w) else (0, w))))"

text \<open>The constructor for an accepted connection; the \<open>int\<close> is sign-extended to a handle.\<close>

definition win_SocketNonblocking_ctor_fd :: "'w win_socket_os \<Rightarrow> bytes \<Rightarrow> 32 word \<Rightarrow>
    ('w, 'd WinSocketNonblocking) ref \<Rightarrow> ('h, 'w) WinEventLoop \<Rightarrow> outcome \<times> ('h, 'w) WinEventLoop" where
  "win_SocketNonblocking_ctor_fd so uninit fd this s =
     (let (event, s) = win_connection_event so s;
          event = event\<lparr>fileHandle := scast fd\<rparr>;
          s = wset this \<lparr>ws_event = event, ws_bufferedReader = BufferedReader_ctor uninit, ws_inDataHandler = None\<rparr> s in
      case wsys (win_setSocketOptions so (fileHandle event)) s of
        (r, s) \<Rightarrow> if r < 0 then (Throw (RuntimeError ''error setting socket options''), s) else (Ret 0, s))"

text \<open>Ordering the receive of no bytes on the object's own event.\<close>

definition order_signal :: "'w win_socket_os \<Rightarrow> ('w, 'd WinSocketNonblocking) ref \<Rightarrow> ('h, 'w) WinEventLoop \<Rightarrow>
    ('h, 'w) WinEventLoop" where
  "order_signal so this s =
     (let event = ws_event (wobj this s);
          ((_, ov), s) = wsys (\<lambda>w. case wsa_signal (wso_wsa so) (fileHandle event) (overlapped event) w of
                                    (x, ov, w) \<Rightarrow> ((x, ov), w)) s
      in wset this ((wobj this s)\<lparr>ws_event := event\<lparr>overlapped := ov\<rparr>\<rparr>) s)"

text \<open>\<open>h\<close> is the handler that \<open>std::bind(&SocketNonblocking::process, std::ref(*this))\<close> makes.\<close>

definition win_setDataCb :: "'w win_socket_os \<Rightarrow> 'w iocp_os \<Rightarrow> 'h \<Rightarrow> 'd option \<Rightarrow>
    ('w, 'd WinSocketNonblocking) ref \<Rightarrow> ('h, 'w) WinEventLoop \<Rightarrow> ('h, 'w) WinEventLoop" where
  "win_setDataCb so os h dataCb this s =
     (let s = wset this ((wobj this s)\<lparr>ws_inDataHandler := dataCb\<rparr>) s;
          (_, s) = win_addEvent os (ws_event (wobj this s)) (Some h) s
      in order_signal so this s)"

definition win_clearDataCb :: "('w, 'd WinSocketNonblocking) ref \<Rightarrow> ('h, 'w) WinEventLoop \<Rightarrow> ('h, 'w) WinEventLoop" where
  "win_clearDataCb this s =
     (let s = wset this ((wobj this s)\<lparr>ws_inDataHandler := None\<rparr>) s
      in snd (win_eraseEvent (ws_event (wobj this s)) s))"

definition win_SocketNonblocking_process :: "('d, 'h, 'w) win_data_cb \<Rightarrow> ('w, 'd WinSocketNonblocking) ref \<Rightarrow>
    ('h, 'w) WinEventLoop \<Rightarrow> outcome \<times> ('h, 'w) WinEventLoop" where
  "win_SocketNonblocking_process user this s =
     (case ws_inDataHandler (wobj this s) of
        Some d \<Rightarrow> user d this s
      | None \<Rightarrow> (Ret (- 1), s))"

section \<open>Connecting and disconnecting\<close>

text \<open>\<open>connect\<close> and, when it would block, waiting for the result; the value is \<open>err\<close> or -1.\<close>

definition win_finish_connect :: "'w win_socket_os \<Rightarrow> handle \<Rightarrow> sock_addr \<Rightarrow> 'w \<Rightarrow> int \<times> 'w" where
  "win_finish_connect so sock pSockAddr w =
     (case wso_connect so sock pSockAddr w of
        (Inr _, w) \<Rightarrow> (0, w)
      | (Inl lastError, w) \<Rightarrow>
          if lastError \<noteq> WSAEWOULDBLOCK then (- 1, w)
          else (case wso_select_write so sock (Some (TIMEOUT_CONNECT_S * 1000)) w of
                  (err, w) \<Rightarrow>
                    if err \<noteq> Inr 1 then (- 1, w)
                    else (case wso_error so sock w of
                            (val, w) \<Rightarrow> if val \<noteq> 0 then (- 1, w) else (0, w))))"

definition win_connect_sockaddr :: "'w win_socket_os \<Rightarrow> 'w iocp_os \<Rightarrow> 'h \<Rightarrow> nat \<Rightarrow> sock_addr \<Rightarrow>
    ('w, 'd WinSocketNonblocking) ref \<Rightarrow> ('h, 'w) WinEventLoop \<Rightarrow> int \<times> ('h, 'w) WinEventLoop" where
  "win_connect_sockaddr so os h domain pSockAddr this s =
     (let (socket, s) = wsys (wso_socket so domain) s;
          s = wset this ((wobj this s)\<lparr>ws_event := (ws_event (wobj this s))\<lparr>fileHandle := socket\<rparr>\<rparr>) s in
      if socket = INVALID_HANDLE_VALUE then (- 1, s)
      else case wsys (win_setSocketOptions so socket) s of
        (err, s) \<Rightarrow>
          if err < 0 then (err, s)
          else (case wsys (win_finish_connect so socket pSockAddr) s of
                  (err, s) \<Rightarrow>
                    if err < 0 then (- 1, s)
                    else (0, win_setDataCb so os h (ws_inDataHandler (wobj this s)) this s)))"

definition win_connect_host :: "'w win_socket_os \<Rightarrow> 'w iocp_os \<Rightarrow> 'h \<Rightarrow> string \<Rightarrow> string \<Rightarrow>
    ('w, 'd WinSocketNonblocking) ref \<Rightarrow> ('h, 'w) WinEventLoop \<Rightarrow> int \<times> ('h, 'w) WinEventLoop" where
  "win_connect_host so os h addr port this s =
     (case wsys (wso_getaddrinfo so addr port) s of
        (None, s) \<Rightarrow> (- 1, s)
      | (Some (ai_family, ai_addr), s) \<Rightarrow> win_connect_sockaddr so os h ai_family ai_addr this s)"

definition win_disconnect :: "'w win_socket_os \<Rightarrow> ('w, 'd WinSocketNonblocking) ref \<Rightarrow> ('h, 'w) WinEventLoop \<Rightarrow>
    ('h, 'w) WinEventLoop" where
  "win_disconnect so this s =
     (let (_, s) = win_eraseEvent (ws_event (wobj this s)) s;
          (_, s) = wsys (wso_shutdown so (fileHandle (ws_event (wobj this s)))) s;
          (_, s) = wsys (wso_closesocket so (fileHandle (ws_event (wobj this s)))) s
      in wset this ((wobj this s)\<lparr>ws_event := (ws_event (wobj this s))\<lparr>fileHandle := INVALID_HANDLE_VALUE\<rparr>\<rparr>) s)"

definition win_SocketNonblocking_dtor :: "'w win_socket_os \<Rightarrow> ('w, 'd WinSocketNonblocking) ref \<Rightarrow>
    ('h, 'w) WinEventLoop \<Rightarrow> ('h, 'w) WinEventLoop" where
  "win_SocketNonblocking_dtor so this s =
     (let s = win_disconnect so this s
      in snd (wsys (wso_close_event so (hEvent (ws_event (wobj this s)))) s))"

text \<open>
  A failing \<open>getpeername\<close>, as for an IPv6 address, which does not fit, leaves the address without a value; a failing
  \<open>getnameinfo\<close> the strings that are compared.
\<close>

definition win_checkSockAddr :: "'w win_socket_os \<Rightarrow> handle \<Rightarrow> sock_addr \<Rightarrow> 'w \<Rightarrow> (cxx_exception + bool) \<times> 'w" where
  "win_checkSockAddr so sock pCheckSockAddr w =
     (case wso_getnameinfo so pCheckSockAddr w of
        (None, w) \<Rightarrow> (Inr False, w)
      | (Some (checkHost, checkService), w) \<Rightarrow>
          (case wso_getpeername so sock w of
             (None, w) \<Rightarrow> (Inl UndefinedBehaviour, w)
           | (Some peer, w) \<Rightarrow>
               (case wso_getnameinfo so peer w of
                  (None, w) \<Rightarrow> (Inl UndefinedBehaviour, w)
                | (Some (host, service), w) \<Rightarrow> (Inr (host = checkHost \<and> service = checkService), w))))"

definition win_isFirewire :: bool where
  "win_isFirewire = False"

section \<open>Transfer\<close>

definition win_send :: "'w win_socket_os \<Rightarrow> handle \<Rightarrow> bytes \<Rightarrow> 'w \<Rightarrow> int \<times> 'w" where
  "win_send so sock pBlock w =
     (case wso_send so sock pBlock w of
        (Inl e, w) \<Rightarrow> (- 1, w)
      | (Inr n, w) \<Rightarrow> (int n, w))"

text \<open>
  The inner \<open>retVal\<close> of the error branch hides the outer one: what it is set to is lost, and the loop ends with the
  outer value.
\<close>

partial_function (option) win_sendBlock_loop :: "'w win_socket_os \<Rightarrow> handle \<Rightarrow> bytes \<Rightarrow> int \<Rightarrow> 'w \<Rightarrow>
    (int \<times> 'w) option" where
  "win_sendBlock_loop so sock left retVal w =
     (if left = [] then Some (retVal, w)
      else case wso_send so sock left w of
        (Inr numBytes, w) \<Rightarrow>
          if 0 < numBytes then win_sendBlock_loop so sock (drop numBytes left) retVal w
          else Some (- 1, w)
      | (Inl e, w) \<Rightarrow>
          if e = WSAEWOULDBLOCK \<or> e = WSA_IO_PENDING \<or> e = WSAEINPROGRESS then
            (case wso_select_write so sock None w of
               (err, w) \<Rightarrow>
                 if err \<noteq> Inr 1 then Some (retVal, w) else win_sendBlock_loop so sock left retVal w)
          else if e \<noteq> WSAEINTR then Some (retVal, w)
          else win_sendBlock_loop so sock left retVal w)"

definition win_sendBlock :: "'w win_socket_os \<Rightarrow> handle \<Rightarrow> bytes \<Rightarrow> 'w \<Rightarrow> (int \<times> 'w) option" where
  "win_sendBlock so sock pBlock w = win_sendBlock_loop so sock pBlock (int (length pBlock)) w"

text \<open>The loop over the blocks that \<open>WSASend\<close> has not taken completely.\<close>

fun win_sendBlocks_loop :: "'w win_socket_os \<Rightarrow> handle \<Rightarrow> bytes list \<Rightarrow> nat \<Rightarrow> nat \<Rightarrow> 'w \<Rightarrow> (int \<times> 'w) option" where
  "win_sendBlocks_loop so sock [] blockSum bytesWritten w = Some (int bytesWritten, w)"
| "win_sendBlocks_loop so sock (b # bs) blockSum bytesWritten w =
     (let blockSum = blockSum + length b in
      if bytesWritten < blockSum then
        (let bytesRemaining = blockSum - bytesWritten; start = length b - bytesRemaining in
         case win_sendBlock so sock (drop start b) w of
           None \<Rightarrow> None
         | Some (retVal, w) \<Rightarrow>
             if 0 < retVal
             then win_sendBlocks_loop so sock bs blockSum (bytesWritten + nat retVal) w
             else Some (- 1, w))
      else win_sendBlocks_loop so sock bs blockSum bytesWritten w)"

text \<open>The address of the first element of an empty vector is taken when there is no block.\<close>

definition win_sendBlocks :: "'w win_socket_os \<Rightarrow> handle \<Rightarrow> bytes list \<Rightarrow> 'w \<Rightarrow>
    ((cxx_exception + int) \<times> 'w) option" where
  "win_sendBlocks so sock blocks w =
     (let completeLength = foldl (\<lambda>n b. n + length b) 0 blocks in
      if blocks = [] then Some (Inl UndefinedBehaviour, w)
      else case wso_wsasend so sock blocks w of
        (x, w) \<Rightarrow>
          (case x of
             Inl e \<Rightarrow>
               if e \<noteq> WSAEWOULDBLOCK \<and> e \<noteq> WSA_IO_PENDING \<and> e \<noteq> WSAEINTR \<and> e \<noteq> WSAEINPROGRESS
               then Some (Inr e, w)
               else if completeLength = 0 then Some (Inr 0, w)
               else map_option (map_prod Inr id) (win_sendBlocks_loop so sock blocks 0 0 w)
           | Inr bytesWritten \<Rightarrow>
               if bytesWritten = completeLength then Some (Inr (int bytesWritten), w)
               else map_option (map_prod Inr id) (win_sendBlocks_loop so sock blocks 0 bytesWritten w)))"

definition win_sendBlocks_array :: "'w win_socket_os \<Rightarrow> handle \<Rightarrow> bytes list \<Rightarrow> 'w \<Rightarrow>
    ((cxx_exception + int) \<times> 'w) option" where
  "win_sendBlocks_array so sock blocks w =
     (let dataBlocks = foldl (\<lambda>v item. v @ [item]) [] blocks in win_sendBlocks so sock dataBlocks w)"

definition win_receive :: "'w win_socket_os \<Rightarrow> nat \<Rightarrow> win_event \<times> BufferedReader \<times> 'w \<Rightarrow>
    recv_result \<times> win_event \<times> BufferedReader \<times> 'w" where
  "win_receive so len s = win_recv (wso_wsa so) len s"

text \<open>The loop around \<open>select\<close> goes on for every error but \<open>WSAEINTR\<close>.\<close>

partial_function (option) select_loop :: "('s \<Rightarrow> (int + int) \<times> 's) \<Rightarrow> 's \<Rightarrow> (int \<times> 's) option" where
  "select_loop sel s =
     (case sel s of
        (Inl e, s) \<Rightarrow> if e \<noteq> WSAEINTR then select_loop sel s else Some (- 1, s)
      | (Inr n, s) \<Rightarrow> Some (n, s))"

partial_function (option) win_receive_loop :: "(nat \<Rightarrow> 's \<Rightarrow> recv_result \<times> 's) \<Rightarrow> ('s \<Rightarrow> (int + int) \<times> 's) \<Rightarrow>
    nat \<Rightarrow> bytes \<Rightarrow> 's \<Rightarrow> ((cxx_exception + int \<times> bytes) \<times> 's) option" where
  "win_receive_loop read sel len got s =
     (if length got = len then Some (Inr (to_int32 len, got), s)
      else case read (len - length got) s of
        (RecvUndefined, s) \<Rightarrow> Some (Inl UndefinedBehaviour, s)
      | (Received numBytes d, s) \<Rightarrow>
          if 0 < numBytes then win_receive_loop read sel len (got @ d) s else Some (Inr (- 1, got), s)
      | (RecvError lastError, s) \<Rightarrow>
          if lastError = WSA_IO_PENDING \<or> lastError = WSAEWOULDBLOCK then
            (case select_loop sel s of
               None \<Rightarrow> None
             | Some (err, s) \<Rightarrow>
                 if err \<noteq> 1 then Some (Inr (- 1, got), s) else win_receive_loop read sel len got s)
          else Some (Inr (- 1, got), s))"

definition win_select_in :: "'w win_socket_os \<Rightarrow> int \<Rightarrow> win_event \<times> BufferedReader \<times> 'w \<Rightarrow>
    (int + int) \<times> win_event \<times> BufferedReader \<times> 'w" where
  "win_select_in so msTimeout s =
     (let (ev, r, w) = s in
      case wso_select_read so (fileHandle ev) (if 0 \<le> msTimeout then Some msTimeout else None) (overlapped ev, w) of
        (x, ov, w) \<Rightarrow> (x, ev\<lparr>overlapped := ov\<rparr>, r, w))"

definition win_receiveComplete :: "'w win_socket_os \<Rightarrow> nat \<Rightarrow> int \<Rightarrow> win_event \<times> BufferedReader \<times> 'w \<Rightarrow>
    ((cxx_exception + int \<times> bytes) \<times> win_event \<times> BufferedReader \<times> 'w) option" where
  "win_receiveComplete so len msTimeout s =
     win_receive_loop (win_recv (wso_wsa so)) (win_select_in so msTimeout) len [] s"

end
