(* ===== verification/WinSocketBehaviour.thy ===== *)
theory WinSocketBehaviour
  imports WinSocketNonblocking
begin

text \<open>
  What the transfer functions and \<open>disconnect\<close> of the Windows backend do: what is sent and received on every path, which
  errors they hide, and when they do not return.
\<close>

section \<open>Sending\<close>

text \<open>As documented: what a send takes over is a prefix of what it is given and is appended to what was sent.\<close>

definition win_send_laws :: "'w win_socket_os \<Rightarrow> handle \<Rightarrow> ('w \<Rightarrow> bytes) \<Rightarrow> bool" where
  "win_send_laws so sock sent \<longleftrightarrow>
     (\<forall>b w n w'. wso_send so sock b w = (Inr n, w') \<longrightarrow> n \<le> length b \<and> sent w' = sent w @ take n b) \<and>
     (\<forall>b w e w'. wso_send so sock b w = (Inl e, w') \<longrightarrow> sent w' = sent w) \<and>
     (\<forall>bs w n w'. wso_wsasend so sock bs w = (Inr n, w') \<longrightarrow>
        n \<le> length (concat bs) \<and> sent w' = sent w @ take n (concat bs)) \<and>
     (\<forall>bs w e w'. wso_wsasend so sock bs w = (Inl e, w') \<longrightarrow> sent w' = sent w) \<and>
     (\<forall>t w. sent (snd (wso_select_write so sock t w)) = sent w)"

definition retried :: "int \<Rightarrow> bool" where
  "retried e \<longleftrightarrow> e = WSAEWOULDBLOCK \<or> e = WSA_IO_PENDING \<or> e = WSAEINPROGRESS \<or> e = WSAEINTR"

text \<open>The connection stays alive: a send fails for the moment only, and waiting for it succeeds.\<close>

definition win_send_retries :: "'w win_socket_os \<Rightarrow> handle \<Rightarrow> bool" where
  "win_send_retries so sock \<longleftrightarrow>
     (\<forall>b w e w'. wso_send so sock b w = (Inl e, w') \<longrightarrow> retried e) \<and>
     (\<forall>w. fst (wso_select_write so sock None w) = Inr 1)"

lemma win_sendBlock_loop_sends:
  assumes "win_sendBlock_loop so sock left retVal w = Some (r, w')" and "win_send_laws so sock sent"
  shows "\<exists>k \<le> length left. sent w' = sent w @ take k left \<and> (r = - 1 \<and> k < length left \<or>
      r = retVal \<and> (win_send_retries so sock \<longrightarrow> k = length left))"
proof -
  have "win_send_laws so sock sent \<longrightarrow> (\<exists>k \<le> length left. sent (snd x) = sent w @ take k left \<and>
      (fst x = - 1 \<and> k < length left \<or> fst x = retVal \<and> (win_send_retries so sock \<longrightarrow> k = length left)))"
    if "win_sendBlock_loop so sock left retVal w = Some x" for x
    using that
  proof (induction rule: win_sendBlock_loop.raw_induct [rotated, consumes 1, case_names step])
    case (step loop so sock left retVal w x)
    show ?case
    proof
      assume laws: "win_send_laws so sock sent"
      show "\<exists>k \<le> length left. sent (snd x) = sent w @ take k left \<and>
          (fst x = - 1 \<and> k < length left \<or> fst x = retVal \<and> (win_send_retries so sock \<longrightarrow> k = length left))"
      proof (cases "left = []")
        case True
        then show ?thesis using step(2) by auto
      next
        case False
        obtain y w1 where y: "wso_send so sock left w = (y, w1)" by fastforce
        show ?thesis
        proof (cases y)
          case (Inr n)
          then have n: "n \<le> length left" "sent w1 = sent w @ take n left"
            using laws y by (auto simp: win_send_laws_def)
          show ?thesis
          proof (cases "0 < n")
            case True
            then have "loop so sock (drop n left) retVal w1 = Some x" using step(2) False y Inr by simp
            from step(1) [OF this, rule_format, OF laws] obtain k where k: "k \<le> length left - n"
                "sent (snd x) = sent w1 @ take k (drop n left)"
                "fst x = - 1 \<and> k < length left - n \<or>
                 fst x = retVal \<and> (win_send_retries so sock \<longrightarrow> k = length left - n)" by auto
            then show ?thesis using n by (intro exI [of _ "n + k"]) (auto simp: take_add)
          next
            case Zero: False
            then show ?thesis using step(2) False y Inr n by (intro exI [of _ 0]) auto
          qed
        next
          case (Inl e)
          then have sent1: "sent w1 = sent w" using laws y unfolding win_send_laws_def by blast
          have ret: "win_send_retries so sock \<longrightarrow> retried e"
            using Inl y unfolding win_send_retries_def by blast
          obtain z w2 where z: "wso_select_write so sock None w1 = (z, w2)" by fastforce
          then have sent2: "sent w2 = sent w" and ret2: "win_send_retries so sock \<longrightarrow> z = Inr 1"
            using laws sent1 unfolding win_send_laws_def win_send_retries_def by (metis snd_conv, metis fst_conv)
          consider (again) w3 where "loop so sock left retVal w3 = Some x" "sent w3 = sent w"
            | (ended) "fst x = retVal" "sent (snd x) = sent w" "\<not> win_send_retries so sock"
            using step(2) False y Inl z sent1 sent2 ret ret2 by (auto simp: retried_def split: if_splits)
          then show ?thesis
          proof cases
            case again
            from step(1) [OF this(1), rule_format, OF laws] this(2) show ?thesis by auto
          next
            case ended
            then show ?thesis by (intro exI [of _ 0]) auto
          qed
        qed
      qed
    qed
  qed
  from this [OF assms(1)] assms(2) show ?thesis by simp
qed

text \<open>The loop over the blocks sends what is missing of each, on a connection that stays alive.\<close>

lemma win_sendBlocks_loop_sends:
  assumes "win_send_laws so sock sent" and "win_send_retries so sock"
  shows "blockSum \<le> bytesWritten \<Longrightarrow> bytesWritten \<le> blockSum + length (concat bs) \<Longrightarrow>
    win_sendBlocks_loop so sock bs blockSum bytesWritten w = Some (r, w') \<Longrightarrow>
    r = int (blockSum + length (concat bs)) \<and> sent w' = sent w @ drop (bytesWritten - blockSum) (concat bs) \<or>
    r = - 1 \<and> (\<exists>k < length (concat bs) - (bytesWritten - blockSum).
      sent w' = sent w @ take k (drop (bytesWritten - blockSum) (concat bs)))"
proof (induction bs arbitrary: blockSum bytesWritten w)
  case (Cons b bs)
  show ?case
  proof (cases "bytesWritten < blockSum + length b")
    case True
    let ?rest = "drop (bytesWritten - blockSum) b"
    have start: "length b - (blockSum + length b - bytesWritten) = bytesWritten - blockSum" using Cons.prems(1) True by simp
    obtain v w1 where v: "win_sendBlock so sock ?rest w = Some (v, w1)"
      using Cons.prems(3) True by (cases "win_sendBlock so sock ?rest w") (auto simp: Let_def start)
    obtain k where k: "k \<le> length ?rest" "sent w1 = sent w @ take k ?rest"
        "v = - 1 \<and> k < length ?rest \<or> v = int (length ?rest) \<and> k = length ?rest"
      using win_sendBlock_loop_sends [OF v [unfolded win_sendBlock_def] assms(1)] assms(2) by auto
    show ?thesis
    proof (cases "v = - 1")
      case True
      then have "r = - 1" "w' = w1" using Cons.prems(3) \<open>bytesWritten < _\<close> v by (simp_all add: Let_def start)
      moreover have "k < length ?rest" using k(3) True by auto
      ultimately show ?thesis
        using k(2) \<open>bytesWritten < _\<close> Cons.prems(1) by (intro disjI2 conjI exI [of _ k]) auto
    next
      case False
      then have v': "v = int (length ?rest)" "sent w1 = sent w @ ?rest" using k by auto
      have written: "bytesWritten + nat v = blockSum + length b" "0 < v"
        using v'(1) True Cons.prems(1) by auto
      have "win_sendBlocks_loop so sock bs (blockSum + length b) (blockSum + length b) w1 = Some (r, w')"
        using Cons.prems(3) True v written by (simp add: Let_def start)
      from Cons.IH [OF _ _ this] consider "r = int (blockSum + length b + length (concat bs))" "sent w' = sent w1 @ concat bs"
        | i where "r = - 1" "i < length (concat bs)" "sent w' = sent w1 @ take i (concat bs)" by auto
      then show ?thesis
      proof cases
        case 1
        then show ?thesis using v'(2) True Cons.prems(1) by auto
      next
        case (2 i)
        then show ?thesis
          using v'(2) True Cons.prems(1) by (intro disjI2 conjI exI [of _ "length ?rest + i"]) auto
      qed
    qed
  next
    case False
    then have "win_sendBlocks_loop so sock bs (blockSum + length b) bytesWritten w = Some (r, w')"
      using Cons.prems(3) by (simp add: Let_def)
    from Cons.IH [OF _ _ this] False Cons.prems(2) show ?thesis by (auto simp: ac_simps)
  qed
qed simp

lemma total_length: "foldl (\<lambda>n b. n + length b) k bs = k + length (concat bs)"
  by (induction bs arbitrary: k) simp_all

section \<open>Receiving\<close>

lemma select_loop_keeps:
  assumes "select_loop sel s = Some (r, s')" and "\<And>s. f (snd (sel s)) = f s"
  shows "f s' = f s"
proof -
  have "(\<forall>s. f (snd (sel s)) = f s) \<longrightarrow> f (snd x) = f s" if "select_loop sel s = Some x" for x
    using that
  proof (induction rule: select_loop.raw_induct [rotated, consumes 1, case_names step])
    case (step loop sel s x)
    show ?case
    proof
      assume keep: "\<forall>s. f (snd (sel s)) = f s"
      obtain y s1 where y: "sel s = (y, s1)" by fastforce
      then have "f s1 = f s" using keep [rule_format, of s] by simp
      then show "f (snd x) = f s"
        using step(1) [of sel s1 x] step(2) keep y by (cases y) (auto split: if_splits)
    qed
  qed
  from this [OF assms(1)] assms(2) show ?thesis by simp
qed

text \<open>A \<open>select\<close> that keeps failing, but is never interrupted, is repeated forever.\<close>

lemma select_loop_spins:
  assumes "\<And>s. \<exists>e s'. sel s = (Inl e, s') \<and> e \<noteq> WSAEINTR"
  shows "select_loop sel s = None"
proof -
  have "\<not> (\<forall>s. \<exists>e s'. sel s = (Inl e, s') \<and> e \<noteq> WSAEINTR)" if "select_loop sel s = Some x" for x
    using that
  proof (induction rule: select_loop.raw_induct [rotated, consumes 1, case_names step])
    case (step loop sel s x)
    show ?case
    proof
      assume a: "\<forall>s. \<exists>e s'. sel s = (Inl e, s') \<and> e \<noteq> WSAEINTR"
      then obtain e s' where "sel s = (Inl e, s')" "e \<noteq> WSAEINTR" by blast
      then have "loop sel s' = Some x" using step(2) by simp
      from step(1) [OF this] a show False by blast
    qed
  qed
  with assms show ?thesis by (cases "select_loop sel s") auto
qed

context byte_source
begin

lemma win_receive_loop_stream:
  assumes "win_receive_loop rd sel len got s = Some (res, s')"
    and rd: "\<And>s n. valid s \<Longrightarrow> n < 2 ^ 31 \<Longrightarrow> \<exists>y out s'. rd n s = (y, s') \<and>
      (y = RecvUndefined \<and> bad n s \<or> read n s = (out, s') \<and> result_is y out)"
    and "valid s" and "length got \<le> len" and "len < 2 ^ 31"
    and keep: "\<And>s. unread (snd (sel s)) = unread s" "\<And>s. valid (snd (sel s)) = valid s"
  shows "res = Inl UndefinedBehaviour \<and> (\<exists>n s. valid s \<and> bad n s) \<or> (\<exists>n d. res = Inr (n, got @ d) \<and> unread s = d @ unread s' \<and> length (got @ d) \<le> len \<and>
    (n = - 1 \<or> n = int len \<and> length (got @ d) = len))"
proof -
  have "rd' = rd \<longrightarrow> sel' = sel \<longrightarrow> valid s \<longrightarrow> length got \<le> len \<longrightarrow> len < 2 ^ 31 \<longrightarrow>
      (fst x = Inl UndefinedBehaviour \<and> (\<exists>n s. valid s \<and> bad n s) \<or> (\<exists>n d. fst x = Inr (n, got @ d) \<and> unread s = d @ unread (snd x) \<and> length (got @ d) \<le> len \<and>
        (n = - 1 \<or> n = int len \<and> length (got @ d) = len)))"
    if "win_receive_loop rd' sel' len got s = Some x" for x rd' sel'
    using that
  proof (induction rule: win_receive_loop.raw_induct [rotated, consumes 1, case_names step])
    case (step loop rd' sel' len got s x)
    show ?case
    proof (intro impI)
      assume eq: "rd' = rd" "sel' = sel" and ok: "valid s" and got: "length got \<le> len" and len: "len < 2 ^ 31"
      note IH = step(1) [rule_format, OF _ eq _ _ len]
      show "fst x = Inl UndefinedBehaviour \<and> (\<exists>n s. valid s \<and> bad n s) \<or> (\<exists>n d. fst x = Inr (n, got @ d) \<and> unread s = d @ unread (snd x) \<and> length (got @ d) \<le> len \<and>
        (n = - 1 \<or> n = int len \<and> length (got @ d) = len))"
      proof (cases "length got = len")
        case True
        then show ?thesis using step(2) len by (auto simp: to_int32_small)
      next
        case False
        have "len - length got < 2 ^ 31" using len by simp
        from rd [OF ok this] consider (undefined) s1 where "rd (len - length got) s = (RecvUndefined, s1)"
            "bad (len - length got) s"
          | (result) y out s1 where "rd (len - length got) s = (y, s1)"
            "read (len - length got) s = (out, s1)" "result_is y out" by blast
        then show ?thesis
        proof cases
          case undefined
          then have "fst x = Inl UndefinedBehaviour" using step(2) False eq by auto
          then show ?thesis using undefined(2) ok by blast
        next
        case y: (result y out s1)
        have ok1: "valid s1" using read_valid [OF ok, of "len - length got"] y by simp
        show ?thesis
        proof (cases y)
          case (Received k d)
          then have d: "length d \<le> len - length got" "unread s = d @ unread s1" "k = int (length d)"
            using read_data [OF ok] y by auto
          show ?thesis
          proof (cases "d = []")
            case True
            then show ?thesis using step(2) False y Received d got eq by auto
          next
            case ne: False
            then have "loop rd sel len (got @ d) s1 = Some x"
              using step(2) False y Received d(3) eq by simp
            moreover have "length (got @ d) \<le> len" using d(1) got by simp
            ultimately consider "fst x = Inl UndefinedBehaviour" "\<exists>n s. valid s \<and> bad n s"
              | n d' where "fst x = Inr (n, (got @ d) @ d')" "unread s1 = d' @ unread (snd x)"
                "length ((got @ d) @ d') \<le> len" "n = - 1 \<or> n = int len \<and> length ((got @ d) @ d') = len"
              using IH [of "got @ d" s1 x] eq ok1 by blast
            then show ?thesis
            proof cases
              case (2 n d')
              then show ?thesis using d(2) by (intro disjI2 exI [of _ n] exI [of _ "d @ d'"]) simp
            qed simp
          qed
        next
          case (RecvError e)
          then have same: "unread s1 = unread s" using read_error [OF ok] y by auto
          show ?thesis
          proof (cases "e = WSA_IO_PENDING \<or> e = WSAEWOULDBLOCK")
            case True
            then have m: "(case select_loop sel s1 of None \<Rightarrow> None | Some (err, s) \<Rightarrow>
                if err \<noteq> 1 then Some (Inr (- 1, got), s) else loop rd sel len got s) = Some x"
              using step(2) False y(1) RecvError eq by auto
            then obtain err s2 where sel: "select_loop sel s1 = Some (err, s2)"
              by (auto split: option.splits)
            have keep2: "unread s2 = unread s" "valid s2"
              using select_loop_keeps [where f = unread, OF sel keep(1)] same
                select_loop_keeps [where f = valid, OF sel keep(2)] ok1 by simp_all
            show ?thesis
            proof (cases "err = 1")
              case True
              then have "loop rd' sel' len got s2 = Some x" using m sel eq by simp
              from IH [OF this keep2(2) got] keep2(1) show ?thesis by auto
            next
              case False
              then show ?thesis using m sel keep2(1) got by auto
            qed
          next
            case False
            then show ?thesis using step(2) \<open>length got \<noteq> len\<close> y(1) RecvError eq same got by auto
          qed
        next
          case RecvUndefined
          then show ?thesis using y by simp
        qed
        qed
      qed
    qed
  qed
  from this [OF assms(1)] assms(3-5) show ?thesis by simp
qed

end


section \<open>Connections\<close>

definition win_socket_keeps :: "'w win_socket_os \<Rightarrow> ('w, 'o) ref \<Rightarrow> bool" where
  "win_socket_keeps so this \<longleftrightarrow> ref_laws this \<and> (\<forall>sock. keeps this (wso_shutdown so sock)) \<and>
     (\<forall>sock. keeps this (wso_closesocket so sock))"

section \<open>A concrete host\<close>

text \<open>
  What was sent, what is to be received, the hard failures of \<open>send\<close> to come, which are also the times to wait until it is
  received, and a connection.
\<close>

record ws_world =
  sw_sent :: bytes
  sw_incoming :: bytes
  sw_failures :: nat
  sw_socket :: "unit WinSocketNonblocking"

definition demo_ws_wsa :: "ws_world wsa_os" where
  "demo_ws_wsa = \<lparr>wsa_recv = (\<lambda>h n m w. if sw_incoming w = [] \<or> 0 < sw_failures w then (Inl WSAEWOULDBLOCK, w)
       else (Inr (take (n + m) (sw_incoming w)), w\<lparr>sw_incoming := drop (n + m) (sw_incoming w)\<rparr>)),
     wsa_signal = (\<lambda>h ov w. (Inl WSA_IO_PENDING, ov\<lparr>ov_Internal := STATUS_PENDING\<rparr>, w))\<rparr>"

definition demo_ws :: "ws_world win_socket_os" where
  "demo_ws = \<lparr>wso_startup = (\<lambda>w. (0, w)), wso_create_event = (\<lambda>w. (60, w)), wso_close_event = (\<lambda>h w. (True, w)),
     wso_ioctl_nonblock = (\<lambda>h w. (0, w)), wso_nodelay = (\<lambda>h w. (0, w)), wso_keepalive = (\<lambda>h a b w. (0, w)),
     wso_getaddrinfo = (\<lambda>a p w. (None, w)), wso_socket = (\<lambda>d w. (100, w)), wso_connect = (\<lambda>h a w. (Inr (), w)),
     wso_select_write = (\<lambda>h t w. (Inr 1, w)),
     wso_select_read = (\<lambda>h t (ov, w). (if sw_incoming w = [] then Inl 10038 else Inr 1, ov\<lparr>ov_Internal := 0\<rparr>,
       w\<lparr>sw_failures := sw_failures w - 1\<rparr>)),
     wso_error = (\<lambda>h w. (0, w)),
     wso_send = (\<lambda>h b w. if 0 < sw_failures w then (Inl 10055, w\<lparr>sw_failures := sw_failures w - 1\<rparr>)
       else (Inr (length b), w\<lparr>sw_sent := sw_sent w @ b\<rparr>)),
     wso_wsasend = (\<lambda>h bs w. (Inr (min 1 (length (concat bs))), w\<lparr>sw_sent := sw_sent w @ take 1 (concat bs)\<rparr>)),
     wso_shutdown = (\<lambda>h w. (0, w)), wso_closesocket = (\<lambda>h w. (0, w)), wso_getpeername = (\<lambda>h w. (None, w)),
     wso_getnameinfo = (\<lambda>a w. (None, w)), wso_wsa = demo_ws_wsa\<rparr>"

text \<open>The same host where nothing fails.\<close>

definition calm_ws :: "ws_world win_socket_os" where
  "calm_ws = demo_ws\<lparr>wso_send := (\<lambda>h b w. (Inr (length b), w\<lparr>sw_sent := sw_sent w @ b\<rparr>))\<rparr>"

definition ws_start :: "bytes \<Rightarrow> nat \<Rightarrow> ws_world" where
  "ws_start incoming failures = \<lparr>sw_sent = [], sw_incoming = incoming, sw_failures = failures,
     sw_socket = \<lparr>ws_event = \<lparr>completionPort = 7,
       overlapped = \<lparr>ov_Internal = 0, ov_InternalHigh = 0, ov_hEvent = 60\<rparr>, fileHandle = 100\<rparr>,
       ws_bufferedReader = fresh_reader, ws_inDataHandler = None\<rparr>\<rparr>"

definition the_connection :: "(ws_world, unit WinSocketNonblocking) ref" where
  "the_connection = \<lparr>deref = sw_socket, assign = (\<lambda>c. sw_socket_update (\<lambda>_. c))\<rparr>"

lemma demo_ws_laws:
  "win_send_laws demo_ws sock sw_sent" "win_send_laws calm_ws sock sw_sent" "win_send_retries calm_ws sock"
  "readv_laws (wsa_readv (wso_wsa demo_ws) sock) fd (\<lambda>(ov, w). sw_incoming w)"
  by (auto simp: win_send_laws_def win_send_retries_def calm_ws_def demo_ws_def readv_laws_def wsa_readv_def
      demo_ws_wsa_def min_def split: if_splits)

section \<open>Properties\<close>

text \<open>
  Claim C22: on a connection that stays alive, \<open>sendBlocks\<close> returns the number of all bytes after having sent all
  blocks, in order and without gaps, or -1 after having sent only a proper prefix of them, unless \<open>WSASend\<close> fails with an
  error that is not retried: then nothing was sent, and the result is the positive error code.
\<close>

theorem win_sendBlocks_sends:
  assumes "win_send_laws so sock sent" and "win_send_retries so sock"
    and "win_sendBlocks so sock blocks w = Some (Inr r, w')"
  shows "if isl (fst (wso_wsasend so sock blocks w)) \<and> \<not> retried (projl (fst (wso_wsasend so sock blocks w)))
    then r = projl (fst (wso_wsasend so sock blocks w)) \<and> sent w' = sent w
    else r = int (length (concat blocks)) \<and> sent w' = sent w @ concat blocks \<or>
      r = - 1 \<and> (\<exists>k < length (concat blocks). sent w' = sent w @ take k (concat blocks))"
proof -
  obtain x w1 where x: "wso_wsasend so sock blocks w = (x, w1)" by fastforce
  have ne: "blocks \<noteq> []" using assms(3) by (auto simp: win_sendBlocks_def)
  have loop: "r = int (length (concat blocks)) \<and> sent w' = sent w @ concat blocks \<or>
      r = - 1 \<and> (\<exists>k < length (concat blocks). sent w' = sent w @ take k (concat blocks))"
    if l: "win_sendBlocks_loop so sock blocks 0 n w1 = Some (r, w')" "n \<le> length (concat blocks)"
      "sent w1 = sent w @ take n (concat blocks)" for n
  proof -
    consider "r = int (length (concat blocks))" "sent w' = sent w1 @ drop n (concat blocks)"
      | k where "r = - 1" "k < length (concat blocks) - n" "sent w' = sent w1 @ take k (drop n (concat blocks))"
      using win_sendBlocks_loop_sends [OF assms(1,2) _ _ l(1)] l(2) by auto
    then show ?thesis
    proof cases
      case 1
      then show ?thesis using l(3) by simp
    next
      case (2 k)
      then show ?thesis using l(3) by (intro disjI2 conjI exI [of _ "n + k"]) (auto simp: take_add)
    qed
  qed
  show ?thesis
  proof (cases x)
    case (Inr n)
    then have n: "n \<le> length (concat blocks)" "sent w1 = sent w @ take n (concat blocks)"
      using assms(1) x by (auto simp: win_send_laws_def)
    show ?thesis
      using assms(3) ne x Inr n loop [of n] by (auto simp: win_sendBlocks_def total_length split: if_splits)
  next
    case (Inl e)
    then have same: "sent w1 = sent w" using assms(1) x unfolding win_send_laws_def by blast
    show ?thesis
      using assms(3) ne x Inl same loop [of 0]
      by (auto simp: win_sendBlocks_def total_length retried_def split: if_splits)
  qed
qed

theorem win_sendBlocks_sends_witness:
  "\<exists>w'. win_sendBlocks calm_ws 100 [[1, 2], [3]] (ws_start [] 0) = Some (Inr 3, w') \<and> sw_sent w' = [1, 2, 3]"
proof -
  obtain w' where w': "win_sendBlocks calm_ws 100 [[1, 2], [3]] (ws_start [] 0) = Some (Inr 3, w')"
    by (simp add: win_sendBlocks_def win_sendBlock_def win_sendBlock_loop.simps calm_ws_def demo_ws_def ws_start_def)
  have "\<not> isl (fst (wso_wsasend calm_ws 100 [[1, 2], [3]] (ws_start [] 0)))"
    by (simp add: calm_ws_def demo_ws_def)
  with win_sendBlocks_sends [OF demo_ws_laws(2,3) w'] have "sw_sent w' = sw_sent (ws_start [] 0) @ concat [[1, 2], [3]]"
    by simp
  then show ?thesis using w' by (simp add: ws_start_def)
qed

text \<open>An error that is not retried: \<open>sendBlock\<close> returns the size of the block although nothing was sent.\<close>

lemma win_sendBlock_hides_error:
  assumes "b \<noteq> []" and "wso_send so sock b w = (Inl e, w')" and "\<not> retried e"
  shows "win_sendBlock so sock b w = Some (int (length b), w')"
  using assms by (simp add: win_sendBlock_def win_sendBlock_loop.simps [of so sock b] retried_def)

text \<open>
  Claim C33: an error in the middle is hidden. When the rest of the first block cannot be sent, \<open>sendBlocks\<close> goes on with the
  second one and reports that everything was sent: the receiver gets a stream with a gap.
\<close>

theorem win_sendBlocks_loses_data:
  assumes "win_send_laws so sock sent" and "wso_wsasend so sock [a, b] w = (Inr n, w1)" and "n < length a"
    and "wso_send so sock (drop n a) w1 = (Inl e, w2)" and "\<not> retried e"
    and "wso_send so sock b w2 = (Inr (length b), w3)" and "b \<noteq> []"
  shows "win_sendBlocks so sock [a, b] w = Some (Inr (int (length a + length b)), w3) \<and>
    sent w3 = sent w @ take n a @ b"
proof -
  have first: "win_sendBlock so sock (drop n a) w1 = Some (int (length a - n), w2)"
    using win_sendBlock_hides_error [OF _ assms(4,5)] assms(3) by simp
  have second: "win_sendBlock so sock b w2 = Some (int (length b), w3)"
    using assms(6,7) by (simp add: win_sendBlock_def win_sendBlock_loop.simps [of so sock b]
        win_sendBlock_loop.simps [of so sock "[]"])
  have "sent w1 = sent w @ take n a" "sent w2 = sent w1" "sent w3 = sent w2 @ b"
    using assms(1-4,6) unfolding win_send_laws_def by (fastforce, blast, fastforce)
  moreover have "win_sendBlocks so sock [a, b] w = Some (Inr (int (length a + length b)), w3)"
  proof -
    have "n + nat (int (length a) - int n) = length a" using assms(3) by simp
    then show ?thesis using assms(2,3,7) first second by (simp add: win_sendBlocks_def Let_def)
  qed
  ultimately show ?thesis by simp
qed

theorem win_sendBlocks_loses_data_witness:
  "\<exists>w'. win_sendBlocks demo_ws 100 [[1, 2], [3, 4]] (ws_start [] 1) = Some (Inr 4, w') \<and> sw_sent w' = [1, 3, 4]"
proof -
  let ?w1 = "(ws_start [] 1)\<lparr>sw_sent := [1]\<rparr>"
  let ?w2 = "?w1\<lparr>sw_failures := 0\<rparr>"
  have "win_sendBlocks demo_ws 100 [[1, 2], [3, 4]] (ws_start [] 1) =
      Some (Inr (int (length [1, 2 :: 8 word] + length [3, 4 :: 8 word])), ?w2\<lparr>sw_sent := [1, 3, 4]\<rparr>) \<and>
      sw_sent (?w2\<lparr>sw_sent := [1, 3, 4]\<rparr>) = sw_sent (ws_start [] 1) @ take 1 [1, 2] @ [3, 4]"
    by (rule win_sendBlocks_loses_data [OF demo_ws_laws(1), where n = 1 and w = "ws_start [] 1" and ?w1.0 = ?w1 and ?w2.0 = ?w2
          and e = 10055])
      (simp_all add: demo_ws_def ws_start_def retried_def wsa_errors)
  then show ?thesis by simp
qed



text \<open>
  Claim C34: waiting for data does not end when \<open>select\<close> keeps failing with anything but an interrupt (the condition of the
  loop is the wrong way round): \<open>receiveComplete\<close> on a socket that is not valid any more does not return.
\<close>

theorem win_receiveComplete_spins:
  assumes "0 < len" and "win_recv (wso_wsa so) len s = (RecvError e, s1)" and "e = WSA_IO_PENDING \<or> e = WSAEWOULDBLOCK"
    and "\<forall>sock t s. \<exists>e s'. wso_select_read so sock t s = (Inl e, s') \<and> e \<noteq> WSAEINTR"
  shows "win_receiveComplete so len msTimeout s = None"
proof -
  have "\<exists>e s'. win_select_in so msTimeout s = (Inl e, s') \<and> e \<noteq> WSAEINTR" for s
  proof -
    obtain ev r w where s: "s = (ev, r, w)" by (cases s)
    obtain e s' where "wso_select_read so (fileHandle ev) (if 0 \<le> msTimeout then Some msTimeout else None)
        (overlapped ev, w) = (Inl e, s')" "e \<noteq> WSAEINTR" using assms(4) by blast
    then show ?thesis by (simp add: win_select_in_def s split_beta)
  qed
  then have "select_loop (win_select_in so msTimeout) s1 = None" by (rule select_loop_spins)
  then show ?thesis
    using assms(1-3) by (auto simp: win_receiveComplete_def win_receive_loop.simps [where len = len and got = "[]"])
qed

definition dead_ws :: "ws_world win_socket_os" where
  "dead_ws = demo_ws\<lparr>wso_select_read := (\<lambda>h t (ov, w). (Inl 10038, ov, w))\<rparr>"

theorem win_receiveComplete_spins_witness:
  "win_receiveComplete dead_ws 3 1000 (win_event_ctor, fresh_reader, ws_start [] 0) = None"
proof -
  obtain s where s: "win_recv (wso_wsa dead_ws) 3 (win_event_ctor, fresh_reader, ws_start [] 0) = (RecvError WSA_IO_PENDING, s)"
    by (simp add: win_recv_def size_minus_def fresh_reader_def BufferedReader_ctor_def dead_ws_def demo_ws_def demo_ws_wsa_def
        ws_start_def win_event_ctor_def STATUS_PENDING_def)
  show ?thesis
    by (rule win_receiveComplete_spins [OF _ s]) (simp_all add: dead_ws_def split_beta wsa_errors)
qed

text \<open>
  \<open>disconnect\<close> leaves no handler under the event of the connection, keeps all others, and resets the handle of the
  object and nothing else of it, so that a second \<open>disconnect\<close> cannot close a socket of someone else.
\<close>

theorem win_disconnect_unregisters:
  assumes "win_socket_keeps so this"
  shows "map_of (m_handlers (win_disconnect so this s)) =
      (map_of (m_handlers s))(hEvent (ws_event (wobj this s)) := None) \<and>
    wobj this (win_disconnect so this s) =
      (wobj this s)\<lparr>ws_event := (ws_event (wobj this s))\<lparr>fileHandle := INVALID_HANDLE_VALUE\<rparr>\<rparr>"
proof -
  have laws: "ref_laws this" "keeps this (wso_shutdown so sock)" "keeps this (wso_closesocket so sock)" for sock
    using assms by (simp_all add: win_socket_keeps_def)
  have e: "wobj this (snd (win_eraseEvent (ws_event (wobj this s)) s)) = wobj this s" by (simp add: wobj_def)
  show ?thesis
    by (simp add: win_disconnect_def split_beta Let_def wobj_wset [OF laws(1)] wobj_wsys [OF laws(2)] wobj_wsys [OF laws(3)] e)
qed

theorem win_disconnect_unregisters_witness:
  "map_of (m_handlers (win_disconnect demo_ws the_connection \<lparr>m_completionPort = 7, m_hEventLog = 8,
     m_handlers = [(60, 1 :: nat), (64, 2)], wworld = ws_start [] 0\<rparr>)) = [64 \<mapsto> 2]"
proof -
  have "win_socket_keeps demo_ws the_connection"
    by (simp add: win_socket_keeps_def ref_laws_def keeps_def the_connection_def demo_ws_def)
  from win_disconnect_unregisters [OF this, of "\<lparr>m_completionPort = 7, m_hEventLog = 8,
     m_handlers = [(60, 1 :: nat), (64, 2)], wworld = ws_start [] 0\<rparr>"]
  show ?thesis by (simp add: wobj_def the_connection_def ws_start_def fun_eq_iff)
qed

end
