(* ===== verification/WinTcpServer.thy ===== *)
theory WinTcpServer
  imports WinSocketBehaviour TcpServer
begin

text \<open>
  \<open>lib/communication/windows/tcpserver.cpp\<close>: listening with \<open>AcceptEx\<close>. A socket is prepared for the next client; the
  completion of the accept operation calls \<open>process\<close>, which wraps the socket, hands it to the user and prepares the next
  one. The new object is placed in the world by \<open>wts_new\<close>.
\<close>

section \<open>The data and operations\<close>

text \<open>\<open>wts_get_acceptex\<close> is the \<open>WSAIoctl\<close> that looks \<open>AcceptEx\<close> up; \<open>wts_acceptex\<close> changes the \<open>OVERLAPPED\<close> it is given.\<close>

record ('w, 'd) win_tcp_os =
  wts_socket :: "nat \<Rightarrow> 'w \<Rightarrow> handle \<times> 'w"
  wts_get_acceptex :: "handle \<Rightarrow> 'w \<Rightarrow> int \<times> 'w"
  wts_bind :: "handle \<Rightarrow> sock_addr \<Rightarrow> 'w \<Rightarrow> int \<times> 'w"
  wts_ioctl_nonblock :: "handle \<Rightarrow> 'w \<Rightarrow> int \<times> 'w"
  wts_listen :: "handle \<Rightarrow> int \<Rightarrow> 'w \<Rightarrow> int \<times> 'w"
  wts_acceptex :: "handle \<Rightarrow> handle \<Rightarrow> overlapped \<Rightarrow> 'w \<Rightarrow> (int + unit) \<times> overlapped \<times> 'w"
  wts_closesocket :: "handle \<Rightarrow> 'w \<Rightarrow> int \<times> 'w"
  wts_new :: "'w \<Rightarrow> (('w, 'd WinSocketNonblocking) ref \<times> bytes) \<times> 'w"

record 'c WinTcpServer =
  wts_listeningEvent :: win_event
  wts_acceptSocket :: handle
  wts_acceptCb :: "'c option"

type_synonym ('c, 'd, 'h, 'w) win_accept_cb =
  "'c \<Rightarrow> ('w, 'd WinSocketNonblocking) ref \<Rightarrow> ('h, 'w) WinEventLoop \<Rightarrow> outcome \<times> ('h, 'w) WinEventLoop"

definition INVALID_SOCKET :: handle where "INVALID_SOCKET = - 1"

definition win_TcpServer_ctor :: "'w win_socket_os \<Rightarrow> ('w, 'c WinTcpServer) ref \<Rightarrow> ('h, 'w) WinEventLoop \<Rightarrow>
    ('h, 'w) WinEventLoop" where
  "win_TcpServer_ctor so this s =
     (let (event, s) = win_connection_event so s
      in wset this \<lparr>wts_listeningEvent = event, wts_acceptSocket = INVALID_SOCKET, wts_acceptCb = None\<rparr> s)"

definition win_prepareAccept :: "('w, 'd) win_tcp_os \<Rightarrow> ('w, 'c WinTcpServer) ref \<Rightarrow> ('h, 'w) WinEventLoop \<Rightarrow>
    int \<times> ('h, 'w) WinEventLoop" where
  "win_prepareAccept ts this s =
     (let (socket, s) = wsys (wts_socket ts AF_INET) s;
          s = wset this ((wobj this s)\<lparr>wts_acceptSocket := socket\<rparr>) s;
          event = wts_listeningEvent (wobj this s);
          ((result, ov), s) = wsys (\<lambda>w. case wts_acceptex ts (fileHandle event) socket (overlapped event) w of
                                          (x, ov, w) \<Rightarrow> ((x, ov), w)) s;
          s = wset this ((wobj this s)\<lparr>wts_listeningEvent := event\<lparr>overlapped := ov\<rparr>\<rparr>) s in
      case result of
        Inl lastError \<Rightarrow> (if lastError = WSA_IO_PENDING then 0 else - 1, s)
      | Inr _ \<Rightarrow> (0, s))"

text \<open>\<open>SOCKADDR_IN\<close> behind its family: port in network order, \<open>INADDR_ANY\<close>, padding.\<close>

definition sockaddr_in_any :: "16 word \<Rightarrow> sock_addr" where
  "sockaddr_in_any port = \<lparr>addr_family = AF_INET,
     addr_data = [ucast (drop_bit 8 port), ucast port] @ replicate 4 0 @ replicate 8 0\<rparr>"

text \<open>\<open>h\<close> is \<open>std::bind(&TcpServer::process, std::ref(*this))\<close>.\<close>

definition win_TcpServer_start :: "('w, 'd) win_tcp_os \<Rightarrow> 'w iocp_os \<Rightarrow> 'h \<Rightarrow> 16 word \<Rightarrow> int \<Rightarrow> 'c option \<Rightarrow>
    ('w, 'c WinTcpServer) ref \<Rightarrow> ('h, 'w) WinEventLoop \<Rightarrow> int \<times> ('h, 'w) WinEventLoop" where
  "win_TcpServer_start ts os h port backlog acceptCb this s =
     (let (sock, s) = wsys (wts_socket ts AF_INET) s;
          s = wset this ((wobj this s)\<lparr>wts_listeningEvent := (wts_listeningEvent (wobj this s))\<lparr>fileHandle := sock\<rparr>\<rparr>) s;
          (status, s) = wsys (wts_get_acceptex ts sock) s in
      if status \<noteq> 0 then (- 1, s)
      else let (r, s) = wsys (wts_bind ts sock (sockaddr_in_any port)) s in
        if r = - 1 then (- 1, s)
        else let (r, s) = wsys (wts_ioctl_nonblock ts sock) s in
          if r = - 1 then (- 1, s)
          else let s = wset this ((wobj this s)\<lparr>wts_acceptCb := acceptCb\<rparr>) s;
                   (r, s) = wsys (wts_listen ts sock backlog) s in
            if r = - 1 then (- 1, s)
            else let (r, s) = win_prepareAccept ts this s in
              if r = - 1 then (- 1, s)
              else win_addEvent os (wts_listeningEvent (wobj this s)) (Some h) s)"

definition win_TcpServer_stop :: "('w, 'd) win_tcp_os \<Rightarrow> ('w, 'c WinTcpServer) ref \<Rightarrow> ('h, 'w) WinEventLoop \<Rightarrow>
    ('h, 'w) WinEventLoop" where
  "win_TcpServer_stop ts this s =
     (let (_, s) = win_eraseEvent (wts_listeningEvent (wobj this s)) s
      in snd (wsys (wts_closesocket ts (fileHandle (wts_listeningEvent (wobj this s)))) s))"

definition win_TcpServer_dtor :: "('w, 'd) win_tcp_os \<Rightarrow> 'w win_socket_os \<Rightarrow> ('w, 'c WinTcpServer) ref \<Rightarrow>
    ('h, 'w) WinEventLoop \<Rightarrow> ('h, 'w) WinEventLoop" where
  "win_TcpServer_dtor ts so this s =
     (let s = win_TcpServer_stop ts this s
      in snd (wsys (wso_close_event so (hEvent (wts_listeningEvent (wobj this s)))) s))"

text \<open>The socket is passed to the constructor as an \<open>int\<close>.\<close>

definition win_acceptClient :: "('w, 'd) win_tcp_os \<Rightarrow> 'w win_socket_os \<Rightarrow> ('w, 'c WinTcpServer) ref \<Rightarrow>
    ('h, 'w) WinEventLoop \<Rightarrow> (outcome \<times> ('w, 'd WinSocketNonblocking) ref) \<times> ('h, 'w) WinEventLoop" where
  "win_acceptClient ts so this s =
     (let ((client, uninit), s) = wsys (wts_new ts) s;
          (r, s) = win_SocketNonblocking_ctor_fd so uninit (ucast (wts_acceptSocket (wobj this s))) client s
      in ((r, client), s))"

text \<open>Without a callback the pointer still owns the connection at the end, which is then destroyed.\<close>

definition win_TcpServer_process :: "('w, 'd) win_tcp_os \<Rightarrow> 'w win_socket_os \<Rightarrow> ('c, 'd, 'h, 'w) win_accept_cb \<Rightarrow>
    ('w, 'c WinTcpServer) ref \<Rightarrow> ('h, 'w) WinEventLoop \<Rightarrow> outcome \<times> ('h, 'w) WinEventLoop" where
  "win_TcpServer_process ts so user this s =
     (case win_acceptClient ts so this s of
        ((Throw ex, worker), s) \<Rightarrow> (Throw ex, s)
      | ((Ret _, worker), s) \<Rightarrow>
          (case wts_acceptCb (wobj this s) of
             None \<Rightarrow>
               (let (_, s) = win_prepareAccept ts this s in (Ret 0, win_SocketNonblocking_dtor so worker s))
           | Some c \<Rightarrow>
               (case user c worker s of
                  (Throw ex, s) \<Rightarrow> (Throw ex, s)
                | (Ret _, s) \<Rightarrow> (let (_, s) = win_prepareAccept ts this s in (Ret 0, s)))))"

section \<open>Accepting\<close>

text \<open>The socket of the next client, as the constructor of the connection gets it through the type \<open>int\<close>.\<close>

abbreviation accepted_handle :: "'c WinTcpServer \<Rightarrow> handle" where
  "accepted_handle sv \<equiv> scast (ucast (wts_acceptSocket sv) :: 32 word)"

text \<open>What the construction of a connection leaves alone.\<close>

definition construction_keeps :: "('w, 'd) win_tcp_os \<Rightarrow> 'w win_socket_os \<Rightarrow> ('w \<Rightarrow> 'a) \<Rightarrow> bool" where
  "construction_keeps ts so obs \<longleftrightarrow>
     (\<forall>w. obs (snd (wts_new ts w)) = obs w) \<and>
     (\<forall>v w ob. obs (assign (fst (fst (wts_new ts v))) ob w) = obs w) \<and>
     (\<forall>w. obs (snd (wso_startup so w)) = obs w) \<and> (\<forall>w. obs (snd (wso_create_event so w)) = obs w) \<and>
     (\<forall>sock w. obs (snd (wso_ioctl_nonblock so sock w)) = obs w) \<and>
     (\<forall>sock w. obs (snd (wso_nodelay so sock w)) = obs w) \<and>
     (\<forall>sock i t w. obs (snd (wso_keepalive so sock i t w)) = obs w)"

text \<open>The number of \<open>AcceptEx\<close> operations ordered so far: only \<open>AcceptEx\<close> changes it.\<close>

definition counts_accepts :: "('w, 'd) win_tcp_os \<Rightarrow> 'w win_socket_os \<Rightarrow> 'w iocp_os \<Rightarrow> ('w \<Rightarrow> nat) \<Rightarrow> bool" where
  "counts_accepts ts so os ordered \<longleftrightarrow> construction_keeps ts so ordered \<and>
     (\<forall>fd sock ov w. ordered (snd (snd (wts_acceptex ts fd sock ov w))) = Suc (ordered w)) \<and>
     (\<forall>port w. ordered (snd (io_get_status os port w)) = ordered w)"

lemma win_setSocketOptions_keeps:
  "construction_keeps ts so obs \<Longrightarrow> obs (snd (win_setSocketOptions so sock w)) = obs w"
  by (simp add: win_setSocketOptions_def construction_keeps_def split_beta)

lemma win_acceptClient_keeps:
  assumes "construction_keeps ts so obs"
  shows "obs (wworld (snd (win_acceptClient ts so this s))) = obs (wworld s)"
    "m_handlers (snd (win_acceptClient ts so this s)) = m_handlers s"
  using assms win_setSocketOptions_keeps [OF assms]
  by (simp_all add: win_acceptClient_def win_SocketNonblocking_ctor_fd_def win_connection_event_def split_beta Let_def
      construction_keeps_def wset_def)

text \<open>When any option of the accepted socket cannot be set, the constructor throws.\<close>

lemma win_process_throws:
  assumes "construction_keeps ts so (deref this)"
    and "\<And>w. fst (win_setSocketOptions so (accepted_handle (wobj this s)) w) < 0"
  shows "win_TcpServer_process ts so user this s =
    (Throw (RuntimeError ''error setting socket options''), snd (win_acceptClient ts so this s))"
proof -
  have "wobj this (snd (wsys (wts_new ts) s)) = wobj this s"
    using assms(1) by (simp add: wobj_def construction_keeps_def)
  then have "fst (fst (win_acceptClient ts so this s)) = Throw (RuntimeError ''error setting socket options'')"
    using assms(2) by (simp add: win_acceptClient_def win_SocketNonblocking_ctor_fd_def split_beta Let_def)
  then show ?thesis by (simp add: win_TcpServer_process_def split_beta)
qed

section \<open>A concrete server\<close>

record server_world =
  sv_port :: port_world
  sv_server :: "unit WinTcpServer"
  sv_client :: "unit WinSocketNonblocking"
  sv_accepts :: nat

definition sv_iocp :: "server_world iocp_os" where
  "sv_iocp = \<lparr>io_create_port = (\<lambda>w. (7, w)), io_register_source = (\<lambda>w. (8, w)),
     io_deregister_source = (\<lambda>h w. (True, w)), io_close_handle = (\<lambda>h w. (True, w)),
     io_associate = (\<lambda>f p k w. (Inr (), w)),
     io_get_status = (\<lambda>p w. case io_get_status demo_iocp p (sv_port w) of (c, q) \<Rightarrow> (c, w\<lparr>sv_port := q\<rparr>)),
     io_post = (\<lambda>p k w. case io_post demo_iocp p k (sv_port w) of (c, q) \<Rightarrow> (c, w\<lparr>sv_port := q\<rparr>)),
     io_report = (\<lambda>l t w. (True, w))\<rparr>"

definition sv_sockets :: "server_world win_socket_os" where
  "sv_sockets = \<lparr>wso_startup = (\<lambda>w. (0, w)), wso_create_event = (\<lambda>w. (60, w)), wso_close_event = (\<lambda>h w. (True, w)),
     wso_ioctl_nonblock = (\<lambda>h w. (0, w)), wso_nodelay = (\<lambda>h w. (0, w)), wso_keepalive = (\<lambda>h a b w. (- 1, w)),
     wso_getaddrinfo = (\<lambda>a p w. (None, w)), wso_socket = (\<lambda>d w. (100, w)), wso_connect = (\<lambda>h a w. (Inr (), w)),
     wso_select_write = (\<lambda>h t w. (Inr 1, w)), wso_select_read = (\<lambda>h t s. (Inr 1, s)), wso_error = (\<lambda>h w. (0, w)),
     wso_send = (\<lambda>h b w. (Inr (length b), w)), wso_wsasend = (\<lambda>h bs w. (Inr 0, w)), wso_shutdown = (\<lambda>h w. (0, w)),
     wso_closesocket = (\<lambda>h w. (0, w)), wso_getpeername = (\<lambda>h w. (None, w)), wso_getnameinfo = (\<lambda>a w. (None, w)),
     wso_wsa = \<lparr>wsa_recv = (\<lambda>h n m w. (Inl WSAEWOULDBLOCK, w)), wsa_signal = (\<lambda>h ov w. (Inl WSA_IO_PENDING, ov, w))\<rparr>\<rparr>"

definition sv_tcp :: "(server_world, unit) win_tcp_os" where
  "sv_tcp = \<lparr>wts_socket = (\<lambda>d w. (104, w)), wts_get_acceptex = (\<lambda>h w. (0, w)), wts_bind = (\<lambda>h a w. (0, w)),
     wts_ioctl_nonblock = (\<lambda>h w. (0, w)), wts_listen = (\<lambda>h n w. (0, w)),
     wts_acceptex = (\<lambda>h a ov w. (Inl WSA_IO_PENDING, ov, w\<lparr>sv_accepts := Suc (sv_accepts w)\<rparr>)), wts_closesocket = (\<lambda>h w. (0, w)),
     wts_new = (\<lambda>w. ((\<lparr>deref = sv_client, assign = (\<lambda>c. sv_client_update (\<lambda>_. c))\<rparr>, []), w))\<rparr>"

definition the_server :: "(server_world, unit WinTcpServer) ref" where
  "the_server = \<lparr>deref = sv_server, assign = (\<lambda>c. sv_server_update (\<lambda>_. c))\<rparr>"

definition sv_loop :: "(nat, server_world) WinEventLoop" where
  "sv_loop = \<lparr>m_completionPort = 7, m_hEventLog = 8, m_handlers = [(60, 1)],
     wworld = \<lparr>sv_port = \<lparr>pw_queue = [Completed 60, Completed 64], pw_calls = [], pw_keys = [], pw_work = 0\<rparr>,
       sv_server = \<lparr>wts_listeningEvent = win_event_ctor, wts_acceptSocket = 100, wts_acceptCb = None\<rparr>,
       sv_client = \<lparr>ws_event = win_event_ctor, ws_bufferedReader = fresh_reader, ws_inDataHandler = None\<rparr>,
       sv_accepts = 1\<rparr>\<rparr>"

section \<open>Properties\<close>

text \<open>
  Claim C38: the exception of the constructor of an accepted connection leaves \<open>execute\<close>: a client whose socket does not
  take one of its options any more, because it is gone, ends the event loop with all its other clients: the completions
  behind it stay in the queue, and no further \<open>AcceptEx\<close> is ordered although the server stays registered. The Linux loop
  catches what handlers throw.
\<close>

theorem win_accept_error_ends_loop:
  assumes "port_laws os (m_completionPort s) queue" and "m_completionPort s \<noteq> 0"
    and "queue (wworld s) = Completed k # rest" and "k \<noteq> WSA_INVALID_EVENT" and "map_of (m_handlers s) k = Some h"
    and "run h = win_TcpServer_process ts so user this"
    and "construction_keeps ts so queue" and "construction_keeps ts so (deref this)" and "counts_accepts ts so os ordered"
    and "\<forall>port w. deref this (snd (io_get_status os port w)) = deref this w"
    and "\<forall>w. fst (win_setSocketOptions so (accepted_handle (wobj this s)) w) < 0"
  shows "\<exists>s'. win_execute os run s = Some (Throw (RuntimeError ''error setting socket options''), s') \<and>
    ordered (wworld s') = ordered (wworld s) \<and> queue (wworld s') = rest \<and> map_of (m_handlers s') k = Some h"
proof -
  define s1 where "s1 = snd (wsys (io_get_status os (m_completionPort s)) s)"
  have unchanged: "m_handlers s1 = m_handlers s" "wobj this s1 = wobj this s" "ordered (wworld s1) = ordered (wworld s)"
    using assms(9,10) by (simp_all add: s1_def wobj_def counts_accepts_def)
  let ?s2 = "snd (win_acceptClient ts so this s1)"
  have first: "wsys (io_get_status os (m_completionPort s)) s = (Completed k, s1)" "queue (wworld s1) = rest"
    using port_lawsD(1) [OF assms(1,3)] by (simp_all add: s1_def wsys_def split_beta)
  have "run h s1 = (Throw (RuntimeError ''error setting socket options''), ?s2)"
    using win_process_throws [OF assms(8), of s1 user] assms(6,11) unchanged by simp
  then have "win_dispatch run k 0 s1 = Some (Throw (RuntimeError ''error setting socket options''), ?s2)"
    using assms(5) unchanged by (simp add: win_dispatch.simps [of run k 0 s1])
  then have "win_execute os run s = Some (Throw (RuntimeError ''error setting socket options''), ?s2)"
    using first(1) assms(2,4) by (simp add: win_execute_def win_loop.simps [of os run s])
  moreover have "ordered (wworld ?s2) = ordered (wworld s)"
    using assms(9) win_acceptClient_keeps(1) [of ts so ordered this s1] unchanged by (simp add: counts_accepts_def)
  moreover have "queue (wworld ?s2) = rest" using win_acceptClient_keeps(1) [OF assms(7), of this s1] first(2) by simp
  moreover have "map_of (m_handlers ?s2) k = Some h"
    using win_acceptClient_keeps(2) [OF assms(7), of this s1] assms(5) unchanged by simp
  ultimately show ?thesis by blast
qed

theorem win_accept_error_ends_loop_witness:
  "\<exists>s'. win_execute sv_iocp (\<lambda>h. win_TcpServer_process sv_tcp sv_sockets (\<lambda>c w s. (Ret 0, s)) the_server) sv_loop =
     Some (Throw (RuntimeError ''error setting socket options''), s') \<and> sv_accepts (wworld s') = 1 \<and>
     pw_queue (sv_port (wworld s')) = [Completed 64]"
proof -
  have "\<exists>s'. win_execute sv_iocp (\<lambda>h. win_TcpServer_process sv_tcp sv_sockets (\<lambda>c w s. (Ret 0, s)) the_server) sv_loop =
      Some (Throw (RuntimeError ''error setting socket options''), s') \<and>
      sv_accepts (wworld s') = sv_accepts (wworld sv_loop) \<and> pw_queue (sv_port (wworld s')) = [Completed 64] \<and>
      map_of (m_handlers s') 60 = Some 1"
    by (rule win_accept_error_ends_loop [where queue = "\<lambda>w. pw_queue (sv_port w)" and ts = sv_tcp and so = sv_sockets
          and user = "\<lambda>c w s. (Ret 0, s)" and this = the_server])
      (simp_all add: port_laws_def sv_iocp_def demo_iocp_def sv_loop_def WSA_INVALID_EVENT_def sv_sockets_def sv_tcp_def
        construction_keeps_def counts_accepts_def the_server_def win_setSocketOptions_def)
  then show ?thesis by (auto simp: sv_loop_def)
qed

end
