(* ===== verification/WinNetadapterList.thy ===== *)
theory WinNetadapterList
  imports NetadapterList
begin

text \<open>
  \<open>lib/communication/windows/netadapterlist.cpp\<close> and \<open>netadapter.cpp\<close>: the list of adapters from \<open>GetAdaptersInfo\<close>. Class and
  queries are those of the Linux backend; only \<open>update\<close> differs. The gateways it collects in a local variable are not
  used and left out.
\<close>

section \<open>The update of the list\<close>

definition ERROR_SUCCESS :: int where "ERROR_SUCCESS = 0"
definition ERROR_BUFFER_OVERFLOW :: int where "ERROR_BUFFER_OVERFLOW = 111"

text \<open>An entry of \<open>IP_ADAPTER_INFO\<close>: \<open>ai_current\<close> is \<open>CurrentIpAddress\<close>, \<open>ai_first\<close> the head of \<open>IpAddressList\<close>.\<close>

record adapter_info =
  ai_index :: "32 word"
  ai_length :: "32 word"
  ai_bytes :: "nat \<Rightarrow> 8 word"
  ai_description :: string
  ai_current :: "(string \<times> string) option"
  ai_first :: "string \<times> string"

text \<open>\<open>gai_size\<close> is the result of the call without a buffer, \<open>gai_call\<close> of the one with the buffer, and its list.\<close>

record adapters_env =
  gai_size :: int
  gai_call :: "int \<times> adapter_info list"

definition hex_lower :: "nat \<Rightarrow> char" where
  "hex_lower d = (if d < 10 then char_of (48 + d) else char_of (87 + d))"

text \<open>Two digits with leading zero: \<open>std::hex << std::setw(2) << std::setfill('0')\<close>.\<close>

definition win_hex_byte :: "8 word \<Rightarrow> string" where
  "win_hex_byte b = [hex_lower (unat b div 16), hex_lower (unat b mod 16)]"

fun win_mac_loop :: "8 word list \<Rightarrow> nat \<Rightarrow> string" where
  "win_mac_loop [] i = []"
| "win_mac_loop (b # bs) i = (if i > 0 then '':'' else []) @ win_hex_byte b @ win_mac_loop bs (i + 1)"

definition win_adapter :: "adapter_info \<Rightarrow> Netadapter" where
  "win_adapter pNextAd =
     (let Adapt = Netadapter_ctor\<lparr>m_index := ai_index pNextAd,
            m_macAddress := win_mac_loop (map (ai_bytes pNextAd) [0..<unat (ai_length pNextAd)]) 0\<rparr>;
          (ip, msk) = (case ai_current pNextAd of Some current \<Rightarrow> current | None \<Rightarrow> ai_first pNextAd);
          addressWithNetmask = \<lparr>address = ip, netmask = msk\<rparr>;
          Adapt = (if address addressWithNetmask \<noteq> ''0.0.0.0''
                   then Adapt\<lparr>m_ipv4Addresses := m_ipv4Addresses Adapt @ [addressWithNetmask]\<rparr> else Adapt)
      in Adapt\<lparr>m_name := ai_description pNextAd\<rparr>)"

fun win_update_loop :: "adapter_info list \<Rightarrow> adapters \<Rightarrow> adapters" where
  "win_update_loop [] adapterMap = adapterMap"
| "win_update_loop (pNextAd # rest) adapterMap =
     (let Adapt = win_adapter pNextAd in
      if m_ipv4Addresses Adapt \<noteq> [] \<or> m_ipv6Addresses Adapt \<noteq> []
      then win_update_loop rest (smap_update (ai_index pNextAd) Netadapter_ctor (\<lambda>_. Adapt) adapterMap)
      else win_update_loop rest adapterMap)"

definition win_update :: "adapters_env \<Rightarrow> NetadapterList \<Rightarrow> NetadapterList" where
  "win_update env self =
     (let (erradapt, pAdptInfo) = (if gai_size env = ERROR_BUFFER_OVERFLOW then gai_call env else (gai_size env, [])) in
      if erradapt = ERROR_SUCCESS then self\<lparr>m_adapters := win_update_loop pAdptInfo []\<rparr> else self)"

definition win_NetadapterList_ctor :: "adapters_env \<Rightarrow> NetadapterList" where
  "win_NetadapterList_ctor env = win_update env \<lparr>m_adapters = []\<rparr>"

definition win_getIpv4DefaultGateway :: string where
  "win_getIpv4DefaultGateway = []"

section \<open>What an adapter looks like\<close>

text \<open>
  A listed adapter is stored under its index, has exactly one IPv4 address, which is not \<open>0.0.0.0\<close>, no IPv6 address and no
  FireWire identifier, and its MAC address is a sequence of bytes in hexadecimal digits with colons between.
\<close>

definition mac_text :: "string \<Rightarrow> bool" where
  "mac_text s \<longleftrightarrow> (\<exists>bs. s = join '':'' (map win_hex_byte bs))"

definition win_adapter_ok :: "32 word \<Rightarrow> Netadapter \<Rightarrow> bool" where
  "win_adapter_ok k a \<longleftrightarrow> m_index a = k \<and> length (m_ipv4Addresses a) = 1 \<and>
     address (hd (m_ipv4Addresses a)) \<noteq> ''0.0.0.0'' \<and> m_ipv6Addresses a = [] \<and> m_fwGuid a = 0 \<and>
     mac_text (m_macAddress a)"

definition win_adapters_ok :: "adapters \<Rightarrow> bool" where
  "win_adapters_ok m \<longleftrightarrow> smap_ok m \<and> (\<forall>(k, a) \<in> set m. win_adapter_ok k a)"

lemma win_adapters_ok_indexed: "win_adapters_ok m \<Longrightarrow> indexed m"
  by (auto simp: win_adapters_ok_def win_adapter_ok_def indexed_def)

lemma win_mac_loop_join: "win_mac_loop bs i = (if i > 0 \<and> bs \<noteq> [] then '':'' else []) @ join '':'' (map win_hex_byte bs)"
proof (induction bs arbitrary: i)
  case (Cons b bs)
  then show ?case by (cases bs) simp_all
qed simp

lemma win_mac_text: "mac_text (win_mac_loop bs 0)"
  by (auto simp: mac_text_def win_mac_loop_join)

text \<open>Whether an entry is listed: it has an address.\<close>

definition has_address :: "adapter_info \<Rightarrow> bool" where
  "has_address i \<longleftrightarrow> fst (case ai_current i of Some c \<Rightarrow> c | None \<Rightarrow> ai_first i) \<noteq> ''0.0.0.0''"

lemma win_adapter_fields:
  "m_index (win_adapter i) = ai_index i" "m_ipv6Addresses (win_adapter i) = []" "m_fwGuid (win_adapter i) = 0"
  "m_ipv4Addresses (win_adapter i) \<noteq> [] \<longleftrightarrow> has_address i" "mac_text (m_macAddress (win_adapter i))"
  by (auto simp: win_adapter_def Netadapter_ctor_def has_address_def win_mac_text Let_def split_beta)



text \<open>Under an index stands the last listed entry with it.\<close>

lemma win_update_loop_find:
  "smap_ok m \<Longrightarrow> smap_find (win_update_loop is m) k =
     (let xs = filter (\<lambda>i. has_address i \<and> ai_index i = k) is in
      if xs = [] then smap_find m k else Some (win_adapter (last xs)))"
proof (induction "is" arbitrary: m)
  case (Cons i "is")
  show ?case
  proof (cases "has_address i")
    case True
    then show ?thesis
      using Cons.IH [OF smap_ok_update [OF Cons.prems]] Cons.prems
      by (simp add: win_adapter_fields smap_find_update Let_def)
  next
    case False
    then show ?thesis using Cons by (simp add: win_adapter_fields)
  qed
qed simp

text \<open>The backends disagree about the case of the digits; the header promises upper case.\<close>

lemma mac_digit_case: "hex_byte 0xAB = ''AB'' \<and> win_hex_byte 0xAB = ''ab''"
  by code_simp

section \<open>Properties\<close>


definition two_adapters :: adapters_env where
  "two_adapters = \<lparr>gai_size = 111, gai_call = (0,
     [\<lparr>ai_index = 5, ai_length = 2, ai_bytes = of_nat, ai_description = ''a'', ai_current = None, ai_first = (''10.0.0.1'', ''255.0.0.0'')\<rparr>,
      \<lparr>ai_index = 3, ai_length = 2, ai_bytes = of_nat, ai_description = ''b'', ai_current = None, ai_first = (''0.0.0.0'', ''0.0.0.0'')\<rparr>])\<rparr>"


text \<open>
  After a successful \<open>update\<close> an index is in the list exactly when the system reports it with an address other than
  \<open>0.0.0.0\<close>, and the adapter found is made of the last such report.
\<close>

theorem win_update_adapters:
  assumes "gai_size env = ERROR_BUFFER_OVERFLOW" and "gai_call env = (ERROR_SUCCESS, infos)"
  shows "getAdapterByInterfaceIndex (win_update env l) k =
    (let xs = filter (\<lambda>i. has_address i \<and> ai_index i = k) infos in
     if xs = [] then Inl (HbmException ''invalid interface'') else Inr (win_adapter (last xs)))"
  using win_update_loop_find [of "[]" infos k] assms
  by (simp add: win_update_def getAdapterByInterfaceIndex_def Let_def smap_find_def [of "[]"])

theorem win_update_adapters_witness:
  "getAdapterByInterfaceIndex (win_update two_adapters \<lparr>m_adapters = []\<rparr>) 3 = Inl (HbmException ''invalid interface'')"
  using win_update_adapters [of two_adapters "snd (gai_call two_adapters)" "\<lparr>m_adapters = []\<rparr>" 3]
  by (simp add: two_adapters_def ERROR_BUFFER_OVERFLOW_def ERROR_SUCCESS_def has_address_def)

end
