(* ===== verification/WinNetlink.thy ===== *)
theory WinNetlink
  imports WinEventLoopBehaviour WinBufferedReader WinNetadapterList Netlink
begin

text \<open>
  \<open>lib/communication/windows/netlink.cpp\<close>: notifications about changed addresses. \<open>NotifyAddrChange\<close> is ordered as an
  overlapped operation; its completion updates the list of adapters and tells the user that something happened.
\<close>

section \<open>The data and operations\<close>

text \<open>
  \<open>wnl_notify_change\<close> is \<open>NotifyAddrChange\<close>, which changes the handle and the \<open>OVERLAPPED\<close>; \<open>wnl_env\<close> is what \<open>update\<close> gets
  from the system, \<open>wnl_list\<close> the reference to the list.
\<close>

record 'w win_netlink_os =
  wnl_create_event :: "'w \<Rightarrow> handle \<times> 'w"
  wnl_close_handle :: "handle \<Rightarrow> 'w \<Rightarrow> bool \<times> 'w"
  wnl_notify_change :: "win_event \<Rightarrow> 'w \<Rightarrow> (int \<times> win_event) \<times> 'w"
  wnl_env :: "'w \<Rightarrow> adapters_env \<times> 'w"
  wnl_list :: "('w, NetadapterList) ref"

record 'c WinNetlink =
  wnl_event :: win_event
  wnl_handler :: "'c option"

definition win_Netlink_ctor :: "'w win_netlink_os \<Rightarrow> ('w, 'c WinNetlink) ref \<Rightarrow> ('h, 'w) WinEventLoop \<Rightarrow>
    ('h, 'w) WinEventLoop" where
  "win_Netlink_ctor nl this s =
     (let (event, s) = wsys (wnl_create_event nl) s
      in wset this \<lparr>wnl_event = win_event_ctor\<lparr>overlapped := (overlapped win_event_ctor)\<lparr>ov_hEvent := event\<rparr>\<rparr>,
           wnl_handler = None\<rparr> s)"

definition win_orderNextEvent :: "'w win_netlink_os \<Rightarrow> ('w, 'c WinNetlink) ref \<Rightarrow> ('h, 'w) WinEventLoop \<Rightarrow>
    int \<times> ('h, 'w) WinEventLoop" where
  "win_orderNextEvent nl this s =
     (let event = wnl_event (wobj this s) in
      if ov_Internal (overlapped event) = STATUS_PENDING then (0, s)
      else let ((ret, event), s) = wsys (wnl_notify_change nl event) s;
               s = wset this ((wobj this s)\<lparr>wnl_event := event\<rparr>) s in
        if ret \<noteq> WSA_IO_PENDING then (- 1, s) else (0, s))"

text \<open>Calling the user, when there is a callback.\<close>

definition win_notify_complete :: "('c, ('h, 'w) WinEventLoop) interfaceAddressCb_t \<Rightarrow> ('w, 'c WinNetlink) ref \<Rightarrow>
    ('h, 'w) WinEventLoop \<Rightarrow> outcome \<times> ('h, 'w) WinEventLoop" where
  "win_notify_complete user this s =
     (case wnl_handler (wobj this s) of
        Some c \<Rightarrow> user c COMPLETE 0 [] s
      | None \<Rightarrow> (Ret 0, s))"

definition win_Netlink_process :: "'w win_netlink_os \<Rightarrow> ('c, ('h, 'w) WinEventLoop) interfaceAddressCb_t \<Rightarrow>
    ('w, 'c WinNetlink) ref \<Rightarrow> ('h, 'w) WinEventLoop \<Rightarrow> outcome \<times> ('h, 'w) WinEventLoop" where
  "win_Netlink_process nl user this s =
     (let (env, s) = wsys (wnl_env nl) s;
          s = wset (wnl_list nl) (win_update env (wobj (wnl_list nl) s)) s
      in seq (win_notify_complete user this s) (\<lambda>s. map_prod Ret id (win_orderNextEvent nl this s)))"

definition win_Netlink_start :: "'w win_netlink_os \<Rightarrow> 'w iocp_os \<Rightarrow> ('c, ('h, 'w) WinEventLoop) interfaceAddressCb_t \<Rightarrow>
    'h \<Rightarrow> 'c option \<Rightarrow> ('w, 'c WinNetlink) ref \<Rightarrow> ('h, 'w) WinEventLoop \<Rightarrow> outcome \<times> ('h, 'w) WinEventLoop" where
  "win_Netlink_start nl os user h interfaceAddressEventHandler this s =
     (let s = wset this ((wobj this s)\<lparr>wnl_handler := interfaceAddressEventHandler\<rparr>) s
      in seq (win_notify_complete user this s) (\<lambda>s.
           let (_, s) = win_orderNextEvent nl this s;
               (_, s) = win_addEvent os (wnl_event (wobj this s)) (Some h) s in (Ret 0, s)))"

definition win_Netlink_stop :: "'w win_netlink_os \<Rightarrow> ('w, 'c WinNetlink) ref \<Rightarrow> ('h, 'w) WinEventLoop \<Rightarrow>
    int \<times> ('h, 'w) WinEventLoop" where
  "win_Netlink_stop nl this s =
     (let (_, s) = win_eraseEvent (wnl_event (wobj this s)) s;
          (closed, s) = wsys (wnl_close_handle nl (hEvent (wnl_event (wobj this s)))) s
      in (if closed then 1 else 0, s))"

definition win_Netlink_dtor :: "'w win_netlink_os \<Rightarrow> ('w, 'c WinNetlink) ref \<Rightarrow> ('h, 'w) WinEventLoop \<Rightarrow>
    ('h, 'w) WinEventLoop" where
  "win_Netlink_dtor nl this s = snd (win_Netlink_stop nl this s)"

section \<open>What a notification does\<close>

text \<open>
  The environment: asking the system and ordering leave the object, the list and the record of the user's calls alone; the
  user's callback \<open>c\<close> records the list it sees. An order always stays pending.
\<close>

definition win_netlink_env :: "'w win_netlink_os \<Rightarrow> ('w, 'c WinNetlink) ref \<Rightarrow>
    ('c, ('h, 'w) WinEventLoop) interfaceAddressCb_t \<Rightarrow> 'c \<Rightarrow> ('w \<Rightarrow> NetadapterList list) \<Rightarrow> bool" where
  "win_netlink_env nl this user c seen \<longleftrightarrow> ref_laws this \<and> ref_laws (wnl_list nl) \<and>
     (\<forall>w. deref this (snd (wnl_env nl w)) = deref this w \<and>
        deref (wnl_list nl) (snd (wnl_env nl w)) = deref (wnl_list nl) w \<and> seen (snd (wnl_env nl w)) = seen w) \<and>
     (\<forall>l w. deref this (assign (wnl_list nl) l w) = deref this w \<and> seen (assign (wnl_list nl) l w) = seen w) \<and>
     (\<forall>ob w. deref (wnl_list nl) (assign this ob w) = deref (wnl_list nl) w \<and> seen (assign this ob w) = seen w) \<and>
     (\<forall>ev w. fst (fst (wnl_notify_change nl ev w)) = WSA_IO_PENDING \<and>
        deref this (snd (wnl_notify_change nl ev w)) = deref this w \<and>
        deref (wnl_list nl) (snd (wnl_notify_change nl ev w)) = deref (wnl_list nl) w \<and>
        seen (snd (wnl_notify_change nl ev w)) = seen w \<and>
        ov_Internal (overlapped (snd (fst (wnl_notify_change nl ev w)))) = STATUS_PENDING) \<and>
     (\<forall>s. \<exists>r s'. user c COMPLETE 0 [] s = (Ret r, s') \<and> wobj this s' = wobj this s \<and>
        wobj (wnl_list nl) s' = wobj (wnl_list nl) s \<and>
        seen (wworld s') = seen (wworld s) @ [wobj (wnl_list nl) s])"

lemma win_orderNextEvent_pending:
  assumes "win_netlink_env nl this user c seen"
  shows "\<exists>s'. win_orderNextEvent nl this s = (0, s') \<and>
    ov_Internal (overlapped (wnl_event (wobj this s'))) = STATUS_PENDING \<and>
    wobj (wnl_list nl) s' = wobj (wnl_list nl) s \<and> seen (wworld s') = seen (wworld s)"
proof -
  let ?ev = "wnl_event (wobj this s)"
  obtain ret ev w where n: "wnl_notify_change nl ?ev (wworld s) = ((ret, ev), w)" by (metis prod.collapse)
  then have "ret = WSA_IO_PENDING" "deref this w = deref this (wworld s)" "deref (wnl_list nl) w = deref (wnl_list nl) (wworld s)"
      "seen w = seen (wworld s)" "ov_Internal (overlapped ev) = STATUS_PENDING"
    using assms unfolding win_netlink_env_def by (metis fst_conv snd_conv)+
  moreover have "ref_laws this" "\<forall>ob w. deref (wnl_list nl) (assign this ob w) = deref (wnl_list nl) w"
      "\<forall>ob w. seen (assign this ob w) = seen w"
    using assms by (simp_all add: win_netlink_env_def)
  ultimately show ?thesis
    using n by (cases "ov_Internal (overlapped ?ev) = STATUS_PENDING")
      (simp_all add: win_orderNextEvent_def Let_def wsys_def wobj_def wset_def ref_laws_def)
qed

section \<open>A concrete system\<close>

record nl_world =
  nw_object :: "unit WinNetlink"
  nw_list :: NetadapterList
  nw_seen :: "NetadapterList list"

definition demo_win_netlink :: "nl_world win_netlink_os" where
  "demo_win_netlink = \<lparr>wnl_create_event = (\<lambda>w. (60, w)), wnl_close_handle = (\<lambda>h w. (True, w)),
     wnl_notify_change = (\<lambda>ev w. ((WSA_IO_PENDING, ev\<lparr>overlapped := (overlapped ev)\<lparr>ov_Internal := STATUS_PENDING\<rparr>\<rparr>), w)),
     wnl_env = (\<lambda>w. (two_adapters, w)),
     wnl_list = \<lparr>deref = nw_list, assign = (\<lambda>l. nw_list_update (\<lambda>_. l))\<rparr>\<rparr>"

definition the_netlink :: "(nl_world, unit WinNetlink) ref" where
  "the_netlink = \<lparr>deref = nw_object, assign = (\<lambda>l. nw_object_update (\<lambda>_. l))\<rparr>"

definition see_list :: "(unit, (nat, nl_world) WinEventLoop) interfaceAddressCb_t" where
  "see_list c e i a s = (Ret 0, s\<lparr>wworld := (wworld s)\<lparr>nw_seen := nw_seen (wworld s) @ [nw_list (wworld s)]\<rparr>\<rparr>)"

definition nl_loop :: "(nat, nl_world) WinEventLoop" where
  "nl_loop = \<lparr>m_completionPort = 7, m_hEventLog = 8, m_handlers = [(60, 1)],
     wworld = \<lparr>nw_object = \<lparr>wnl_event = win_event_ctor, wnl_handler = Some ()\<rparr>, nw_list = \<lparr>m_adapters = []\<rparr>, nw_seen = []\<rparr>\<rparr>"

lemma demo_win_netlink_env: "win_netlink_env demo_win_netlink the_netlink see_list () nw_seen"
  by (simp add: win_netlink_env_def ref_laws_def demo_win_netlink_def the_netlink_def see_list_def wobj_def)

section \<open>Properties\<close>

text \<open>
  A notification first updates the list, then tells the user exactly once, who sees the new list, and then orders
  the next notification, which stays pending; the handler returns 0.
\<close>

theorem win_Netlink_process_updates:
  assumes "win_netlink_env nl this user c seen" and "wnl_handler (wobj this s) = Some c"
  shows "\<exists>s' l. win_Netlink_process nl user this s = (Ret 0, s') \<and>
    l = win_update (fst (wnl_env nl (wworld s))) (wobj (wnl_list nl) s) \<and> wobj (wnl_list nl) s' = l \<and>
    seen (wworld s') = seen (wworld s) @ [l] \<and>
    ov_Internal (overlapped (wnl_event (wobj this s'))) = STATUS_PENDING"
proof -
  obtain env w1 where w1: "wnl_env nl (wworld s) = (env, w1)" by fastforce
  let ?l = "win_update env (wobj (wnl_list nl) s)"
  let ?s = "wset (wnl_list nl) ?l (s\<lparr>wworld := w1\<rparr>)"
  have frame: "deref this w1 = deref this (wworld s)" "deref (wnl_list nl) w1 = deref (wnl_list nl) (wworld s)"
      "seen w1 = seen (wworld s)" "ref_laws (wnl_list nl)"
      "\<forall>l w. deref this (assign (wnl_list nl) l w) = deref this w \<and> seen (assign (wnl_list nl) l w) = seen w"
    using assms(1) w1 unfolding win_netlink_env_def by (metis snd_conv)+
  then have st: "wobj this ?s = wobj this s" "wobj (wnl_list nl) ?s = ?l" "seen (wworld ?s) = seen (wworld s)"
    by (simp_all add: wobj_def wset_def ref_laws_def)
  obtain r s2 where s2: "user c COMPLETE 0 [] ?s = (Ret r, s2)" "wobj (wnl_list nl) s2 = ?l"
      "seen (wworld s2) = seen (wworld s) @ [?l]"
    using assms(1) st unfolding win_netlink_env_def by metis
  obtain s3 where s3: "win_orderNextEvent nl this s2 = (0, s3)"
      "ov_Internal (overlapped (wnl_event (wobj this s3))) = STATUS_PENDING"
      "wobj (wnl_list nl) s3 = wobj (wnl_list nl) s2" "seen (wworld s3) = seen (wworld s2)"
    using win_orderNextEvent_pending [OF assms(1), of s2] by blast
  have "wobj (wnl_list nl) (s\<lparr>wworld := w1\<rparr>) = wobj (wnl_list nl) s" using frame(2) by (simp add: wobj_def)
  then have "win_Netlink_process nl user this s = (Ret 0, s3)"
    using w1 st(1) assms(2) s2(1) s3(1)
    by (simp add: win_Netlink_process_def wsys_def win_notify_complete_def seq_def)
  then show ?thesis using s2 s3 w1 by auto
qed

theorem win_Netlink_process_updates_witness:
  "\<exists>s'. win_Netlink_process demo_win_netlink see_list the_netlink nl_loop = (Ret 0, s') \<and>
     nw_seen (wworld s') = [win_update two_adapters \<lparr>m_adapters = []\<rparr>]"
proof -
  have h: "wnl_handler (wobj the_netlink nl_loop) = Some ()" by (simp add: wobj_def the_netlink_def nl_loop_def)
  from win_Netlink_process_updates [OF demo_win_netlink_env h]
  obtain s' where "win_Netlink_process demo_win_netlink see_list the_netlink nl_loop = (Ret 0, s')"
      "nw_seen (wworld s') = nw_seen (wworld nl_loop) @
         [win_update (fst (wnl_env demo_win_netlink (wworld nl_loop))) (wobj (wnl_list demo_win_netlink) nl_loop)]"
    by blast
  then show ?thesis by (simp add: nl_loop_def demo_win_netlink_def wobj_def)
qed

end
