(* ===== verification/WinMulticastServer.thy ===== *)
theory WinMulticastServer
  imports WinSocketNonblocking WinNetadapterList MulticastBehaviour
begin

text \<open>
  \<open>lib/communication/windows/multicastserver.cpp\<close>: the multicast server on overlapped I/O. A receive is ordered in advance;
  its completion fills the members of the object, from which \<open>receiveTelegram\<close> copies before it orders the next one.
  As in the Linux backend, operations that only read members take the object as a value and work on the world.
\<close>

section \<open>The data\<close>

definition EADDRINUSE_crt :: int where "EADDRINUSE_crt = 100"
definition EADDRNOTAVAIL_crt :: int where "EADDRNOTAVAIL_crt = 101"
definition WSAEADDRINUSE :: int where "WSAEADDRINUSE = 10048"
definition WSAEADDRNOTAVAIL :: int where "WSAEADDRNOTAVAIL = 10049"

definition WIN_IP_TTL :: int where "WIN_IP_TTL = 4"
definition WIN_IP_PKTINFO :: int where "WIN_IP_PKTINFO = 19"

text \<open>
  The socket options with their arguments; for the interface to send over the argument is the list of the 32-bit words
  passed: one for \<open>in_addr\<close>, two for \<open>ip_mreq\<close>.
\<close>

datatype win_option =
    W_RCVBUF int
  | W_REUSEADDR "32 word"
  | W_PKTINFO "32 word"
  | W_LOOP "8 word"
  | W_IF "32 word list"
  | W_TTL "32 word"
  | W_ADD mreq
  | W_DROP mreq

text \<open>What an ordered receive fills when it completes: the \<open>OVERLAPPED\<close>, the sender, the data and the control messages.\<close>

record receive_area =
  ra_overlapped :: overlapped
  ra_sender :: sockaddr_in
  ra_buffer :: bytes
  ra_control :: "cmsg list"

text \<open>
  The system calls. \<open>wmc_getaddrinfo\<close> returns family and the four bytes behind the port of the first result;
  \<open>wmc_setsockopt\<close> the value of the call, and \<open>wmc_errno\<close> the variable \<open>errno\<close> of the C library, which the code reads.
  \<open>wmc_recvmsg\<close> is \<open>WSARecvMsg\<close>: \<open>Inl\<close> is \<open>WSAGetLastError\<close>.
\<close>

record 'w win_mc_os =
  wmc_socket_os :: "'w win_socket_os"
  wmc_getaddrinfo :: "string \<Rightarrow> string \<Rightarrow> nat \<Rightarrow> 'w \<Rightarrow> (nat \<times> 32 word) option \<times> 'w"
  wmc_socket :: "nat \<Rightarrow> 'w \<Rightarrow> handle \<times> 'w"
  wmc_ioctl_nonblock :: "handle \<Rightarrow> 'w \<Rightarrow> int \<times> 'w"
  wmc_setsockopt :: "handle \<Rightarrow> win_option \<Rightarrow> 'w \<Rightarrow> int \<times> 'w"
  wmc_errno :: "'w \<Rightarrow> int"
  wmc_bind :: "handle \<Rightarrow> sockaddr_in \<Rightarrow> 'w \<Rightarrow> int \<times> 'w"
  wmc_extension :: "handle \<Rightarrow> 'w \<Rightarrow> int \<times> 'w"
  wmc_recvmsg :: "handle \<Rightarrow> receive_area \<Rightarrow> 'w \<Rightarrow> (int + 32 word) \<times> receive_area \<times> 'w"
  wmc_sendto :: "handle \<Rightarrow> bytes \<Rightarrow> sockaddr_in \<Rightarrow> 'w \<Rightarrow> int \<times> 'w"
  wmc_lib :: inet_lib
  wmc_list :: "('w, NetadapterList) ref"

record 'd WinMulticastServer =
  wm_group :: string
  wm_port :: "32 word"
  wm_receiveEvent :: win_event
  wm_sendHandle :: handle
  wm_recvBuffer :: bytes
  wm_control :: "cmsg list"
  wm_receiveAddr :: sockaddr_in
  wm_dataHandler :: "'d option"

text \<open>\<open>uninit\<close> is what the receive buffer of \<open>MAX_DATAGRAM_SIZE\<close> bytes happens to hold.\<close>

definition win_MulticastServer_ctor :: "'w win_mc_os \<Rightarrow> bytes \<Rightarrow> ('w, 'd WinMulticastServer) ref \<Rightarrow>
    ('h, 'w) WinEventLoop \<Rightarrow> ('h, 'w) WinEventLoop" where
  "win_MulticastServer_ctor mc uninit this s =
     (let (event, s) = win_connection_event (wmc_socket_os mc) s
      in wset this \<lparr>wm_group = [], wm_port = 0, wm_receiveEvent = event, wm_sendHandle = INVALID_HANDLE_VALUE,
           wm_recvBuffer = uninit, wm_control = [], wm_receiveAddr = \<lparr>sin_family = 0, sin_addr4 = 0, sin_port = 0\<rparr>,
           wm_dataHandler = None\<rparr> s)"

section \<open>Group membership\<close>

text \<open>Both variants interpret \<open>errno\<close> after a failure; each has its own numbers for "already" and "not" a member.\<close>

definition win_membership_result :: "bool \<Rightarrow> int \<Rightarrow> int \<Rightarrow> int \<Rightarrow> int \<Rightarrow> int" where
  "win_membership_result add in_use not_avail retVal errno =
     (if retVal \<noteq> 0 then (if errno = (if add then in_use else not_avail) then 0 else - 1) else 1)"

text \<open>A port text too long for its buffer of 8 characters ends the process in \<open>sprintf_s\<close>.\<close>

definition win_dropOrAdd_addr :: "'w win_mc_os \<Rightarrow> 'd WinMulticastServer \<Rightarrow> string \<Rightarrow> bool \<Rightarrow> 'w \<Rightarrow> outcome \<times> 'w" where
  "win_dropOrAdd_addr mc self interfaceAddress add w =
     (case portString (wm_port self) of
        None \<Rightarrow> (Throw UndefinedBehaviour, w)
      | Some port \<Rightarrow>
          (case wmc_getaddrinfo mc (wm_group self) port 0 w of
             (None, w) \<Rightarrow> (Ret (- 1), w)
           | (Some (_, multiaddr), w) \<Rightarrow>
               (let iface = inet_addr (wmc_lib mc) interfaceAddress in
                if iface = INADDR_NONE then (Ret (- 1), w)
                else let im = Mreq multiaddr iface;
                         optionName = (if add then W_ADD im else W_DROP im);
                         (retVal, w) = wmc_setsockopt mc (fileHandle (wm_receiveEvent self)) optionName w in
                  (Ret (win_membership_result add WSAEADDRINUSE WSAEADDRNOTAVAIL retVal (wmc_errno mc w)), w))))"

definition win_dropOrAdd_index :: "'w win_mc_os \<Rightarrow> 'd WinMulticastServer \<Rightarrow> 32 word \<Rightarrow> bool \<Rightarrow> 'w \<Rightarrow> outcome \<times> 'w" where
  "win_dropOrAdd_index mc self interfaceIndex add w =
     (case portString (wm_port self) of
        None \<Rightarrow> (Throw UndefinedBehaviour, w)
      | Some port \<Rightarrow>
          (case wmc_getaddrinfo mc (wm_group self) port AF_INET w of
             (None, w) \<Rightarrow> (Ret (- 1), w)
           | (Some (family, multiaddr), w) \<Rightarrow>
               if family \<noteq> AF_INET then (Ret (- 1), w)
               else (let im = Mreq multiaddr (htonl (wmc_lib mc) interfaceIndex);
                         optionName = (if add then W_ADD im else W_DROP im);
                         (retVal, w) = wmc_setsockopt mc (fileHandle (wm_receiveEvent self)) optionName w in
                     (Ret (win_membership_result add EADDRINUSE_crt EADDRNOTAVAIL_crt retVal (wmc_errno mc w)), w))))"

definition win_dropInterface_addr where "win_dropInterface_addr mc self addr w = win_dropOrAdd_addr mc self addr False w"
definition win_dropInterface_index where "win_dropInterface_index mc self i w = win_dropOrAdd_index mc self i False w"
definition win_addInterface_addr where "win_addInterface_addr mc self addr w = win_dropOrAdd_addr mc self addr True w"
definition win_addInterface_index where "win_addInterface_index mc self i w = win_dropOrAdd_index mc self i True w"

fun win_interface_loop :: "'w win_mc_os \<Rightarrow> 'd WinMulticastServer \<Rightarrow> bool \<Rightarrow> adapters \<Rightarrow> 'w \<Rightarrow> outcome \<times> 'w" where
  "win_interface_loop mc self add [] w = (Ret 0, w)"
| "win_interface_loop mc self add (iter # rest) w =
     (case win_dropOrAdd_index mc self (m_index (snd iter)) add w of
        (Throw ex, w) \<Rightarrow> (Throw ex, w)
      | (Ret _, w) \<Rightarrow> win_interface_loop mc self add rest w)"

definition win_addAllInterfaces :: "'w win_mc_os \<Rightarrow> 'd WinMulticastServer \<Rightarrow> 'w \<Rightarrow> outcome \<times> 'w" where
  "win_addAllInterfaces mc self w = win_interface_loop mc self True (get_adapters (deref (wmc_list mc) w)) w"

definition win_dropAllInterfaces :: "'w win_mc_os \<Rightarrow> 'd WinMulticastServer \<Rightarrow> 'w \<Rightarrow> outcome \<times> 'w" where
  "win_dropAllInterfaces mc self w = win_interface_loop mc self False (get_adapters (deref (wmc_list mc) w)) w"

section \<open>Sending\<close>

text \<open>
  The common end of the three senders: hop limit, destination, datagram. \<open>nbytes\<close> becomes unsigned before it is compared
  with the length, so -1 never equals a length.
\<close>

definition win_send_datagram :: "'w win_mc_os \<Rightarrow> 'd WinMulticastServer \<Rightarrow> bytes \<Rightarrow> 32 word \<Rightarrow> 'w \<Rightarrow> int \<times> 'w" where
  "win_send_datagram mc self data ttl w =
     (case wmc_setsockopt mc (wm_sendHandle self) (W_TTL ttl) w of
        (r, w) \<Rightarrow>
          if r \<noteq> 0 then (ERR_NO_SUCCESS, w)
          else (let multiaddr = inet_addr (wmc_lib mc) (wm_group self) in
            if multiaddr = INADDR_NONE then (ERR_NO_SUCCESS, w)
            else (case wmc_sendto mc (wm_sendHandle self) data
                    \<lparr>sin_family = AF_INET, sin_addr4 = multiaddr, sin_port = htons (ucast (wm_port self))\<rparr> w of
                    (sent_bytes, w) \<Rightarrow>
                      (if sent_bytes \<noteq> int (length data) then ERR_NO_SUCCESS else ERR_SUCCESS, w))))"

text \<open>The senders check the pointer and select the interface.\<close>

definition win_send_over :: "'w win_mc_os \<Rightarrow> 'd WinMulticastServer \<Rightarrow> 32 word list \<Rightarrow> buffer \<Rightarrow> 32 word \<Rightarrow> 'w \<Rightarrow> int \<times> 'w" where
  "win_send_over mc self iface pData ttl w =
     (case pData of
        Null n \<Rightarrow> (if 0 < n then ERR_NO_SUCCESS else ERR_SUCCESS, w)
      | Data data \<Rightarrow>
          (case wmc_setsockopt mc (wm_sendHandle self) (W_IF iface) w of
             (r, w) \<Rightarrow> if r \<noteq> 0 then (ERR_INVALIDADAPTER, w) else win_send_datagram mc self data ttl w))"

definition win_sendByAddress :: "'w win_mc_os \<Rightarrow> 'd WinMulticastServer \<Rightarrow> string \<Rightarrow> buffer \<Rightarrow> 32 word \<Rightarrow>
    'w \<Rightarrow> int \<times> 'w" where
  "win_sendByAddress mc self interfaceIp pData ttl w =
     (case pData of
        Null n \<Rightarrow> win_send_over mc self [] pData ttl w
      | Data data \<Rightarrow>
          (let ifAddr = inet_addr (wmc_lib mc) interfaceIp in
           if ifAddr = INADDR_NONE then (ERR_INVALIDIPADDRESS, w)
           else win_send_over mc self [ifAddr] pData ttl w))"

definition win_sendByAddress_str :: "'w win_mc_os \<Rightarrow> 'd WinMulticastServer \<Rightarrow> string \<Rightarrow> bytes \<Rightarrow> 32 word \<Rightarrow>
    'w \<Rightarrow> int \<times> 'w" where
  "win_sendByAddress_str mc self interfaceIp data ttl w =
     (if data = [] then (ERR_SUCCESS, w) else win_sendByAddress mc self interfaceIp (Data data) ttl w)"

text \<open>\<open>sendOverInterfaceByIndex\<close> passes an \<open>ip_mreq\<close>, whose group comes first and is 0.\<close>

definition win_sendByIndex :: "'w win_mc_os \<Rightarrow> 'd WinMulticastServer \<Rightarrow> 32 word \<Rightarrow> buffer \<Rightarrow> 32 word \<Rightarrow>
    'w \<Rightarrow> int \<times> 'w" where
  "win_sendByIndex mc self interfaceIndex pData ttl w =
     win_send_over mc self [0, htonl (wmc_lib mc) interfaceIndex] pData ttl w"

definition win_sendByIndex_str :: "'w win_mc_os \<Rightarrow> 'd WinMulticastServer \<Rightarrow> 32 word \<Rightarrow> bytes \<Rightarrow> 32 word \<Rightarrow>
    'w \<Rightarrow> int \<times> 'w" where
  "win_sendByIndex_str mc self interfaceIndex data ttl w =
     (if data = [] then (ERR_SUCCESS, w) else win_sendByIndex mc self interfaceIndex (Data data) ttl w)"

text \<open>\<open>sendOverInterface\<close>: on an adapter through its first address, on an index through an \<open>in_addr\<close>.\<close>

definition win_sendOverInterface :: "'w win_mc_os \<Rightarrow> 'd WinMulticastServer \<Rightarrow> Netadapter \<Rightarrow> buffer \<Rightarrow> 32 word \<Rightarrow>
    'w \<Rightarrow> int \<times> 'w" where
  "win_sendOverInterface mc self adapter pData ttl w =
     (if 0 < buffer_length pData then
        (case pData of
           Null n \<Rightarrow> (ERR_NO_SUCCESS, w)
         | Data data \<Rightarrow>
             (case m_ipv4Addresses adapter of
                front # _ \<Rightarrow> win_sendByAddress mc self (address front) pData ttl w
              | [] \<Rightarrow> (ERR_INVALIDADAPTER, w)))
      else (ERR_SUCCESS, w))"

definition win_sendOverInterface_str :: "'w win_mc_os \<Rightarrow> 'd WinMulticastServer \<Rightarrow> Netadapter \<Rightarrow> bytes \<Rightarrow> 32 word \<Rightarrow>
    'w \<Rightarrow> int \<times> 'w" where
  "win_sendOverInterface_str mc self adapter data ttl w =
     (if data = [] then (0, w)
      else case m_ipv4Addresses adapter of
        [] \<Rightarrow> (ERR_NO_SUCCESS, w)
      | front # _ \<Rightarrow> win_sendByAddress_str mc self (address front) data ttl w)"

definition win_sendOverInterface_at :: "'w win_mc_os \<Rightarrow> 'd WinMulticastServer \<Rightarrow> 32 word \<Rightarrow> buffer \<Rightarrow> 32 word \<Rightarrow>
    'w \<Rightarrow> int \<times> 'w" where
  "win_sendOverInterface_at mc self interfaceIndex pData ttl w =
     win_send_over mc self [htonl (wmc_lib mc) interfaceIndex] pData ttl w"

definition win_sendOverInterface_at_str :: "'w win_mc_os \<Rightarrow> 'd WinMulticastServer \<Rightarrow> 32 word \<Rightarrow> bytes \<Rightarrow> 32 word \<Rightarrow>
    'w \<Rightarrow> int \<times> 'w" where
  "win_sendOverInterface_at_str mc self interfaceIndex data ttl w =
     (if data = [] then (0, w)
      else case getAdapterByInterfaceIndex (deref (wmc_list mc) w) interfaceIndex of
        Inl _ \<Rightarrow> (ERR_INVALIDADAPTER, w)
      | Inr adapter \<Rightarrow> win_sendOverInterface_str mc self adapter data ttl w)"

fun win_send_loop :: "'w win_mc_os \<Rightarrow> 'd WinMulticastServer \<Rightarrow> buffer \<Rightarrow> 32 word \<Rightarrow> Netadapter list \<Rightarrow> int \<Rightarrow>
    'w \<Rightarrow> int \<times> 'w" where
  "win_send_loop mc self pData ttl [] retVal w = (retVal, w)"
| "win_send_loop mc self pData ttl (iter # rest) retVal w =
     (case win_sendByIndex mc self (m_index iter) pData ttl w of
        (retValIntern, w) \<Rightarrow>
          win_send_loop mc self pData ttl rest (if retValIntern \<noteq> 0 then retValIntern else retVal) w)"

definition win_send_all :: "'w win_mc_os \<Rightarrow> 'd WinMulticastServer \<Rightarrow> buffer \<Rightarrow> 32 word \<Rightarrow> 'w \<Rightarrow> int \<times> 'w" where
  "win_send_all mc self pData ttl w = win_send_loop mc self pData ttl (getArray (deref (wmc_list mc) w)) 0 w"

definition win_send_all_str :: "'w win_mc_os \<Rightarrow> 'd WinMulticastServer \<Rightarrow> bytes \<Rightarrow> 32 word \<Rightarrow> 'w \<Rightarrow> int \<times> 'w" where
  "win_send_all_str mc self data ttl w = win_send_all mc self (Data data) ttl w"

section \<open>Receiving\<close>

text \<open>\<open>orderNextMessage\<close>: the members as the area the kernel fills, now or later.\<close>

definition win_orderNextMessage :: "'w win_mc_os \<Rightarrow> 'd WinMulticastServer \<Rightarrow> 'w \<Rightarrow>
    int \<times> 'd WinMulticastServer \<times> 'w" where
  "win_orderNextMessage mc self w =
     (let event = wm_receiveEvent self;
          m_msg = \<lparr>ra_overlapped = overlapped event, ra_sender = wm_receiveAddr self, ra_buffer = wm_recvBuffer self,
                   ra_control = wm_control self\<rparr>;
          (r, m_msg, w) = wmc_recvmsg mc (fileHandle event) m_msg w;
          self = self\<lparr>wm_receiveEvent := event\<lparr>overlapped := ra_overlapped m_msg\<rparr>, wm_receiveAddr := ra_sender m_msg,
                   wm_recvBuffer := ra_buffer m_msg, wm_control := ra_control m_msg\<rparr>
      in (case r of
            Inl lastError \<Rightarrow> if lastError = WSA_IO_PENDING then 0 else - 1
          | Inr recvSize \<Rightarrow> sint recvSize, self, w))"

fun win_cmsg_loop :: "cmsg list \<Rightarrow> 32 word \<Rightarrow> int \<Rightarrow> 32 word \<times> int" where
  "win_cmsg_loop [] i ttl = (i, ttl)"
| "win_cmsg_loop (pcmsghdr # rest) i ttl =
     (if cmsg_type pcmsghdr = WIN_IP_PKTINFO then win_cmsg_loop rest (cmsg_int pcmsghdr) ttl
      else if cmsg_type pcmsghdr = WIN_IP_TTL then win_cmsg_loop rest i (sint (cmsg_int pcmsghdr))
      else win_cmsg_loop rest i ttl)"

text \<open>\<open>i\<close> is the value the reference \<open>adapterIndex\<close> has before; it keeps it without a matching control message.\<close>

definition win_receiveTelegram_index :: "'w win_mc_os \<Rightarrow> 'd WinMulticastServer \<Rightarrow> nat \<Rightarrow> 32 word \<Rightarrow> 'w \<Rightarrow>
    telegram \<times> 'd WinMulticastServer \<times> 'w" where
  "win_receiveTelegram_index mc self msgBufSize i w =
     (let event = wm_receiveEvent self; arrived = unat (ov_InternalHigh (overlapped event)) in
      if arrived = 0 then (\<lparr>nbytes = - 1, msgbuf = [], adapterIndex = i, telegram_ttl = 1\<rparr>, self, w)
      else let sz = (if msgBufSize < arrived then msgBufSize else arrived);
               msgBuf = take sz (wm_recvBuffer self);
               self = self\<lparr>wm_receiveEvent := event\<lparr>overlapped := (overlapped event)\<lparr>ov_InternalHigh := 0\<rparr>\<rparr>\<rparr>;
               (i, ttl) = win_cmsg_loop (wm_control self) i 1;
               (_, self, w) = win_orderNextMessage mc self w in
        (\<lparr>nbytes = int sz, msgbuf = msgBuf, adapterIndex = i, telegram_ttl = ttl\<rparr>, self, w))"

definition win_receiveTelegram :: "'w win_mc_os \<Rightarrow> 'd WinMulticastServer \<Rightarrow> nat \<Rightarrow> Netadapter \<Rightarrow> 'w \<Rightarrow>
    (telegram \<times> Netadapter) \<times> 'd WinMulticastServer \<times> 'w" where
  "win_receiveTelegram mc self len adapter w =
     (case win_receiveTelegram_index mc self len 0 w of
        (t, self, w) \<Rightarrow>
          if 0 < nbytes t then
            (case getAdapterByInterfaceIndex (deref (wmc_list mc) w) (adapterIndex t) of
               Inl _ \<Rightarrow> ((t\<lparr>nbytes := - 1\<rparr>, adapter), self, w)
             | Inr a \<Rightarrow> ((t, a), self, w))
          else ((t, adapter), self, w))"

definition win_receiveTelegram_name :: "'w win_mc_os \<Rightarrow> 'd WinMulticastServer \<Rightarrow> nat \<Rightarrow> string \<Rightarrow> 'w \<Rightarrow>
    (telegram \<times> string) \<times> 'd WinMulticastServer \<times> 'w" where
  "win_receiveTelegram_name mc self len adapterName w =
     (case win_receiveTelegram_index mc self len 0 w of
        (t, self, w) \<Rightarrow>
          if 0 < nbytes t then
            (case getAdapterByInterfaceIndex (deref (wmc_list mc) w) (adapterIndex t) of
               Inl _ \<Rightarrow> ((t\<lparr>nbytes := - 1\<rparr>, adapterName), self, w)
             | Inr a \<Rightarrow> ((t, m_name a), self, w))
          else ((t, adapterName), self, w))"

section \<open>Start and stop\<close>

definition win_setMulticastLoop :: "'w win_mc_os \<Rightarrow> 'd WinMulticastServer \<Rightarrow> bool \<Rightarrow> 'w \<Rightarrow> int \<times> 'w" where
  "win_setMulticastLoop mc self val w =
     (let param = (if val then 1 else 0);
          (r, w) = wmc_setsockopt mc (wm_sendHandle self) (W_LOOP param) w
      in (if r \<noteq> 0 then - 1 else 0, w))"

definition win_setupSendSocket :: "'w win_mc_os \<Rightarrow> ('w, 'd WinMulticastServer) ref \<Rightarrow> ('h, 'w) WinEventLoop \<Rightarrow>
    int \<times> ('h, 'w) WinEventLoop" where
  "win_setupSendSocket mc this s =
     (let (fd, s) = wsys (wmc_socket mc AF_INET) s;
          s = wset this ((wobj this s)\<lparr>wm_sendHandle := fd\<rparr>) s in
      if fd = INVALID_HANDLE_VALUE then (- 1, s)
      else let (_, s) = wsys (win_setMulticastLoop mc (wobj this s) False) s in (0, s))"

text \<open>The receiving socket in the order of the calls after its creation; the value tells whether all succeed.\<close>

definition win_prepare_receive :: "'w win_mc_os \<Rightarrow> handle \<Rightarrow> sockaddr_in \<Rightarrow> 'w \<Rightarrow> int \<times> 'w" where
  "win_prepare_receive mc fd addr w =
     (let (_, w) = wmc_ioctl_nonblock mc fd w;
          (r, w) = wmc_setsockopt mc fd (W_RCVBUF 128000) w in
      if r < 0 then (- 1, w)
      else let (r, w) = wmc_setsockopt mc fd (W_REUSEADDR 1) w in
        if r < 0 then (- 1, w)
        else let (r, w) = wmc_setsockopt mc fd (W_PKTINFO 1) w in
          if r \<noteq> 0 then (- 1, w)
          else let (r, w) = wmc_bind mc fd addr w in
            if r < 0 then (- 1, w)
            else let (status, w) = wmc_extension mc fd w in
              if status \<noteq> 0 then (- 1, w) else (0, w))"

text \<open>The comparisons of the handle, a pointer, with \<open>< 0\<close> are never true and have no effect.\<close>

definition win_setupReceiveSocket :: "'w win_mc_os \<Rightarrow> ('w, 'd WinMulticastServer) ref \<Rightarrow> ('h, 'w) WinEventLoop \<Rightarrow>
    outcome \<times> ('h, 'w) WinEventLoop" where
  "win_setupReceiveSocket mc this s =
     (case portString (wm_port (wobj this s)) of
        None \<Rightarrow> (Throw UndefinedBehaviour, s)
      | Some port \<Rightarrow>
          (case wsys (wmc_getaddrinfo mc (wm_group (wobj this s)) port 0) s of
             (None, s) \<Rightarrow> (Ret (- 1), s)
           | (Some (family, _), s) \<Rightarrow>
               (let (fd, s) = wsys (wmc_socket mc family) s;
                    addr = \<lparr>sin_family = family, sin_addr4 = 0, sin_port = htons (ucast (wm_port (wobj this s)))\<rparr>;
                    s = wset this ((wobj this s)\<lparr>wm_receiveEvent := (wm_receiveEvent (wobj this s))\<lparr>fileHandle := fd\<rparr>,
                          wm_receiveAddr := addr\<rparr>) s;
                    (r, s) = wsys (win_prepare_receive mc fd addr) s in (Ret r, s))))"

definition win_MulticastServer_process :: "('d \<Rightarrow> ('h, 'w) WinEventLoop \<Rightarrow> outcome \<times> ('h, 'w) WinEventLoop) \<Rightarrow>
    ('w, 'd WinMulticastServer) ref \<Rightarrow> ('h, 'w) WinEventLoop \<Rightarrow> outcome \<times> ('h, 'w) WinEventLoop" where
  "win_MulticastServer_process user this s =
     (case wm_dataHandler (wobj this s) of
        Some d \<Rightarrow> user d s
      | None \<Rightarrow> (Ret (- 1), s))"

text \<open>\<open>orderNextMessage\<close> on the object itself.\<close>

definition win_order :: "'w win_mc_os \<Rightarrow> ('w, 'd WinMulticastServer) ref \<Rightarrow> ('h, 'w) WinEventLoop \<Rightarrow>
    int \<times> ('h, 'w) WinEventLoop" where
  "win_order mc this s =
     (let ((r, self), s) = wsys (\<lambda>w. case win_orderNextMessage mc (wobj this s) w of (r, self, w) \<Rightarrow> ((r, self), w)) s
      in (r, wset this self s))"

definition win_MulticastServer_start :: "'w win_mc_os \<Rightarrow> 'w iocp_os \<Rightarrow> 'h \<Rightarrow> string \<Rightarrow> 32 word \<Rightarrow> 'd option \<Rightarrow>
    ('w, 'd WinMulticastServer) ref \<Rightarrow> ('h, 'w) WinEventLoop \<Rightarrow> outcome \<times> ('h, 'w) WinEventLoop" where
  "win_MulticastServer_start mc os h addr port dataHandler this s =
     (let s = wset this ((wobj this s)\<lparr>wm_group := addr, wm_port := port\<rparr>) s;
          (err, s) = win_setupSendSocket mc this s in
      if err < 0 then (Ret err, s)
      else case win_setupReceiveSocket mc this s of
        (Throw ex, s) \<Rightarrow> (Throw ex, s)
      | (Ret err, s) \<Rightarrow>
          if err < 0 then (Ret err, s)
          else (let s = wset this ((wobj this s)\<lparr>wm_dataHandler := dataHandler\<rparr>) s in
            if dataHandler \<noteq> None
            then (let (_, s) = win_order mc this s;
                      (r, s) = win_addEvent os (wm_receiveEvent (wobj this s)) (Some h) s in (Ret r, s))
            else (Ret 0, s)))"

definition win_MulticastServer_stop :: "'w win_mc_os \<Rightarrow> ('w, 'd WinMulticastServer) ref \<Rightarrow>
    ('h, 'w) WinEventLoop \<Rightarrow> outcome \<times> ('h, 'w) WinEventLoop" where
  "win_MulticastServer_stop mc this s =
     (let so = wmc_socket_os mc in
      case wsys (win_dropAllInterfaces mc (wobj this s)) s of
        (Throw ex, s) \<Rightarrow> (Throw ex, s)
      | (Ret _, s) \<Rightarrow>
          (let s = (if wm_sendHandle (wobj this s) \<noteq> INVALID_HANDLE_VALUE then
                      (let (_, s) = wsys (wso_closesocket so (wm_sendHandle (wobj this s))) s
                       in wset this ((wobj this s)\<lparr>wm_sendHandle := INVALID_HANDLE_VALUE\<rparr>) s)
                    else s);
               s = (if fileHandle (wm_receiveEvent (wobj this s)) \<noteq> INVALID_HANDLE_VALUE then
                      (let (_, s) = wsys (wso_shutdown so (fileHandle (wm_receiveEvent (wobj this s)))) s;
                           (_, s) = wsys (wso_closesocket so (fileHandle (wm_receiveEvent (wobj this s)))) s
                       in wset this ((wobj this s)\<lparr>wm_receiveEvent :=
                            (wm_receiveEvent (wobj this s))\<lparr>fileHandle := INVALID_HANDLE_VALUE\<rparr>\<rparr>) s)
                    else s);
               (_, s) = win_eraseEvent (wm_receiveEvent (wobj this s)) s in (Ret 0, s)))"

definition win_MulticastServer_dtor :: "'w win_mc_os \<Rightarrow> ('w, 'd WinMulticastServer) ref \<Rightarrow>
    ('h, 'w) WinEventLoop \<Rightarrow> outcome \<times> ('h, 'w) WinEventLoop" where
  "win_MulticastServer_dtor mc this s =
     (case win_MulticastServer_stop mc this s of
        (Throw ex, s) \<Rightarrow> (Throw ex, s)
      | (Ret _, s) \<Rightarrow>
          (let (_, s) = wsys (wso_close_event (wmc_socket_os mc) (hEvent (wm_receiveEvent (wobj this s)))) s in (Ret 0, s)))"

end
