(* ===== verification/WinMulticastBehaviour.thy ===== *)
theory WinMulticastBehaviour
  imports WinMulticastServer
begin

text \<open>
  What the multicast server does on Windows: the telegrams it hands out, when it orders the next receive, the datagrams
  it sends, and what joining a group twice returns.
\<close>

section \<open>Receiving\<close>

text \<open>The interface the control messages name: the last one counts.\<close>

definition win_interface_of :: "cmsg list \<Rightarrow> 32 word" where
  "win_interface_of cs =
     (let infos = filter (\<lambda>c. cmsg_type c = WIN_IP_PKTINFO) cs in if infos = [] then 0 else cmsg_int (last infos))"

lemma win_cmsg_loop_interface:
  "fst (win_cmsg_loop cs i ttl) =
     (let infos = filter (\<lambda>c. cmsg_type c = WIN_IP_PKTINFO) cs in if infos = [] then i else cmsg_int (last infos))"
  by (induction cs arbitrary: i ttl) (simp_all add: Let_def)

text \<open>\<open>orders\<close> counts the receives ordered so far.\<close>

definition order_laws :: "'w win_mc_os \<Rightarrow> ('w \<Rightarrow> nat) \<Rightarrow> bool" where
  "order_laws mc orders \<longleftrightarrow> (\<forall>fd area w. orders (snd (snd (wmc_recvmsg mc fd area w))) = Suc (orders w))"

definition arrived :: "'d WinMulticastServer \<Rightarrow> nat" where
  "arrived self = unat (ov_InternalHigh (overlapped (wm_receiveEvent self)))"

lemma win_receiveTelegram_index_cases:
  "win_receiveTelegram_index mc self len 0 w =
     (if arrived self = 0 then (\<lparr>nbytes = - 1, msgbuf = [], adapterIndex = 0, telegram_ttl = 1\<rparr>, self, w)
      else (\<lparr>nbytes = int (min len (arrived self)), msgbuf = take (min len (arrived self)) (wm_recvBuffer self),
             adapterIndex = win_interface_of (wm_control self), telegram_ttl = snd (win_cmsg_loop (wm_control self) 0 1)\<rparr>,
            snd (win_orderNextMessage mc (self\<lparr>wm_receiveEvent := (wm_receiveEvent self)
              \<lparr>overlapped := (overlapped (wm_receiveEvent self))\<lparr>ov_InternalHigh := 0\<rparr>\<rparr>\<rparr>) w)))"
  using win_cmsg_loop_interface [of "wm_control self" 0 1]
  by (auto simp: win_receiveTelegram_index_def arrived_def win_interface_of_def Let_def min_def split_beta)

lemma orderNextMessage_orders:
  "order_laws mc orders \<Longrightarrow> orders (snd (snd (win_orderNextMessage mc self w))) = Suc (orders w)"
  by (simp add: win_orderNextMessage_def Let_def split_beta order_laws_def)

section \<open>Sending\<close>

text \<open>
  The sending socket as documented: the options select interface and hop limit of what is sent afterwards. \<open>iface\<close> is the
  argument of the last selection as it was passed.
\<close>

record win_sent =
  wsent_iface :: "32 word list"
  wsent_ttl :: "32 word"
  wsent_to :: sockaddr_in
  wsent_data :: bytes

definition win_sender_laws :: "'w win_mc_os \<Rightarrow> handle \<Rightarrow> ('w \<Rightarrow> 32 word list) \<Rightarrow> ('w \<Rightarrow> 32 word) \<Rightarrow>
    ('w \<Rightarrow> win_sent list) \<Rightarrow> bool" where
  "win_sender_laws mc fd iface hops log \<longleftrightarrow>
     (\<forall>a w r w'. wmc_setsockopt mc fd (W_IF a) w = (r, w') \<longrightarrow> log w' = log w \<and> (r = 0 \<longrightarrow> iface w' = a)) \<and>
     (\<forall>t w r w'. wmc_setsockopt mc fd (W_TTL t) w = (r, w') \<longrightarrow> log w' = log w \<and>
        (r = 0 \<longrightarrow> hops w' = t \<and> iface w' = iface w)) \<and>
     (\<forall>b to w n w'. wmc_sendto mc fd b to w = (n, w') \<longrightarrow> 0 \<le> n \<longrightarrow>
        log w' = log w @ [\<lparr>wsent_iface = iface w, wsent_ttl = hops w, wsent_to = to, wsent_data = take (nat n) b\<rparr>])"

lemma win_sender_lawsD:
  assumes "win_sender_laws mc fd iface hops log"
  shows "wmc_setsockopt mc fd (W_IF a) w = (0, w') \<Longrightarrow> log w' = log w \<and> iface w' = a"
    and "wmc_setsockopt mc fd (W_TTL t) w = (0, w') \<Longrightarrow> log w' = log w \<and> hops w' = t \<and> iface w' = iface w"
    and "wmc_sendto mc fd b to w = (n, w') \<Longrightarrow> 0 \<le> n \<Longrightarrow>
      log w' = log w @ [\<lparr>wsent_iface = iface w, wsent_ttl = hops w, wsent_to = to, wsent_data = take (nat n) b\<rparr>]"
  using assms unfolding win_sender_laws_def by blast+

definition win_datagram :: "'w win_mc_os \<Rightarrow> 'd WinMulticastServer \<Rightarrow> bytes \<Rightarrow> 32 word \<Rightarrow> 32 word list \<Rightarrow> win_sent" where
  "win_datagram mc self data ttl iface =
     \<lparr>wsent_iface = iface, wsent_ttl = ttl,
      wsent_to = \<lparr>sin_family = AF_INET, sin_addr4 = inet_addr (wmc_lib mc) (wm_group self),
                 sin_port = htons (ucast (wm_port self))\<rparr>, wsent_data = data\<rparr>"

lemma win_send_over_sends:
  assumes laws: "win_sender_laws mc (wm_sendHandle self) iface hops log"
    and send: "win_send_over mc self i (Data data) ttl w = (0, w')"
  shows "log w' = log w @ [win_datagram mc self data ttl i]"
proof -
  obtain w1 where w1: "wmc_setsockopt mc (wm_sendHandle self) (W_IF i) w = (0, w1)"
      and dg: "win_send_datagram mc self data ttl w1 = (0, w')"
    using send by (auto simp: win_send_over_def send_errors split: prod.splits if_splits)
  from dg obtain w2 where w2: "wmc_setsockopt mc (wm_sendHandle self) (W_TTL ttl) w1 = (0, w2)"
      and n: "wmc_sendto mc (wm_sendHandle self) data
          \<lparr>sin_family = AF_INET, sin_addr4 = inet_addr (wmc_lib mc) (wm_group self),
           sin_port = htons (ucast (wm_port self))\<rparr> w2 = (int (length data), w')"
    by (auto simp: win_send_datagram_def send_errors Let_def split: prod.splits if_splits)
  show ?thesis
    using win_sender_lawsD(1) [OF laws w1] win_sender_lawsD(2) [OF laws w2] win_sender_lawsD(3) [OF laws n]
    by (simp add: win_datagram_def)
qed

lemma win_send_loop_sends:
  assumes laws: "win_sender_laws mc (wm_sendHandle self) iface hops log"
  shows "win_send_loop mc self (Data data) ttl l retVal w = (0, w') \<Longrightarrow>
    retVal = 0 \<and> log w' = log w @ map (\<lambda>a. win_datagram mc self data ttl [0, htonl (wmc_lib mc) (m_index a)]) l"
proof (induction l arbitrary: retVal w)
  case (Cons iter rest)
  obtain r w1 where r: "win_sendByIndex mc self (m_index iter) (Data data) ttl w = (r, w1)" by fastforce
  then have "(if r \<noteq> 0 then r else retVal) = 0 \<and>
      log w' = log w1 @ map (\<lambda>a. win_datagram mc self data ttl [0, htonl (wmc_lib mc) (m_index a)]) rest"
    using Cons.prems by (intro Cons.IH) simp
  moreover then have "log w1 = log w @ [win_datagram mc self data ttl [0, htonl (wmc_lib mc) (m_index iter)]]"
    using r by (intro win_send_over_sends [OF laws]) (simp_all add: win_sendByIndex_def split: if_splits)
  ultimately show ?case by (simp split: if_splits)
qed simp

section \<open>Memberships\<close>

text \<open>
  Joining as documented: it succeeds only when the membership does not exist, and adds it then. Winsock reports its errors
  through \<open>WSAGetLastError\<close> and leaves \<open>errno\<close> alone.
\<close>

definition win_membership_laws :: "'w win_mc_os \<Rightarrow> handle \<Rightarrow> ('w \<Rightarrow> mreq set) \<Rightarrow> bool" where
  "win_membership_laws mc fd members \<longleftrightarrow>
     (\<forall>m w r w'. wmc_setsockopt mc fd (W_ADD m) w = (r, w') \<longrightarrow> wmc_errno mc w' = wmc_errno mc w \<and>
        (r = 0 \<longrightarrow> m \<notin> members w \<and> members w' = insert m (members w)) \<and> (r \<noteq> 0 \<longrightarrow> members w' = members w))"

definition win_resolves :: "'w win_mc_os \<Rightarrow> 'd WinMulticastServer \<Rightarrow> 32 word \<Rightarrow> ('w \<Rightarrow> mreq set) \<Rightarrow> bool" where
  "win_resolves mc self g members \<longleftrightarrow> (\<exists>port. portString (wm_port self) = Some port \<and>
     (\<forall>w. fst (wmc_getaddrinfo mc (wm_group self) port AF_INET w) = Some (AF_INET, g) \<and>
        members (snd (wmc_getaddrinfo mc (wm_group self) port AF_INET w)) = members w \<and>
        wmc_errno mc (snd (wmc_getaddrinfo mc (wm_group self) port AF_INET w)) = wmc_errno mc w))"

lemma win_add_step:
  assumes "win_membership_laws mc (fileHandle (wm_receiveEvent self)) members" and "win_resolves mc self g members"
    and "wmc_errno mc w \<noteq> EADDRINUSE_crt" and "m = Mreq g (htonl (wmc_lib mc) i)"
  shows "\<exists>r w'. win_addInterface_index mc self i w = (Ret r, w') \<and> wmc_errno mc w' = wmc_errno mc w \<and>
    (r = 1 \<and> m \<notin> members w \<and> members w' = insert m (members w) \<or> r = - 1 \<and> members w' = members w)"
proof -
  obtain port w1 where port: "portString (wm_port self) = Some port"
      and w1: "wmc_getaddrinfo mc (wm_group self) port AF_INET w = (Some (AF_INET, g), w1)" "members w1 = members w"
        "wmc_errno mc w1 = wmc_errno mc w"
    using assms(2) unfolding win_resolves_def by (metis prod.collapse)
  obtain r w2 where w2: "wmc_setsockopt mc (fileHandle (wm_receiveEvent self)) (W_ADD m) w1 = (r, w2)"
    by fastforce
  then have law: "wmc_errno mc w2 = wmc_errno mc w1" "r = 0 \<longrightarrow> m \<notin> members w1 \<and> members w2 = insert m (members w1)"
      "r \<noteq> 0 \<longrightarrow> members w2 = members w1"
    using assms(1) unfolding win_membership_laws_def by blast+
  have "win_addInterface_index mc self i w = (Ret (if r \<noteq> 0 then - 1 else 1), w2)"
    using port w1 w2 law(1) assms(3,4)
    by (simp add: win_addInterface_index_def win_dropOrAdd_index_def win_membership_result_def)
  then show ?thesis using law w1 by (cases "r = 0") simp_all
qed

section \<open>A concrete host\<close>

record wmc_world =
  ww_list :: NetadapterList
  ww_members :: "mreq set"
  ww_iface :: "32 word list"
  ww_hops :: "32 word"
  ww_log :: "win_sent list"
  ww_orders :: nat

fun demo_win_setsockopt :: "win_option \<Rightarrow> wmc_world \<Rightarrow> int \<times> wmc_world" where
  "demo_win_setsockopt (W_ADD m) w =
     (if m \<in> ww_members w then (- 1, w) else (0, w\<lparr>ww_members := insert m (ww_members w)\<rparr>))"
| "demo_win_setsockopt (W_DROP m) w =
     (if m \<in> ww_members w then (0, w\<lparr>ww_members := ww_members w - {m}\<rparr>) else (- 1, w))"
| "demo_win_setsockopt (W_IF a) w = (0, w\<lparr>ww_iface := a\<rparr>)"
| "demo_win_setsockopt (W_TTL t) w = (0, w\<lparr>ww_hops := t\<rparr>)"
| "demo_win_setsockopt opt w = (0, w)"

definition idle_sockets :: "'w win_socket_os" where
  "idle_sockets = \<lparr>wso_startup = (\<lambda>w. (0, w)), wso_create_event = (\<lambda>w. (60, w)), wso_close_event = (\<lambda>h w. (True, w)),
     wso_ioctl_nonblock = (\<lambda>h w. (0, w)), wso_nodelay = (\<lambda>h w. (0, w)), wso_keepalive = (\<lambda>h a b w. (0, w)),
     wso_getaddrinfo = (\<lambda>a p w. (None, w)), wso_socket = (\<lambda>d w. (100, w)), wso_connect = (\<lambda>h a w. (Inr (), w)),
     wso_select_write = (\<lambda>h t w. (Inr 1, w)), wso_select_read = (\<lambda>h t s. (Inr 1, s)), wso_error = (\<lambda>h w. (0, w)),
     wso_send = (\<lambda>h b w. (Inr (length b), w)), wso_wsasend = (\<lambda>h bs w. (Inr 0, w)), wso_shutdown = (\<lambda>h w. (0, w)),
     wso_closesocket = (\<lambda>h w. (0, w)), wso_getpeername = (\<lambda>h w. (None, w)), wso_getnameinfo = (\<lambda>a w. (None, w)),
     wso_wsa = \<lparr>wsa_recv = (\<lambda>h n m w. (Inl WSAEWOULDBLOCK, w)), wsa_signal = (\<lambda>h ov w. (Inl WSA_IO_PENDING, ov, w))\<rparr>\<rparr>"

definition demo_wmc :: "wmc_world win_mc_os" where
  "demo_wmc = \<lparr>wmc_socket_os = idle_sockets, wmc_getaddrinfo = (\<lambda>g p f w. (Some (AF_INET, 0x010000E0), w)),
     wmc_socket = (\<lambda>f w. (8, w)), wmc_ioctl_nonblock = (\<lambda>fd w. (0, w)), wmc_setsockopt = (\<lambda>fd. demo_win_setsockopt),
     wmc_errno = (\<lambda>w. 0), wmc_bind = (\<lambda>fd a w. (0, w)), wmc_extension = (\<lambda>fd w. (0, w)),
     wmc_recvmsg = (\<lambda>fd area w. (Inl WSA_IO_PENDING, area, w\<lparr>ww_orders := Suc (ww_orders w)\<rparr>)),
     wmc_sendto = (\<lambda>fd b to w. (int (length b), w\<lparr>ww_log := ww_log w @
        [\<lparr>wsent_iface = ww_iface w, wsent_ttl = ww_hops w, wsent_to = to, wsent_data = b\<rparr>]\<rparr>)),
     wmc_lib = le_inet, wmc_list = \<lparr>deref = ww_list, assign = (\<lambda>l w. w\<lparr>ww_list := l\<rparr>)\<rparr>\<rparr>"

text \<open>A server that has received the datagram \<open>[7, 8, 9]\<close> on interface 2, or one of \<open>n\<close> bytes of it.\<close>

definition demo_wm_server :: "nat \<Rightarrow> unit WinMulticastServer" where
  "demo_wm_server n = \<lparr>wm_group = dotted 0xE0000001, wm_port = 31417,
     wm_receiveEvent = \<lparr>completionPort = 7, overlapped = \<lparr>ov_Internal = 0, ov_InternalHigh = of_nat n, ov_hEvent = 60\<rparr>,
       fileHandle = 8\<rparr>,
     wm_sendHandle = 9, wm_recvBuffer = [7, 8, 9], wm_control = [\<lparr>cmsg_type = WIN_IP_PKTINFO, cmsg_int = 2\<rparr>],
     wm_receiveAddr = \<lparr>sin_family = AF_INET, sin_addr4 = 0, sin_port = 0\<rparr>, wm_dataHandler = Some ()\<rparr>"

definition demo_win_host :: wmc_world where
  "demo_win_host = \<lparr>ww_list = \<lparr>m_adapters = [(2, demo_adapter)]\<rparr>, ww_members = {}, ww_iface = [], ww_hops = 0,
     ww_log = [], ww_orders = 1\<rparr>"

lemma demo_wmc_laws:
  "win_membership_laws demo_wmc fd ww_members" "order_laws demo_wmc ww_orders"
  "win_sender_laws demo_wmc fd ww_iface ww_hops ww_log"
  by (auto simp: win_membership_laws_def order_laws_def win_sender_laws_def demo_wmc_def split: if_splits)

lemma demo_win_resolves: "win_resolves demo_wmc (demo_wm_server n) 0x010000E0 ww_members"
proof -
  have "portString (wm_port (demo_wm_server n)) \<noteq> None"
    by (subst portString_None) (simp add: demo_wm_server_def)
  then show ?thesis by (auto simp: win_resolves_def demo_wmc_def)
qed

lemma demo_win_list: "deref (wmc_list demo_wmc) w = ww_list w"
  by (simp add: demo_wmc_def)

lemma demo_win_list_order:
  "ww_list (snd (snd (win_orderNextMessage demo_wmc self w))) = ww_list w"
  by (simp add: win_orderNextMessage_def demo_wmc_def)

lemma demo_win_list_receive:
  "ww_list (snd (snd (win_receiveTelegram demo_wmc self len old w))) = ww_list w"
  by (simp add: win_receiveTelegram_def win_receiveTelegram_index_cases split_beta demo_win_list_order split: sum.split)

lemma wsent_data_datagram [simp]: "wsent_data (win_datagram mc self data ttl i) = data"
  by (simp add: win_datagram_def)

section \<open>Properties\<close>

text \<open>
  A telegram that has arrived is handed out cut to the caller's buffer, never past its end, with the adapter of the
  list whose index the control messages name; when the list has no such adapter the result is -1 and the adapter is left alone.
\<close>

theorem win_receiveTelegram_adapter:
  assumes "win_receiveTelegram mc self len old w = ((t, adapter), self', w')"
    and "0 < arrived self" and "0 < len" and "arrived self \<le> length (wm_recvBuffer self)"
    and "indexed (m_adapters (deref (wmc_list mc) w'))"
  shows "msgbuf t = take len (take (arrived self) (wm_recvBuffer self)) \<and> length (msgbuf t) \<le> len \<and>
    (if nbytes t = int (length (msgbuf t))
     then adapter \<in> set (getArray (deref (wmc_list mc) w')) \<and> m_index adapter = win_interface_of (wm_control self)
     else nbytes t = - 1 \<and> adapter = old \<and>
       (\<forall>a \<in> set (getArray (deref (wmc_list mc) w')). m_index a \<noteq> win_interface_of (wm_control self)))"
proof -
  let ?l = "deref (wmc_list mc) w'" and ?i = "win_interface_of (wm_control self)"
  obtain t1 s1 w1 where step: "win_receiveTelegram_index mc self len 0 w = (t1, s1, w1)" by (metis prod.collapse)
  then have t1: "adapterIndex t1 = ?i" "nbytes t1 = int (min len (arrived self))"
      "msgbuf t1 = take (min len (arrived self)) (wm_recvBuffer self)"
    using assms(2) by (auto simp: win_receiveTelegram_index_cases)
  have w1: "w1 = w'" using assms(1) step by (auto simp: win_receiveTelegram_def split: if_splits sum.splits)
  show ?thesis
  proof (cases "getAdapterByInterfaceIndex ?l ?i")
    case (Inl e)
    then show ?thesis
      using assms(1-4) step t1 w1 adapter_list.unknown_index [OF assms(5) Inl] by (auto simp: win_receiveTelegram_def)
  next
    case (Inr a)
    then show ?thesis
      using assms(1-4) step t1 w1 adapter_list.lookup_entry [OF assms(5) Inr] by (auto simp: win_receiveTelegram_def)
  qed
qed

theorem win_receiveTelegram_adapter_witness:
  "\<exists>t self' w'. win_receiveTelegram demo_wmc (demo_wm_server 3) 2 Netadapter_ctor demo_win_host =
     ((t, demo_adapter), self', w') \<and> msgbuf t = [7, 8]"
proof -
  obtain t a self' w' where r: "win_receiveTelegram demo_wmc (demo_wm_server 3) 2 Netadapter_ctor demo_win_host =
      ((t, a), self', w')" by (metis prod.collapse)
  then have list: "ww_list w' = \<lparr>m_adapters = [(2, demo_adapter)]\<rparr>"
    using demo_win_list_receive [of "demo_wm_server 3" 2 Netadapter_ctor demo_win_host] by (simp add: demo_win_host_def)
  have arr: "arrived (demo_wm_server 3) = 3" and iface: "win_interface_of (wm_control (demo_wm_server 3)) = 2"
    by (simp_all add: arrived_def demo_wm_server_def win_interface_of_def)
  have buf: "wm_recvBuffer (demo_wm_server 3) = [7, 8, 9]" by (simp add: demo_wm_server_def)
  have ix: "indexed (m_adapters (deref (wmc_list demo_wmc) w'))"
    using demo_list_ok adapters_ok_indexed by (simp add: demo_win_list list demo_host_def)
  have mi: "m_index demo_adapter = 2" by (simp add: demo_adapter_def)
  have "msgbuf t = [7, 8]" "a = demo_adapter"
    using win_receiveTelegram_adapter [OF r, unfolded arr iface buf demo_win_list list getArray_map] ix mi
    by (auto simp: demo_win_list list numeral_2_eq_2 numeral_3_eq_3 split: if_splits)
  then show ?thesis using r by blast
qed

text \<open>
  Claim C23: \<open>receiveTelegram\<close> orders the next receive exactly when the one that completed brought bytes. An empty
  datagram is not distinguished from no datagram: the call returns -1, orders nothing, and the server stays deaf.
\<close>

theorem win_receive_orders:
  assumes "order_laws mc orders" and "win_receiveTelegram_index mc self len 0 w = (t, self', w')"
  shows "orders w' = orders w + (if arrived self = 0 then 0 else 1) \<and>
    (arrived self = 0 \<longrightarrow> nbytes t = - 1 \<and> self' = self \<and> w' = w)"
proof (cases "arrived self = 0")
  case False
  then obtain self1 where "snd (win_orderNextMessage mc self1 w) = (self', w')"
    using assms(2) by (auto simp: win_receiveTelegram_index_cases)
  then show ?thesis using orderNextMessage_orders [OF assms(1), of self1 w] False by simp
qed (use assms(2) in \<open>auto simp: win_receiveTelegram_index_cases\<close>)

theorem win_receive_orders_witness:
  "\<exists>t self' w'. win_receiveTelegram_index demo_wmc (demo_wm_server 0) 9 0 demo_win_host = (t, self', w') \<and>
     ww_orders w' = 1 \<and> self' = demo_wm_server 0"
proof -
  obtain t self' w' where r: "win_receiveTelegram_index demo_wmc (demo_wm_server 0) 9 0 demo_win_host = (t, self', w')"
    by (metis prod.collapse)
  have "arrived (demo_wm_server 0) = 0" by (simp add: arrived_def demo_wm_server_def)
  then have "ww_orders w' = ww_orders demo_win_host \<and> self' = demo_wm_server 0"
    using win_receive_orders [OF demo_wmc_laws(2) r] by simp
  then show ?thesis using r by (auto simp: demo_win_host_def)
qed

text \<open>
  When sending over all interfaces reports success, every adapter of the list has got exactly one datagram, in the
  order of the list, with the requested hop limit, the whole data, to the group and port. The interface is selected by two
  words, 0 and the index, of which the option takes the first: the one that means the default interface.
\<close>

theorem win_send_all_sends:
  assumes "win_sender_laws mc (wm_sendHandle self) iface hops log"
    and "win_send_all mc self (Data data) ttl w = (ERR_SUCCESS, w')"
  shows "log w' = log w @ map (\<lambda>a. win_datagram mc self data ttl [0, htonl (wmc_lib mc) (m_index a)])
    (getArray (deref (wmc_list mc) w))"
  using win_send_loop_sends [OF assms(1)] assms(2) by (simp add: win_send_all_def send_errors)

theorem win_send_all_sends_witness:
  "map wsent_data (ww_log (snd (win_send_all demo_wmc (demo_wm_server 3) (Data [1, 2]) 1 demo_win_host))) = [[1, 2]]"
proof -
  let ?send = "win_send_all demo_wmc (demo_wm_server 3) (Data [1, 2]) 1 demo_win_host"
  have "inet_addr le_inet (dotted 0xE0000001) = bswap32 0xE0000001"
    using inet_lawsD(5) [OF le_inet_laws] by (simp add: le_inet_def)
  moreover have "bswap32 0xE0000001 \<noteq> INADDR_NONE" by code_simp
  ultimately have "fst ?send = ERR_SUCCESS"
    by (simp add: win_send_all_def getArray_map demo_win_host_def demo_wmc_def demo_adapter_def demo_wm_server_def
        win_sendByIndex_def win_send_over_def win_send_datagram_def send_errors)
  then have "?send = (ERR_SUCCESS, snd ?send)" by (metis prod.collapse)
  from win_send_all_sends [OF demo_wmc_laws(3) this]
  have "map wsent_data (ww_log (snd ?send)) = [[1, 2]]"
    by (simp add: demo_win_list getArray_map demo_win_host_def)
  then show ?thesis .
qed

text \<open>
  Joining a group on an interface a second time returns -1, not the 0 the header promises, because the code
  looks for the reason in \<open>errno\<close>, which Winsock does not set. The membership stays.
\<close>

theorem win_join_twice:
  assumes "win_membership_laws mc (fileHandle (wm_receiveEvent self)) members" and "win_resolves mc self g members"
    and "wmc_errno mc w \<noteq> EADDRINUSE_crt"
    and "win_addInterface_index mc self i w = (Ret 1, w1)"
  shows "\<exists>w2. win_addInterface_index mc self i w1 = (Ret (- 1), w2) \<and>
    members w2 = insert (Mreq g (htonl (wmc_lib mc) i)) (members w)"
proof -
  have first: "members w1 = insert (Mreq g (htonl (wmc_lib mc) i)) (members w)" "wmc_errno mc w1 \<noteq> EADDRINUSE_crt"
    using win_add_step [OF assms(1-3) refl, of i] assms(3,4) by auto
  show ?thesis using win_add_step [OF assms(1,2) first(2) refl, of i] first(1) by auto
qed

theorem win_join_twice_witness:
  "\<exists>w1 w2. win_addInterface_index demo_wmc (demo_wm_server 3) 2 demo_win_host = (Ret 1, w1) \<and>
     win_addInterface_index demo_wmc (demo_wm_server 3) 2 w1 = (Ret (- 1), w2) \<and>
     ww_members w2 = {Mreq 0x010000E0 0x02000000}"
proof -
  let ?self = "demo_wm_server 3"
  have errno: "wmc_errno demo_wmc demo_win_host \<noteq> EADDRINUSE_crt" by (simp add: demo_wmc_def EADDRINUSE_crt_def)
  obtain port where "portString 31417 = Some port"
    using portString_None [of 31417] by (auto simp: not_le)
  then obtain w1 where w1: "win_addInterface_index demo_wmc ?self 2 demo_win_host = (Ret 1, w1)"
    by (simp add: win_addInterface_index_def win_dropOrAdd_index_def demo_wm_server_def demo_wmc_def demo_win_host_def
        win_membership_result_def)
  have "htonl (wmc_lib demo_wmc) 2 = 0x02000000" by (simp add: demo_wmc_def le_inet_def) code_simp
  then have "\<exists>w2. win_addInterface_index demo_wmc ?self 2 w1 = (Ret (- 1), w2) \<and>
      ww_members w2 = {Mreq 0x010000E0 0x02000000}"
    using win_join_twice [OF demo_wmc_laws(1) demo_win_resolves errno w1] by (simp add: demo_win_host_def)
  then show ?thesis using w1 by blast
qed

end
