(* ===== verification/Wmi.thy ===== *)
theory Wmi
  imports WinNetadapterList
begin

text \<open>
  \<open>lib/communication/windows/wmi.cpp\<close>: configuring an adapter through WMI. COM objects are counted references: the state keeps
  how many references, arrays and strings the code holds, and \<open>ub\<close> records that it used or gave back one that it no longer
  held. The calls into COM are the record \<open>wmi_os\<close>; a pointer is a number, 0 is \<open>NULL\<close>.
\<close>

section \<open>The data\<close>

datatype resource = ComLibrary | Object nat | Array nat | Bstr | Variant

text \<open>
  The calls. \<open>Some\<close> is the object of a call that succeeds; where the code compares with \<open>WBEM_S_NO_ERROR\<close>, that is 0, the
  result comes with the pointer. \<open>wmi_next\<close> returns whether it succeeded and the object, if any.
\<close>

record 'w wmi_os =
  wmi_co_initialize :: "'w \<Rightarrow> bool \<times> 'w"
  wmi_co_security :: "'w \<Rightarrow> bool \<times> 'w"
  wmi_co_uninitialize :: "'w \<Rightarrow> unit \<times> 'w"
  wmi_create_locator :: "'w \<Rightarrow> nat option \<times> 'w"
  wmi_connect_server :: "nat \<Rightarrow> 'w \<Rightarrow> nat option \<times> 'w"
  wmi_set_blanket :: "nat \<Rightarrow> 'w \<Rightarrow> bool \<times> 'w"
  wmi_exec_query :: "nat \<Rightarrow> string \<Rightarrow> 'w \<Rightarrow> nat option \<times> 'w"
  wmi_next :: "nat \<Rightarrow> 'w \<Rightarrow> (bool \<times> nat option) \<times> 'w"
  wmi_get_path :: "nat \<Rightarrow> 'w \<Rightarrow> string option \<times> 'w"
  wmi_exec_method :: "nat \<Rightarrow> string \<Rightarrow> string \<Rightarrow> nat \<Rightarrow> 'w \<Rightarrow> (int \<times> nat) \<times> 'w"
  wmi_get_object :: "nat \<Rightarrow> string \<Rightarrow> 'w \<Rightarrow> (int \<times> nat) \<times> 'w"
  wmi_get_method :: "nat \<Rightarrow> string \<Rightarrow> 'w \<Rightarrow> (int \<times> nat) \<times> 'w"
  wmi_spawn_instance :: "nat \<Rightarrow> 'w \<Rightarrow> (int \<times> nat) \<times> 'w"
  wmi_new_array :: "'w \<Rightarrow> nat \<times> 'w"
  wmi_put_element :: "nat \<Rightarrow> string \<Rightarrow> 'w \<Rightarrow> bool \<times> 'w"
  wmi_put :: "nat \<Rightarrow> string \<Rightarrow> nat \<Rightarrow> 'w \<Rightarrow> int \<times> 'w"

record 'w WMI =
  m_pLoc :: nat
  m_pSvc :: nat
  held :: "resource \<Rightarrow> nat"
  ub :: bool
  com_world :: 'w

definition com :: "('w \<Rightarrow> 'a \<times> 'w) \<Rightarrow> 'w WMI \<Rightarrow> 'a \<times> 'w WMI" where
  "com call s = (case call (com_world s) of (x, w) \<Rightarrow> (x, s\<lparr>com_world := w\<rparr>))"

definition acquire :: "resource \<Rightarrow> 'w WMI \<Rightarrow> 'w WMI" where
  "acquire r s = s\<lparr>held := (held s)(r := Suc (held s r))\<rparr>"

definition touch :: "resource \<Rightarrow> 'w WMI \<Rightarrow> 'w WMI" where
  "touch r s = (if held s r = 0 then s\<lparr>ub := True\<rparr> else s)"

definition release :: "resource \<Rightarrow> 'w WMI \<Rightarrow> 'w WMI" where
  "release r s = (let s = touch r s in s\<lparr>held := (held s)(r := held s r - 1)\<rparr>)"

text \<open>A pointer that may be \<open>NULL\<close>; destroying no array does nothing.\<close>

definition acquire_nonnull :: "(nat \<Rightarrow> resource) \<Rightarrow> nat \<Rightarrow> 'w WMI \<Rightarrow> 'w WMI" where
  "acquire_nonnull kind p s = (if p = 0 then s else acquire (kind p) s)"

definition release_nonnull :: "(nat \<Rightarrow> resource) \<Rightarrow> nat \<Rightarrow> 'w WMI \<Rightarrow> 'w WMI" where
  "release_nonnull kind p s = (if p = 0 then s else release (kind p) s)"

text \<open>A method of an object.\<close>

definition invoke_on :: "nat \<Rightarrow> ('w \<Rightarrow> 'a \<times> 'w) \<Rightarrow> 'w WMI \<Rightarrow> 'a \<times> 'w WMI" where
  "invoke_on p call s = com call (touch (Object p) s)"

section \<open>Initialisation\<close>

definition initWMI :: "'w wmi_os \<Rightarrow> 'w WMI \<Rightarrow> int \<times> 'w WMI" where
  "initWMI os s =
     (if m_pLoc s \<noteq> 0 \<and> m_pSvc s \<noteq> 0 then (1, s)
      else case com (wmi_co_initialize os) s of
        (False, s) \<Rightarrow> (- 1, s)
      | (True, s) \<Rightarrow>
          (let s = acquire ComLibrary s in
           case com (wmi_co_security os) s of
             (False, s) \<Rightarrow> (- 1, s)
           | (True, s) \<Rightarrow>
               (case com (wmi_create_locator os) s of
                  (None, s) \<Rightarrow> (- 1, s\<lparr>m_pLoc := 0\<rparr>)
                | (Some loc, s) \<Rightarrow>
                    (let s = (acquire (Object loc) s)\<lparr>m_pLoc := loc\<rparr> in
                     case invoke_on loc (wmi_connect_server os loc) s of
                       (None, s) \<Rightarrow> (- 1, (release (Object loc) s)\<lparr>m_pSvc := 0, m_pLoc := 0\<rparr>)
                     | (Some svc, s) \<Rightarrow>
                         (let s = (acquire (Object svc) s)\<lparr>m_pSvc := svc\<rparr> in
                          case invoke_on svc (wmi_set_blanket os svc) s of
                            (False, s) \<Rightarrow>
                              (let s = (release (Object svc) s)\<lparr>m_pSvc := 0\<rparr>
                               in (- 1, (release (Object loc) s)\<lparr>m_pLoc := 0\<rparr>))
                          | (True, s) \<Rightarrow> (0, s))))))"

definition uninitWMI :: "'w wmi_os \<Rightarrow> 'w WMI \<Rightarrow> 'w WMI" where
  "uninitWMI os s =
     (let s = (if m_pSvc s \<noteq> 0 then (release (Object (m_pSvc s)) s)\<lparr>m_pSvc := 0\<rparr> else s);
          s = (if m_pLoc s \<noteq> 0 then (release (Object (m_pLoc s)) s)\<lparr>m_pLoc := 0\<rparr> else s)
      in release ComLibrary (snd (com (wmi_co_uninitialize os) s)))"

section \<open>Queries\<close>

text \<open>\<open>ExecQuery\<close>, \<open>Next\<close> and the release of the enumerator; the object of the first result, if there is one.\<close>

definition first_result :: "'w wmi_os \<Rightarrow> string \<Rightarrow> 'w WMI \<Rightarrow> nat option \<times> 'w WMI" where
  "first_result os query s =
     (case invoke_on (m_pSvc s) (wmi_exec_query os (m_pSvc s) query) s of
        (None, s) \<Rightarrow> (None, s)
      | (Some pEnumerator, s) \<Rightarrow>
          (let s = acquire (Object pEnumerator) s;
               ((hres, pWMIAdapter), s) = invoke_on pEnumerator (wmi_next os pEnumerator) s;
               s = (case pWMIAdapter of None \<Rightarrow> s | Some p \<Rightarrow> acquire (Object p) s);
               s = release (Object pEnumerator) s
           in (if hres then pWMIAdapter else None, s)))"

definition product_query :: "Netadapter \<Rightarrow> string" where
  "product_query adapter =
     ''SELECT ProductName FROM Win32_NetworkAdapter WHERE ProductName='' @ [char_of (39 :: nat)] @
     ''HBM IEEE1394 IP Adapter'' @ [char_of (39 :: nat)] @ '' AND InterfaceIndex='' @ to_string (unat (m_index adapter))"

definition configuration_query :: "Netadapter \<Rightarrow> string" where
  "configuration_query adapter =
     ''SELECT * FROM Win32_NetworkAdapterConfiguration WHERE InterfaceIndex='' @ to_string (unat (m_index adapter))"

definition wmi_isFirewireAdapter :: "'w wmi_os \<Rightarrow> Netadapter \<Rightarrow> 'w WMI \<Rightarrow> bool \<times> 'w WMI" where
  "wmi_isFirewireAdapter os adapter s =
     (if m_pLoc s = 0 \<or> m_pSvc s = 0 then (False, s)
      else case first_result os (product_query adapter) s of
        (None, s) \<Rightarrow> (False, s)
      | (Some pWMIAdapter, s) \<Rightarrow> (True, release (Object pWMIAdapter) s))"

text \<open>\<open>Netadapter::isFirewireAdapter\<close> of the Windows backend.\<close>

definition win_Netadapter_isFirewireAdapter :: "'w wmi_os \<Rightarrow> Netadapter \<Rightarrow> 'w WMI \<Rightarrow> bool \<times> 'w WMI" where
  "win_Netadapter_isFirewireAdapter os self s = wmi_isFirewireAdapter os self s"

text \<open>The WMI path of an adapter, in a variant the caller has to clear.\<close>

definition adapter_path :: "'w wmi_os \<Rightarrow> Netadapter \<Rightarrow> 'w WMI \<Rightarrow> string option \<times> 'w WMI" where
  "adapter_path os adapter s =
     (case first_result os (configuration_query adapter) s of
        (None, s) \<Rightarrow> (None, s)
      | (Some pWMIAdapter, s) \<Rightarrow>
          (case invoke_on pWMIAdapter (wmi_get_path os pWMIAdapter) s of
             (v, s) \<Rightarrow>
               (let s = release (Object pWMIAdapter) s in
                (v, case v of None \<Rightarrow> s | Some _ \<Rightarrow> acquire Variant s))))"

text \<open>\<open>ExecMethod\<close>, the release of the path and of the result.\<close>

definition exec_method :: "'w wmi_os \<Rightarrow> string \<Rightarrow> string \<Rightarrow> nat \<Rightarrow> 'w WMI \<Rightarrow> int \<times> 'w WMI" where
  "exec_method os path method pInInst s =
     (let s = (if pInInst = 0 then s else touch (Object pInInst) s);
          ((hres, pOutInst), s) = invoke_on (m_pSvc s) (wmi_exec_method os (m_pSvc s) path method pInInst) s;
          s = acquire_nonnull Object pOutInst s;
          s = release Variant s
      in (hres, release_nonnull Object pOutInst s))"

section \<open>Changing the configuration\<close>

definition enableDHCP :: "'w wmi_os \<Rightarrow> Netadapter \<Rightarrow> 'w WMI \<Rightarrow> int \<times> 'w WMI" where
  "enableDHCP os adapter s =
     (if m_pLoc s = 0 \<or> m_pSvc s = 0 then (- 1, s)
      else case adapter_path os adapter s of
        (None, s) \<Rightarrow> (- 1, s)
      | (Some v, s) \<Rightarrow>
          (case exec_method os v ''EnableDHCP'' 0 s of
             (hres, s) \<Rightarrow> (if hres \<noteq> 0 then - 1 else 0, s)))"

text \<open>
  Filling an array with a text: through \<open>sztmp\<close>, which holds 16 wide characters, so that more than 15 overflow it or leave it
  without its end.
\<close>

definition fill_array :: "'w wmi_os \<Rightarrow> nat \<Rightarrow> string \<Rightarrow> 'w WMI \<Rightarrow> bool \<times> 'w WMI" where
  "fill_array os arr t s =
     (let sztmp = takeWhile (\<lambda>c. c \<noteq> CHR 0x00) t;
          s = (if 16 \<le> length sztmp then s\<lparr>ub := True\<rparr> else s);
          s = acquire Bstr s;
          (ok, s) = com (wmi_put_element os arr sztmp) s
      in (ok, release Bstr s))"

text \<open>An object for the input parameters of \<open>EnableStatic\<close>, or \<open>None\<close>.\<close>

definition input_parameters :: "'w wmi_os \<Rightarrow> 'w WMI \<Rightarrow> nat option \<times> 'w WMI" where
  "input_parameters os s =
     (let ((hres, pClass), s) = invoke_on (m_pSvc s) (wmi_get_object os (m_pSvc s) ''Win32_NetworkAdapterConfiguration'') s;
          s = acquire_nonnull Object pClass s in
      if hres \<noteq> 0 then (None, s)
      else let ((hres, pParamsIn), s) = invoke_on pClass (wmi_get_method os pClass ''EnableStatic'') s;
               s = acquire_nonnull Object pParamsIn s;
               s = release (Object pClass) s in
        if hres \<noteq> 0 then (None, s)
        else let ((hres, pInInst), s) = invoke_on pParamsIn (wmi_spawn_instance os pParamsIn) s;
                 s = acquire_nonnull Object pInInst s;
                 s = release (Object pParamsIn) s in
          if hres \<noteq> 0 then (None, s) else (Some pInInst, s))"

text \<open>
  Putting both arrays into the parameters. After a failure the parameters and the arrays are given back, and the function
  goes on.
\<close>

definition put_arguments :: "'w wmi_os \<Rightarrow> nat \<Rightarrow> nat \<Rightarrow> nat \<Rightarrow> 'w WMI \<Rightarrow> 'w WMI" where
  "put_arguments os pInInst ip_list netmask_list s =
     (let (r, s) = invoke_on pInInst (wmi_put os pInInst ''IPAddress'' ip_list) s;
          (r, s) = (if r \<noteq> 0 then (r, s) else invoke_on pInInst (wmi_put os pInInst ''SubNetMask'' netmask_list) s) in
      if r \<noteq> 0
      then release_nonnull Array netmask_list (release_nonnull Array ip_list (release (Object pInInst) s))
      else s)"

text \<open>Executing \<open>EnableStatic\<close> on the adapter, with what is given back on the way.\<close>

definition enable_static :: "'w wmi_os \<Rightarrow> Netadapter \<Rightarrow> nat \<Rightarrow> nat \<Rightarrow> nat \<Rightarrow> 'w WMI \<Rightarrow> int \<times> 'w WMI" where
  "enable_static os adapter pInInst ip_list netmask_list s =
     (case adapter_path os adapter s of
        (None, s) \<Rightarrow> (- 1, release (Object pInInst) s)
      | (Some v, s) \<Rightarrow>
          (let (hres, s) = exec_method os v ''EnableStatic'' pInInst s;
               s = release (Object pInInst) s;
               s = release_nonnull Array netmask_list (release_nonnull Array ip_list s)
           in (if hres \<noteq> 0 then - 1 else 0, s)))"

definition setManualIpV4 :: "'w wmi_os \<Rightarrow> Netadapter \<Rightarrow> Ipv4Address \<Rightarrow> 'w WMI \<Rightarrow> int \<times> 'w WMI" where
  "setManualIpV4 os adapter manualConfig s =
     (if m_pLoc s = 0 \<or> m_pSvc s = 0 then (- 1, s)
      else case input_parameters os s of
        (None, s) \<Rightarrow> (- 1, s)
      | (Some pInInst, s) \<Rightarrow>
          (let (ip_list, s) = com (wmi_new_array os) s;
               s = acquire_nonnull Array ip_list s;
               (ok, s) = fill_array os ip_list (address manualConfig) s in
           if \<not> ok then (- 1, release_nonnull Array ip_list (release (Object pInInst) s))
           else let (netmask_list, s) = com (wmi_new_array os) s;
                    s = acquire_nonnull Array netmask_list s;
                    (ok, s) = fill_array os netmask_list (netmask manualConfig) s in
             if \<not> ok
             then (- 1, release_nonnull Array netmask_list (release_nonnull Array ip_list (release (Object pInInst) s)))
             else enable_static os adapter pInInst ip_list netmask_list (put_arguments os pInInst ip_list netmask_list s)))"

end
