(* ===== verification/WmiBehaviour.thy ===== *)
theory WmiBehaviour
  imports Wmi
begin

text \<open>
  What the WMI client holds on to: that queries and enabling DHCP give everything back, that setting a manual address does so
  when it succeeds, and what happens when storing the address fails.
\<close>

section \<open>Counting\<close>

text \<open>The state after a step that did nothing wrong and holds \<open>h\<close> now.\<close>

definition clean :: "'w WMI \<Rightarrow> (resource \<Rightarrow> nat) \<Rightarrow> 'w WMI \<Rightarrow> bool" where
  "clean s h s' \<longleftrightarrow> ub s' = ub s \<and> held s' = h \<and> m_pLoc s' = m_pLoc s \<and> m_pSvc s' = m_pSvc s"

definition plus :: "(resource \<Rightarrow> nat) \<Rightarrow> resource \<Rightarrow> resource \<Rightarrow> nat" where
  "plus h r = h(r := Suc (h r))"

named_theorems com_simps \<open>the effect of the calls on what is held\<close>

lemma com_frame [com_simps]:
  "held (snd (com f s)) = held s" "ub (snd (com f s)) = ub s"
  "m_pLoc (snd (com f s)) = m_pLoc s" "m_pSvc (snd (com f s)) = m_pSvc s"
  by (simp_all add: com_def split_beta)

lemma touch_held [com_simps]:
  "held (touch r s) = held s" "m_pLoc (touch r s) = m_pLoc s" "m_pSvc (touch r s) = m_pSvc s"
  "ub (touch r s) = (ub s \<or> held s r = 0)"
  by (simp_all add: touch_def)

lemma acquire_frame [com_simps]:
  "held (acquire r s) = plus (held s) r" "ub (acquire r s) = ub s"
  "m_pLoc (acquire r s) = m_pLoc s" "m_pSvc (acquire r s) = m_pSvc s"
  by (simp_all add: acquire_def plus_def)

lemma release_frame [com_simps]:
  "held (release r s) = (held s)(r := held s r - 1)" "ub (release r s) = (ub s \<or> held s r = 0)"
  "m_pLoc (release r s) = m_pLoc s" "m_pSvc (release r s) = m_pSvc s"
  by (simp_all add: release_def Let_def com_simps)

lemma invoke_frame [com_simps]:
  "held (snd (invoke_on p f s)) = held s" "ub (snd (invoke_on p f s)) = (ub s \<or> held s (Object p) = 0)"
  "m_pLoc (snd (invoke_on p f s)) = m_pLoc s" "m_pSvc (snd (invoke_on p f s)) = m_pSvc s"
  by (simp_all add: invoke_on_def com_simps)

lemma nonnull_frame [com_simps]:
  "held (acquire_nonnull k p s) = (if p = 0 then held s else plus (held s) (k p))" "ub (acquire_nonnull k p s) = ub s"
  "m_pLoc (acquire_nonnull k p s) = m_pLoc s" "m_pSvc (acquire_nonnull k p s) = m_pSvc s"
  "held (release_nonnull k p s) = (if p = 0 then held s else (held s)(k p := held s (k p) - 1))"
  "ub (release_nonnull k p s) = (ub s \<or> p \<noteq> 0 \<and> held s (k p) = 0)"
  "m_pLoc (release_nonnull k p s) = m_pLoc s" "m_pSvc (release_nonnull k p s) = m_pSvc s"
  by (simp_all add: acquire_nonnull_def release_nonnull_def com_simps)

lemma plus_minus [com_simps]: "(plus h r)(r := h r) = h"
  by (simp add: plus_def)

lemma plus_pos [com_simps]: "plus h r r = Suc (h r)" "0 < h r' \<Longrightarrow> 0 < plus h r r'"
  by (simp_all add: plus_def)

lemma plus_zero: "(plus h r r' = 0) = (r' \<noteq> r \<and> h r' = 0)"
  by (simp add: plus_def)

lemma plus_back: "(plus (plus h r) q)(r := plus (plus h r) q r - 1) = plus h q"
  by (auto simp: plus_def fun_eq_iff)

text \<open>Documented: the pointer is there exactly after success, and a failing \<open>Next\<close> returns no object.\<close>

definition com_laws :: "'w wmi_os \<Rightarrow> bool" where
  "com_laws os \<longleftrightarrow>
     (\<forall>p n w. (fst (fst (wmi_get_object os p n w)) = 0) = (snd (fst (wmi_get_object os p n w)) \<noteq> 0)) \<and>
     (\<forall>p n w. (fst (fst (wmi_get_method os p n w)) = 0) = (snd (fst (wmi_get_method os p n w)) \<noteq> 0)) \<and>
     (\<forall>p w. (fst (fst (wmi_spawn_instance os p w)) = 0) = (snd (fst (wmi_spawn_instance os p w)) \<noteq> 0)) \<and>
     (\<forall>p w. \<not> fst (fst (wmi_next os p w)) \<longrightarrow> snd (fst (wmi_next os p w)) = None)"

lemma com_lawsD:
  assumes "com_laws os"
  shows "invoke_on q (wmi_get_object os p n) s = ((h, x), s') \<Longrightarrow> (h = 0) = (x \<noteq> 0)"
    and "invoke_on q (wmi_get_method os p n) s = ((h, x), s') \<Longrightarrow> (h = 0) = (x \<noteq> 0)"
    and "invoke_on q (wmi_spawn_instance os p) s = ((h, x), s') \<Longrightarrow> (h = 0) = (x \<noteq> 0)"
    and "invoke_on q (wmi_next os p) s = ((ok, ob), s') \<Longrightarrow> \<not> ok \<Longrightarrow> ob = None"
  using assms unfolding com_laws_def invoke_on_def com_def
  by (auto split: prod.splits) (metis fst_conv snd_conv)+

lemma com_result: "com f s = (x, s') \<Longrightarrow> fst (f (com_world s)) = x"
  by (auto simp: com_def split: prod.splits)

lemma snd_eq: "f = (a, b) \<Longrightarrow> b = snd f"
  by simp

section \<open>The parts\<close>

lemma first_result_clean:
  assumes "com_laws os" and "0 < held s (Object (m_pSvc s))" and "first_result os q s = (r, s')"
  shows "clean s (case r of None \<Rightarrow> held s | Some p \<Rightarrow> plus (held s) (Object p)) s'"
proof -
  obtain e s1 where e: "invoke_on (m_pSvc s) (wmi_exec_query os (m_pSvc s) q) s = (e, s1)" by fastforce
  then have s1: "clean s (held s) s1" using assms(2) by (auto simp: clean_def com_simps dest!: snd_eq)
  show ?thesis
  proof (cases e)
    case None
    then show ?thesis using e s1 assms(3) by (simp add: first_result_def)
  next
    case (Some en)
    let ?s2 = "acquire (Object en) s1"
    obtain ok ob s3 where n: "invoke_on en (wmi_next os en) ?s2 = ((ok, ob), s3)" by (metis prod.collapse)
    then have s3: "clean s (plus (held s) (Object en)) s3"
      using s1 by (auto simp: clean_def com_simps dest!: snd_eq)
    have ok: "ok \<or> ob = None" using com_lawsD(4) [OF assms(1) n] by blast
    show ?thesis
    proof (cases ob)
      case None
      then have "r = None" "s' = release (Object en) s3"
        using assms(3) e Some n by (simp_all add: first_result_def)
      then show ?thesis using s3 by (simp add: clean_def com_simps)
    next
      case (Some p)
      then have "r = Some p" "s' = release (Object en) (acquire (Object p) s3)"
        using assms(3) e \<open>e = Some en\<close> n ok by (simp_all add: first_result_def)
      then show ?thesis using s3 plus_back [of "held s" "Object en" "Object p"] by (simp add: clean_def com_simps plus_zero)
    qed
  qed
qed

lemma adapter_path_clean:
  assumes "com_laws os" and "0 < held s (Object (m_pSvc s))" and "adapter_path os a s = (r, s')"
  shows "clean s (case r of None \<Rightarrow> held s | Some _ \<Rightarrow> plus (held s) Variant) s'"
proof -
  obtain p s1 where p: "first_result os (configuration_query a) s = (p, s1)" by fastforce
  note s1 = first_result_clean [OF assms(1,2) p]
  show ?thesis
  proof (cases p)
    case None
    then show ?thesis using assms(3) p s1 by (simp add: adapter_path_def)
  next
    case (Some ad)
    obtain v s2 where v: "invoke_on ad (wmi_get_path os ad) s1 = (v, s2)" by fastforce
    then have "clean s (plus (held s) (Object ad)) s2"
      using s1 Some by (auto simp: clean_def com_simps dest!: snd_eq)
    then have s2: "held s2 = plus (held s) (Object ad)" "ub s2 = ub s" "m_pLoc s2 = m_pLoc s" "m_pSvc s2 = m_pSvc s"
      by (simp_all add: clean_def)
    have r: "r = v" "s' = (case v of None \<Rightarrow> release (Object ad) s2 | Some _ \<Rightarrow> acquire Variant (release (Object ad) s2))"
      using assms(3) p Some v by (auto simp: adapter_path_def Let_def)
    then show ?thesis using s2 by (cases v) (simp_all add: clean_def com_simps)
  qed
qed

lemma exec_method_clean:
  assumes "0 < held s (Object (m_pSvc s))" and "i = 0 \<or> 0 < held s (Object i)" and "held s = plus h Variant"
    and "exec_method os path m i s = (r, s')"
  shows "clean s h s'"
proof -
  let ?s = "if i = 0 then s else touch (Object i) s"
  obtain hres out s1 where e: "invoke_on (m_pSvc ?s) (wmi_exec_method os (m_pSvc ?s) path m i) ?s = ((hres, out), s1)"
    by (metis prod.collapse)
  then have "clean s (held s) s1" using assms(1,2) by (auto simp: clean_def com_simps split: if_splits dest!: snd_eq)
  then show ?thesis
    using assms(3,4) e by (auto simp: exec_method_def clean_def com_simps plus_def fun_eq_iff Let_def split: if_splits)
qed

lemma input_parameters_clean:
  assumes "com_laws os" and "0 < held s (Object (m_pSvc s))" and "input_parameters os s = (r, s')"
  shows "clean s (case r of None \<Rightarrow> held s | Some p \<Rightarrow> plus (held s) (Object p)) s'" and "r \<noteq> Some 0"
proof -
  obtain h1 c s1 where c: "invoke_on (m_pSvc s) (wmi_get_object os (m_pSvc s) ''Win32_NetworkAdapterConfiguration'') s = ((h1, c), s1)"
    by (metis prod.collapse)
  have s1: "clean s (held s) s1" using assms(2) c by (auto simp: clean_def com_simps dest!: snd_eq)
  have hc: "(h1 = 0) = (c \<noteq> 0)" using com_lawsD(1) [OF assms(1) c] .
  obtain h2 p s2 where p: "invoke_on c (wmi_get_method os c ''EnableStatic'') (acquire_nonnull Object c s1) = ((h2, p), s2)"
    by (metis prod.collapse)
  have hp: "(h2 = 0) = (p \<noteq> 0)" using com_lawsD(2) [OF assms(1) p] .
  let ?s3 = "release (Object c) (acquire_nonnull Object p s2)"
  obtain h3 i s4 where i: "invoke_on p (wmi_spawn_instance os p) ?s3 = ((h3, i), s4)" by (metis prod.collapse)
  have hi: "(h3 = 0) = (i \<noteq> 0)" using com_lawsD(3) [OF assms(1) i] .
  have s2: "clean s (plus (held s) (Object c)) s2" if "c \<noteq> 0"
    using that p s1 by (auto simp: clean_def com_simps dest!: snd_eq)
  have s3: "clean s (if p = 0 then held s else plus (held s) (Object p)) ?s3" if "c \<noteq> 0"
    using s2 [OF that] by (auto simp: clean_def com_simps plus_def fun_eq_iff)
  have s4: "clean s (plus (held s) (Object p)) s4" if "c \<noteq> 0" "p \<noteq> 0"
    using s3 [OF that(1)] that(2) i by (auto simp: clean_def com_simps dest!: snd_eq)
  have res: "input_parameters os s =
      (if c = 0 then (None, s1) else if p = 0 then (None, ?s3)
       else (if i = 0 then None else Some i, release (Object p) (acquire_nonnull Object i s4)))"
    using c p i hc hp hi by (auto simp: input_parameters_def Let_def acquire_nonnull_def)
  show "clean s (case r of None \<Rightarrow> held s | Some p \<Rightarrow> plus (held s) (Object p)) s'"
  proof (cases "c = 0 \<or> p = 0")
    case True
    then show ?thesis using assms(3) res s1 s3 by (cases "c = 0") simp_all
  next
    case False
    then have h: "held s4 = plus (held s) (Object p)" "ub s4 = ub s" "m_pLoc s4 = m_pLoc s" "m_pSvc s4 = m_pSvc s"
      using s4 by (simp_all add: clean_def)
    have r: "r = (if i = 0 then None else Some i)" "s' = release (Object p) (acquire_nonnull Object i s4)"
      using False assms(3) res by simp_all
    show ?thesis
      using h r plus_back [of "held s" "Object p" "Object i"] by (cases "i = 0") (simp_all add: clean_def com_simps plus_zero)
  qed
  show "r \<noteq> Some 0" using assms(3) res by (auto split: if_splits)
qed

lemma fill_array_clean:
  assumes "fill_array os arr t s = (ok, s')"
  shows "clean (s\<lparr>ub := ub s \<or> 16 \<le> length (takeWhile (\<lambda>c. c \<noteq> CHR 0x00) t)\<rparr>) (held s) s'"
  using assms by (auto simp: fill_array_def clean_def Let_def com_simps split_beta)

lemma exec_method_stale: "i \<noteq> 0 \<Longrightarrow> held s (Object i) = 0 \<Longrightarrow> ub (snd (exec_method os path m i s))"
  by (simp add: exec_method_def Let_def split_beta com_simps)

text \<open>The state while the arguments are made: the parameters and both arrays are held.\<close>

definition arguments :: "(resource \<Rightarrow> nat) \<Rightarrow> nat \<Rightarrow> nat \<Rightarrow> nat \<Rightarrow> resource \<Rightarrow> nat" where
  "arguments h i ip nm =
     (let h = plus h (Object i); h = (if ip = 0 then h else plus h (Array ip)) in if nm = 0 then h else plus h (Array nm))"

lemma arguments_objects: "arguments h i ip nm (Object p) = (if p = i then Suc (h (Object p)) else h (Object p))"
  "arguments h i ip nm Variant = h Variant"
  by (simp_all add: arguments_def plus_def Let_def)

lemma release_arguments:
  assumes "clean s (arguments h i ip nm) t" and "\<not> ub s"
  shows "clean s h (release_nonnull Array nm (release_nonnull Array ip (release (Object i) t)))"
  using assms by (auto simp: clean_def com_simps arguments_def plus_def fun_eq_iff)

lemma manual_arguments:
  assumes "clean s (plus (held s) (Object i)) s1" and "length (address c) < 16" and "length (netmask c) < 16"
    and ip: "com (wmi_new_array os) s1 = (ip, s2)"
    and f1: "fill_array os ip (address c) (acquire_nonnull Array ip s2) = (ok1, s3)"
    and nm: "com (wmi_new_array os) s3 = (nm, s4)"
    and f2: "fill_array os nm (netmask c) (acquire_nonnull Array nm s4) = (ok2, s5)"
  shows "clean s (arguments (held s) i ip 0) s3" and "clean s (arguments (held s) i ip nm) s5"
proof -
  have short: "\<not> 16 \<le> length (takeWhile p t)" if "length t < 16" for p and t :: string
    using that length_takeWhile_le [of p t] by simp
  have "clean s (arguments (held s) i ip 0) (acquire_nonnull Array ip s2)"
    using assms(1) ip by (auto simp: clean_def arguments_def com_simps Let_def dest!: snd_eq)
  then show s3: "clean s (arguments (held s) i ip 0) s3"
    using fill_array_clean [OF f1] short [OF assms(2)] by (simp add: clean_def)
  then have "clean s (arguments (held s) i ip nm) (acquire_nonnull Array nm s4)"
    using nm by (auto simp: clean_def arguments_def com_simps Let_def dest!: snd_eq)
  then show "clean s (arguments (held s) i ip nm) s5"
    using fill_array_clean [OF f2] short [OF assms(3)] by (simp add: clean_def)
qed

lemma enable_static_clean:
  assumes "com_laws os" and "0 < held s (Object (m_pSvc s))" and "\<not> ub s"
    and t: "clean s (arguments (held s) i ip nm) t" and step: "enable_static os a i ip nm t = (r, s')"
  shows "\<not> ub s' \<and> (r = 0 \<longrightarrow> held s' = held s)"
proof -
  obtain v t1 where v: "adapter_path os a t = (v, t1)" by fastforce
  have "0 < held t (Object (m_pSvc t))" using t assms(2) by (simp add: clean_def arguments_objects)
  note t1 = adapter_path_clean [OF assms(1) this v]
  show ?thesis
  proof (cases v)
    case None
    then have "held t1 (Object i) \<noteq> 0" "\<not> ub t1" using t t1 assms(3) by (simp_all add: clean_def arguments_objects)
    then show ?thesis using step v None by (auto simp: enable_static_def com_simps)
  next
    case (Some path)
    obtain hr t2 where e: "exec_method os path ''EnableStatic'' i t1 = (hr, t2)" by fastforce
    have "clean t1 (arguments (held s) i ip nm) t2"
      by (rule exec_method_clean [OF _ _ _ e])
        (use t t1 Some assms(2) in \<open>simp_all add: clean_def plus_def arguments_objects\<close>)
    then have "clean s (arguments (held s) i ip nm) t2" using t t1 by (simp add: clean_def)
    from release_arguments [OF this assms(3)] show ?thesis
      using step v Some e assms(3) by (auto simp: enable_static_def clean_def)
  qed
qed

section \<open>A concrete system\<close>

text \<open>One adapter; storing a property fails with the number given.\<close>

definition demo_wmi :: "int \<Rightarrow> unit wmi_os" where
  "demo_wmi put = \<lparr>wmi_co_initialize = (\<lambda>w. (True, w)), wmi_co_security = (\<lambda>w. (True, w)), wmi_co_uninitialize = (\<lambda>w. ((), w)),
     wmi_create_locator = (\<lambda>w. (Some 1, w)), wmi_connect_server = (\<lambda>p w. (Some 2, w)), wmi_set_blanket = (\<lambda>p w. (True, w)),
     wmi_exec_query = (\<lambda>p q w. (Some 3, w)), wmi_next = (\<lambda>p w. ((True, Some 4), w)), wmi_get_path = (\<lambda>p w. (Some ''path'', w)),
     wmi_exec_method = (\<lambda>p q m i w. ((0, 5), w)), wmi_get_object = (\<lambda>p n w. ((0, 6), w)),
     wmi_get_method = (\<lambda>p n w. ((0, 7), w)), wmi_spawn_instance = (\<lambda>p w. ((0, 8), w)),
     wmi_new_array = (\<lambda>w. (9, w)), wmi_put_element = (\<lambda>a t w. (True, w)), wmi_put = (\<lambda>p n a w. (put, w))\<rparr>"

definition wmi_ready :: "unit WMI" where
  "wmi_ready = \<lparr>m_pLoc = 1, m_pSvc = 2, held = (\<lambda>r. if r \<in> {ComLibrary, Object 1, Object 2} then 1 else 0), ub = False,
     com_world = ()\<rparr>"

definition wmi_fresh :: "unit WMI" where
  "wmi_fresh = \<lparr>m_pLoc = 0, m_pSvc = 0, held = (\<lambda>r. 0), ub = False, com_world = ()\<rparr>"

definition manual_config :: Ipv4Address where
  "manual_config = \<lparr>address = ''10.0.0.2'', netmask = ''255.0.0.0''\<rparr>"

lemma demo_com_laws: "com_laws (demo_wmi put)"
  by (simp add: com_laws_def demo_wmi_def)

section \<open>Properties\<close>

text \<open>
  Whatever the COM calls return, asking for a firewire adapter and enabling DHCP use no object they do not
  hold and give everything back on every path.
\<close>

theorem wmi_queries_balanced:
  assumes "com_laws os" and "m_pSvc s \<noteq> 0 \<Longrightarrow> 0 < held s (Object (m_pSvc s))"
    and "wmi_isFirewireAdapter os a s = (b, s1)" and "enableDHCP os a s = (r, s2)"
  shows "held s1 = held s \<and> ub s1 = ub s \<and> held s2 = held s \<and> ub s2 = ub s"
proof (cases "m_pLoc s = 0 \<or> m_pSvc s = 0")
  case True
  then show ?thesis using assms(3,4) by (auto simp: wmi_isFirewireAdapter_def enableDHCP_def)
next
  case False
  then have svc: "0 < held s (Object (m_pSvc s))" using assms(2) by blast
  obtain p t where p: "first_result os (product_query a) s = (p, t)" by fastforce
  have "clean s (held s) s1"
    using False assms(3) p first_result_clean [OF assms(1) svc p]
    by (cases p) (auto simp: wmi_isFirewireAdapter_def clean_def com_simps plus_def)
  moreover obtain v u where v: "adapter_path os a s = (v, u)" by fastforce
  have u: "clean s (case v of None \<Rightarrow> held s | Some _ \<Rightarrow> plus (held s) Variant) u"
    by (rule adapter_path_clean [OF assms(1) svc v])
  have "clean s (held s) s2"
  proof (cases v)
    case None
    then show ?thesis using False assms(4) v u by (simp add: enableDHCP_def)
  next
    case (Some path)
    then have h: "0 < held u (Object (m_pSvc u))" "held u = plus (held s) Variant"
      using u svc by (simp_all add: clean_def plus_def)
    obtain hr u' where e: "exec_method os path ''EnableDHCP'' 0 u = (hr, u')" by fastforce
    have "clean u (held s) u'" using exec_method_clean [OF h(1) _ h(2) e] by simp
    then show ?thesis using False assms(4) v u e Some by (simp add: enableDHCP_def clean_def)
  qed
  ultimately show ?thesis by (simp add: clean_def)
qed

theorem wmi_queries_balanced_witness:
  "fst (enableDHCP (demo_wmi 0) Netadapter_ctor wmi_ready) = 0 \<and>
   held (snd (enableDHCP (demo_wmi 0) Netadapter_ctor wmi_ready)) = held wmi_ready"
proof -
  have ready: "m_pSvc wmi_ready \<noteq> 0 \<Longrightarrow> 0 < held wmi_ready (Object (m_pSvc wmi_ready))" by (simp add: wmi_ready_def)
  have "fst (enableDHCP (demo_wmi 0) Netadapter_ctor wmi_ready) = 0"
    by (simp add: enableDHCP_def adapter_path_def first_result_def exec_method_def invoke_on_def com_def demo_wmi_def
        wmi_ready_def split_beta Let_def)
  then show ?thesis
    using wmi_queries_balanced [OF demo_com_laws ready prod.collapse [symmetric] prod.collapse [symmetric]] by blast
qed

text \<open>
  Claim C15: setting a manual address whose texts are shorter than 16 characters, with parameters that can be stored, uses
  nothing it does not hold, and when it reports success it has given everything back.
\<close>

theorem setManualIpV4_balanced:
  assumes "com_laws os" and "0 < held s (Object (m_pSvc s))" and "\<not> ub s"
    and "length (address c) < 16" and "length (netmask c) < 16"
    and "\<forall>p n arr w. fst (wmi_put os p n arr w) = 0"
    and "setManualIpV4 os a c s = (r, s')"
  shows "\<not> ub s' \<and> (r = 0 \<longrightarrow> held s' = held s)"
proof (cases "m_pLoc s = 0 \<or> m_pSvc s = 0")
  case True
  then show ?thesis using assms(3,7) by (auto simp: setManualIpV4_def)
next
  case False
  obtain inst s1 where i: "input_parameters os s = (inst, s1)" by fastforce
  note s1 = input_parameters_clean(1) [OF assms(1,2) i]
  show ?thesis
  proof (cases inst)
    case None
    then show ?thesis using False assms(3,7) i s1 by (simp add: setManualIpV4_def clean_def)
  next
    case (Some ob)
    then have ready: "clean s (plus (held s) (Object ob)) s1" using s1 by simp
    obtain ip s2 where ip: "com (wmi_new_array os) s1 = (ip, s2)" by fastforce
    obtain ok1 s3 where f1: "fill_array os ip (address c) (acquire_nonnull Array ip s2) = (ok1, s3)" by fastforce
    obtain nm s4 where nm: "com (wmi_new_array os) s3 = (nm, s4)" by fastforce
    obtain ok2 s5 where f2: "fill_array os nm (netmask c) (acquire_nonnull Array nm s4) = (ok2, s5)" by fastforce
    note s35 = manual_arguments [OF ready assms(4,5) ip f1 nm f2]
    have "clean s (arguments (held s) ob ip nm) (put_arguments os ob ip nm s5)"
      using s35(2) assms(6)
      by (simp add: put_arguments_def Let_def split_beta clean_def com_simps arguments_objects invoke_on_def com_def touch_def)
    note finish = enable_static_clean [OF assms(1-3) this]
    have drop: "release_nonnull Array 0 t = t" for t :: "'a WMI" by (simp add: release_nonnull_def)
    show ?thesis
      using release_arguments [OF s35(1) assms(3)] release_arguments [OF s35(2) assms(3)] finish False assms(3,7) i Some ip f1 nm f2
      by (auto simp: setManualIpV4_def clean_def drop split: if_splits)
  qed
qed

theorem setManualIpV4_balanced_witness:
  "fst (setManualIpV4 (demo_wmi 0) Netadapter_ctor manual_config wmi_ready) = 0 \<and>
   held (snd (setManualIpV4 (demo_wmi 0) Netadapter_ctor manual_config wmi_ready)) = held wmi_ready"
proof -
  let ?r = "setManualIpV4 (demo_wmi 0) Netadapter_ctor manual_config wmi_ready"
  have ok: "fst ?r = 0"
    by (simp add: setManualIpV4_def input_parameters_def fill_array_def enable_static_def put_arguments_def adapter_path_def
        first_result_def exec_method_def invoke_on_def com_def demo_wmi_def wmi_ready_def split_beta Let_def com_simps)
  have put: "\<forall>p n arr w. fst (wmi_put (demo_wmi 0) p n arr w) = 0" by (simp add: demo_wmi_def)
  have short: "length (address manual_config) < 16" "length (netmask manual_config) < 16" by (simp_all add: manual_config_def)
  have ready: "0 < held wmi_ready (Object (m_pSvc wmi_ready))" "\<not> ub wmi_ready" by (simp_all add: wmi_ready_def)
  show ?thesis
    using setManualIpV4_balanced [OF demo_com_laws ready short put prod.collapse [symmetric]] ok by blast
qed

text \<open>
  Claim C32: when a parameter cannot be stored, the error branch gives the parameters and the arrays back but does not return:
  the function goes on and uses the parameters it no longer holds.
\<close>

theorem setManualIpV4_put_fails:
  assumes "com_laws os" and "m_pLoc s \<noteq> 0" and "m_pSvc s \<noteq> 0" and "0 < held s (Object (m_pSvc s))"
    and "input_parameters os s = (Some i, s1)" and "held s (Object i) = 0"
    and "\<forall>arr t w. fst (wmi_put_element os arr t w)" and "\<forall>p n arr w. fst (wmi_put os p n arr w) \<noteq> 0"
    and "length (address c) < 16" and "length (netmask c) < 16"
  shows "ub (snd (setManualIpV4 os a c s))"
proof -
  have ready: "clean s (plus (held s) (Object i)) s1" and i: "i \<noteq> 0"
    using input_parameters_clean [OF assms(1,4,5)] by simp_all
  obtain ip s2 where ip: "com (wmi_new_array os) s1 = (ip, s2)" by fastforce
  obtain ok1 s3 where f1: "fill_array os ip (address c) (acquire_nonnull Array ip s2) = (ok1, s3)" by fastforce
  obtain nm s4 where nm: "com (wmi_new_array os) s3 = (nm, s4)" by fastforce
  obtain ok2 s5 where f2: "fill_array os nm (netmask c) (acquire_nonnull Array nm s4) = (ok2, s5)" by fastforce
  note s5 = manual_arguments(2) [OF ready assms(9,10) ip f1 nm f2]
  have ok: ok1 ok2 using f1 f2 assms(7) by (auto simp: fill_array_def Let_def com_def split_beta)
  let ?s6 = "put_arguments os i ip nm s5"
  have s6: "held ?s6 (Object p) = (if p = i then 0 else held s (Object p))" "m_pSvc ?s6 = m_pSvc s" for p
    using s5 assms(6,8)
    by (simp_all add: put_arguments_def Let_def split_beta clean_def com_simps arguments_objects invoke_on_def com_def touch_def)
  obtain v s7 where v: "adapter_path os a ?s6 = (v, s7)" by fastforce
  have "m_pSvc s \<noteq> i" using assms(4,6) by auto
  then have "0 < held ?s6 (Object (m_pSvc ?s6))" using s6 assms(4) by simp
  from adapter_path_clean [OF assms(1) this v] have gone: "held s7 (Object i) = 0"
    using s6(1) by (auto simp: clean_def plus_def split: option.splits)
  then have "ub (snd (enable_static os a i ip nm ?s6))"
    using exec_method_stale [OF i gone] v
    by (auto simp: enable_static_def com_simps split_beta Let_def split: option.split)
  then show ?thesis using assms(2,3,5) ip f1 nm f2 ok by (simp add: setManualIpV4_def)
qed

theorem setManualIpV4_put_fails_witness:
  "ub (snd (setManualIpV4 (demo_wmi 5) Netadapter_ctor manual_config wmi_ready)) \<and> \<not> ub wmi_ready"
proof -
  obtain r s1 where r: "input_parameters (demo_wmi 5) wmi_ready = (r, s1)" by fastforce
  then have i: "input_parameters (demo_wmi 5) wmi_ready = (Some 8, s1)"
    by (auto simp: input_parameters_def invoke_on_def com_def demo_wmi_def split_beta Let_def)
  have ready: "m_pLoc wmi_ready \<noteq> 0" "m_pSvc wmi_ready \<noteq> 0" "0 < held wmi_ready (Object (m_pSvc wmi_ready))"
      "held wmi_ready (Object 8) = 0" "\<not> ub wmi_ready"
    by (simp_all add: wmi_ready_def)
  have calls: "\<forall>arr t w. fst (wmi_put_element (demo_wmi 5) arr t w)"
      "\<forall>p n arr w. fst (wmi_put (demo_wmi 5) p n arr w) \<noteq> 0"
    by (simp_all add: demo_wmi_def)
  have short: "length (address manual_config) < 16" "length (netmask manual_config) < 16" by (simp_all add: manual_config_def)
  show ?thesis
    using setManualIpV4_put_fails [OF demo_com_laws ready(1-3) i ready(4) calls short] ready(5) by blast
qed

text \<open>
  A successful initialisation followed by the clean-up gives back the library, the locator and the services, and
  a second initialisation in between reports 1 and changes nothing.
\<close>

theorem initWMI_uninitWMI:
  assumes "\<forall>w. fst (wmi_create_locator os w) \<noteq> Some 0" and "\<forall>p w. fst (wmi_connect_server os p w) \<noteq> Some 0"
    and "initWMI os s = (0, s1)"
  shows "initWMI os s1 = (1, s1) \<and> held (uninitWMI os s1) = held s \<and> ub (uninitWMI os s1) = ub s \<and>
    m_pLoc (uninitWMI os s1) = 0 \<and> m_pSvc (uninitWMI os s1) = 0"
proof -
  obtain b t1 where t1: "com (wmi_co_initialize os) s = (b, t1)" by fastforce
  obtain c t2 where t2: "com (wmi_co_security os) (acquire ComLibrary t1) = (c, t2)" by fastforce
  obtain lo t3 where t3: "com (wmi_create_locator os) t2 = (lo, t3)" by fastforce
  have bcl: "b" "c" "lo \<noteq> None" and new: "m_pLoc s = 0 \<or> m_pSvc s = 0"
    using assms(3) t1 t2 t3 by (auto simp: initWMI_def Let_def split: bool.splits option.splits if_splits)
  then obtain loc where loc: "lo = Some loc" by blast
  let ?t3 = "(acquire (Object loc) t3)\<lparr>m_pLoc := loc\<rparr>"
  obtain sv t4 where t4: "invoke_on loc (wmi_connect_server os loc) ?t3 = (sv, t4)" by fastforce
  have "sv \<noteq> None" using assms(3) new t1 t2 t3 t4 bcl loc by (cases sv) (auto simp: initWMI_def)
  then obtain svc where svc: "sv = Some svc" by blast
  let ?t4 = "(acquire (Object svc) t4)\<lparr>m_pSvc := svc\<rparr>"
  obtain d t5 where t5: "invoke_on svc (wmi_set_blanket os svc) ?t4 = (d, t5)" by fastforce
  have s1: "s1 = t5"
    using assms(3) new t1 t2 t3 t4 t5 bcl loc svc by (cases d) (auto simp: initWMI_def)
  have nz: "loc \<noteq> 0" using assms(1) [THEN spec, of "com_world t2"] com_result [OF t3] loc by auto
  have nz2: "svc \<noteq> 0"
    using com_result [OF t4 [unfolded invoke_on_def]] svc
      assms(2) [THEN spec, THEN spec, of loc "com_world (touch (Object loc) ?t3)"] by auto
  have h: "m_pLoc s1 = loc" "m_pSvc s1 = svc" "ub s1 = ub s"
      "held s1 = plus (plus (plus (held s) ComLibrary) (Object loc)) (Object svc)"
    using t1 t2 t3 t4 t5 s1 by (auto simp: com_simps plus_def dest!: snd_eq)
  then show ?thesis using nz nz2 by (simp add: initWMI_def uninitWMI_def com_simps)
qed

theorem initWMI_uninitWMI_witness:
  "\<exists>s1. initWMI (demo_wmi 0) wmi_fresh = (0, s1) \<and> m_pSvc s1 = 2 \<and> held (uninitWMI (demo_wmi 0) s1) = held wmi_fresh"
proof -
  obtain s1 where s1: "initWMI (demo_wmi 0) wmi_fresh = (0, s1)" "m_pSvc s1 = 2"
    by (simp add: initWMI_def com_def invoke_on_def acquire_def touch_def demo_wmi_def wmi_fresh_def)
  have "\<forall>w. fst (wmi_create_locator (demo_wmi 0) w) \<noteq> Some 0" "\<forall>p w. fst (wmi_connect_server (demo_wmi 0) p w) \<noteq> Some 0"
    by (simp_all add: demo_wmi_def)
  from initWMI_uninitWMI [OF this s1(1)] show ?thesis using s1 by blast
qed

end
