(* ===== verification/WinCommTools.thy ===== *)
theory WinCommTools
  imports WinSocketBehaviour
begin

text \<open>
  The callback of the echo server, \<open>tool/communication/Server.cpp\<close>, compiled with the Windows backend, as the project files of
  the tool do: the same loop as in \<open>CommTools\<close> over the functions of \<open>windows/socketnonblocking.cpp\<close>.
\<close>

section \<open>The loop\<close>

partial_function (option) win_echo_loop :: "'w win_socket_os \<Rightarrow> 8 word \<Rightarrow> win_event \<times> BufferedReader \<times> 'w \<Rightarrow>
    ((cxx_exception + unit) \<times> win_event \<times> BufferedReader \<times> 'w) option" where
  "win_echo_loop so buffer s =
     (case win_receiveComplete so 1 (- 1) s of
        None \<Rightarrow> None
      | Some (Inl ex, s) \<Rightarrow> Some (Inl ex, s)
      | Some (Inr (result, got), ev, r, w) \<Rightarrow>
          (let buffer = (case got of [] \<Rightarrow> buffer | b # _ \<Rightarrow> b) in
           if result = 0 then Some (Inr (), ev, r, w)
           else case win_sendBlock so (fileHandle ev) [buffer] w of
             None \<Rightarrow> None
           | Some (_, w) \<Rightarrow> win_echo_loop so buffer (ev, r, w)))"

text \<open>Receiving returns the number of bytes asked for or -1, also at the end of the stream.\<close>

lemma win_receive_loop_result:
  assumes "win_receive_loop read sel len got s = Some (Inr (n, out), s')"
  shows "n = - 1 \<or> n = to_int32 len"
proof -
  have "\<forall>n out. fst x = Inr (n, out) \<longrightarrow> n = - 1 \<or> n = to_int32 len"
    if "win_receive_loop read sel len got s = Some x" for x
    using that
  proof (induction rule: win_receive_loop.raw_induct [rotated, consumes 1, case_names step])
    case (step loop read sel len got s x)
    obtain y s1 where y: "read (len - length got) s = (y, s1)" by fastforce
    show ?case
      using step(1) [of read sel len _ _ x] step(2) y by (cases y) (auto split: if_splits option.splits)
  qed
  from this [OF assms] show ?thesis by simp
qed

lemma win_echo_loop_open:
  assumes "win_echo_loop so buffer s = Some x"
  shows "\<exists>ex. fst x = Inl ex"
  using assms
proof (induction rule: win_echo_loop.raw_induct [rotated, consumes 1, case_names step])
  case (step loop so buffer s x)
  obtain y s1 where y: "win_receiveComplete so 1 (- 1) s = Some (y, s1)"
    using step(2) by (cases "win_receiveComplete so 1 (- 1) s") auto
  show ?case
  proof (cases y)
    case (Inl ex)
    then show ?thesis using step(2) y by auto
  next
    case (Inr p)
    obtain result got where p: "p = (result, got)" by (cases p)
    obtain ev r w where s1: "s1 = (ev, r, w)" by (cases s1)
    have "result = - 1 \<or> result = to_int32 1"
      by (rule win_receive_loop_result [OF y [unfolded Inr p win_receiveComplete_def]])
    then have "result \<noteq> 0" by (auto simp: to_int32_small)
    then obtain rv w2 buf where "loop so buf (ev, r, w2) = Some x"
      using step(2) y Inr p s1 by (auto simp: Let_def split: option.splits)
    then show ?thesis using step(1) by blast
  qed
qed

section \<open>Properties\<close>

text \<open>
  Claim C36: on Windows the callback of the echo server never gets to its end, whatever the peer and the system do: it waits for a
  result of 0, which \<open>receiveComplete\<close> does not return there.
\<close>

theorem win_echo_server_never_ends: "win_echo_loop so buffer s \<noteq> Some (Inr (), s')"
  using win_echo_loop_open [of so buffer s] by fastforce

end
