(* ===== verification/Spec2Isabelle.thy ===== *)
theory Spec2Isabelle
  imports Timer Notifier TcpServer NetlinkTelegrams MulticastBehaviour SysTools
    NotifierThreads CommTools LoopTools NetTools
    WinTimerNotifier WinTcpServer WinNetlink WinMulticastBehaviour WmiBehaviour WinCommTools
begin

text \<open>
  A verification development for the hbm library: an event loop and the classes that use it, sockets, multicast, the list of network
  adapters, and string and address tools.

  Parts and how they interact. \<open>sys::EventLoop\<close> (\<open>EventLoop\<close>, \<open>EventLoopSafety\<close>,
  \<open>EventLoopBehaviour\<close>) calls the handlers registered for descriptors. Its clients live in the world of the loop and are
  reached through pointers (\<open>LoopClient\<close>): \<open>Timer\<close>, \<open>Notifier\<close>, \<open>SocketNonblocking\<close>,
  \<open>TcpServer\<close>, \<open>Netlink\<close>, \<open>MulticastServer\<close>. Connections read through \<open>BufferedReader\<close>;
  \<open>SocketIO\<close> has their transfer functions. \<open>Netlink\<close> keeps the \<open>NetadapterList\<close> up to date, which
  \<open>MulticastServer\<close> consults. An adapter (\<open>Netadapter\<close>) has addresses (\<open>Ipv4Address\<close>,
  \<open>Ipv6Address\<close>, on the text functions of \<open>InetText\<close>), which are taken apart with the functions of
  \<open>StringTools\<close>. \<open>SysTools\<close> has the pid file, the execution of commands, the exceptions and the stack trace.
  \<open>HbmPrelude\<close>, \<open>StdString\<close>, \<open>StdMap\<close> hold what all of them share and the operations of the C++
  library.

  Composition. \<open>Delivery\<close> puts both ends of a connection together: what is sent arrives, and the loops return. The programs
  under \<open>tool\<close> are models of whole programs over the library: \<open>CommTools\<close> has the echo server and its client
  (\<open>WinCommTools\<close> the server on Windows), \<open>LoopTools\<close> the notifier that keeps the event loop busy,
  \<open>NetTools\<close> the programs that show adapters and their changes.

  Both backends. The library compiles \<open>lib/sys/linux\<close> and \<open>lib/communication/linux\<close> or the files of the same names
  under \<open>windows\<close>. The theories above model the first; those beginning with \<open>Win\<close> the second, on overlapped I/O:
  \<open>WinEventLoop\<close> waits for a completion port and finds the handler under the key of a completion,
  \<open>WinTimerNotifier\<close> posts completions, \<open>WinBufferedReader\<close>, \<open>WinSocketNonblocking\<close>,
  \<open>WinTcpServer\<close>, \<open>WinNetlink\<close> and \<open>WinMulticastServer\<close> order an operation and are called when it
  completes, and \<open>WinNetadapterList\<close> fills the list of adapters. \<open>WinEventLoopBehaviour\<close>,
  \<open>WinSocketBehaviour\<close> and \<open>WinMulticastBehaviour\<close> hold what they promise. Names of Windows definitions begin with
  \<open>win_\<close>. \<open>Wmi\<close> and \<open>WmiBehaviour\<close> have the client that configures adapters through COM. What is the
  same text in both backends, as the queries of the list, is defined once.

  Conventions. Every class is a record with the members of the source; every function a definition of the same name (with the name of the
  class in front where names collide, with the kind of argument behind for overloads). A throw is \<open>Inl\<close> or the outcome
  \<open>Throw\<close>; a read or write outside an object is \<open>UndefinedBehaviour\<close>. Machine integers are words, or naturals
  where a length cannot overflow. Code outside the repository is an argument: each group of system calls is a record of functions on an
  abstract world, and what the manual pages promise of them is a named predicate that the theorems assume. Every such theorem is followed by
  a witness on a concrete instance.

  Loops. A loop that may run forever is a \<open>partial_function (option)\<close>, so that not returning is the value \<open>None\<close>;
  no fuel is used. \<open>dispatch_terminates\<close>, \<open>sendBlock_returns\<close>, \<open>transfer_delivers\<close>,
  \<open>performance_counts\<close> and \<open>execute_stops\<close> prove that loops return, \<open>replace_diverges\<close>,
  \<open>win_execute_hangs\<close>, \<open>win_receiveComplete_spins\<close>, \<open>echo_server_spins\<close> and
  \<open>win_echo_server_never_ends\<close> that others do not.

  What is shown. The event loop drains its events and never follows a dangling pointer: in the transition system of its steps, with the
  operations of other threads wherever the loop does not hold its lock, unless one of them erases an event between the return of
  \<open>epoll_wait\<close> and the store of its result; \<open>erase_race\<close> is a path of the same system on which that happens and the
  pointer is followed. The buffered reader refines a list of bytes; sending and receiving
  transfer exactly the bytes given, from one end of a connection to the other and, through the echo server, back to the client. A callback
  that notifies itself is called as often as it asks for before \<open>stop\<close> ends the loop, and no notification of any thread is lost
  or executed twice. Processing a telegram of the kernel equals a specification over messages. The server reports each waiting connection once and in order, up to the
  first call that fails, and which connections are left behind then is stated.
  Group memberships, with those the kernel refuses, and datagrams are
  those of the list of adapters. The list keeps its invariant. The address and string functions meet
  specifications over numbers and lists. On Windows, the event loop serves handlers in the order of the completions, each until it returns
  0 or less; the buffered reader refines the same list of bytes as on Linux (it is a second interpretation of \<open>byte_source\<close>)
  unless its second attempt to read fails, where it returns what it never set; the transfer functions and the
  list of adapters have the corresponding theorems, and the WMI client gives back what it holds. Where the code differs from what it
  promises, the theorem states what it does: lost data behind an error, a receiver that stays deaf after an empty datagram, an exception
  that ends the event loop, an object used after its release. Interfaces between parts are locales (\<open>dispatcher\<close>,
  \<open>event_registry\<close>, \<open>byte_source\<close> and its extension \<open>arriving_source\<close>,
  \<open>adapter_directory\<close>, \<open>tokenizer\<close>), each interpreted on the definitions of its provider.

  Left open: \<open>mask_pending\<close> takes the address of the erased event to be the one it had, as the allocator of the compiled
  program leaves it, although the source reads it through an iterator that \<open>erase\<close> has invalidated.

  Not modelled: mutexes (each operation under a lock is one step; the race that the lock does not cover is modelled on Linux, and
  \<open>NotifierThreads\<close> interleaves notifications of other threads with the steps of the loop; on Windows the loop holds the
  recursive lock while a handler runs), writes of the kernel into the memory of an object after its destruction, transfers of 2 GB and more
  in the Windows backend, where lengths pass through \<open>int\<close>, clocks and what the programs under \<open>tool\<close> write to the
  console (except the viewers and the reports of the client), the tests and the build files.
\<close>

end
